theory Spec2Isabelle
  imports Main "HOL-Library.AList"
begin

section \<open>Tokens and the token source\<close>

text \<open>
  The token kinds the parser dispatches on (the enumeration itself lives in the scanner's
  headers; the names are the ones \<^verbatim>\<open>Parser.cpp\<close> uses).
\<close>

datatype TokenType =
    T_EOF | K_Fun | K_Var | K_If | K_Else | K_While | K_Return | K_Break | K_Continue
  | K_Len | K_Append | I_Identifier | L_Numeric
  | T_OpenParen | T_CloseParen | T_OpenBrace | T_CloseBrace | T_OpenBracket | T_CloseBracket
  | T_Comma | T_Semicolon | T_Colon | T_Equal
  | T_Equal2 | T_NotEqual | T_LessThan | T_LeEqThan | T_GreaterThan | T_GrEqThan
  | T_Plus | T_Minus | T_Asterisk | T_Slash | T_Exclamation | T_Bar2 | T_Ampersand2

datatype Token = Token (getType: TokenType) (getString: string) (getInteger: int)

section \<open>Values, variable slots and the syntax tree\<close>

datatype VarType = VarType_INT | VarType_LIST

datatype Var = Var VarType "int list"

text \<open>
  Modelled from the spec: the default-constructed \<^verbatim>\<open>Var()\<close> (class \<^verbatim>\<open>Var\<close> is not in
  \<^verbatim>\<open>Parser.cpp\<close>) is the "implicitly zero-valued scalar".
\<close>

definition Var_default :: Var where
  "Var_default = Var VarType_INT [0]"

text \<open>
  A \<^verbatim>\<open>Var&\<close> handed out by \<^verbatim>\<open>findVariable\<close> denotes a slot of one block: the index of the
  block in the arena of blocks, and the name of the slot in it.
\<close>

datatype VarRef = VarRef nat string

datatype RelOp = Equal | NotEqual | LessThan | LessEqual | GreaterThan | GreaterEqual

datatype AddOp = Plus | Minus

datatype MulOp = Multiply | Divide

datatype Return = Continue | Break

text \<open>
  One constructor per class (and, for \<^verbatim>\<open>BaseMathExpr\<close> and \<^verbatim>\<open>AssignStatement\<close>, per
  overloaded constructor) that \<^verbatim>\<open>Parser.cpp\<close> instantiates. \<^verbatim>\<open>OrExpr\<close> and \<^verbatim>\<open>AndExpr\<close>
  hold their operands in order (first operand, then each \<^verbatim>\<open>addOr\<close>/\<^verbatim>\<open>addAnd\<close>); \<^verbatim>\<open>AddExpr\<close>
  and \<^verbatim>\<open>MultiExpr\<close> hold the first operand and the chain of operator/operand pairs. A block
  is referred to by its index in the arena; a null \<^verbatim>\<open>unique_ptr\<close> is \<open>None\<close>.
\<close>

datatype Expression =
    OrExpr "Expression list"
  | AndExpr "Expression list"
  | RelationExpr Expression "(RelOp \<times> Expression) option"
  | BaseLogicExpr Expression bool
  | AddExpr Expression "(AddOp \<times> Expression) list"
  | MultiExpr Expression "(MulOp \<times> Expression) list"
  | BaseMathExpr_Var Var bool
  | BaseMathExpr_Expr Expression bool
  | BaseMathExpr_Stmt Statement bool
  | BaseMathExpr_Ref VarRef bool
  | BaseMathExpr_Index VarRef Expression bool
  | BaseMathExpr_Slice VarRef Expression Expression bool
and Statement =
    AssignStatement VarRef Expression
  | AssignStatement_Index VarRef "Expression option" Expression
  | ReturnStatement Expression
  | ReturnStatement_Kind Return
  | IfStatement Expression nat "nat option"
  | WhileStatement Expression nat
  | FunctionCall string "Expression list"
  | AppendStatement VarRef VarRef
  | LenStatement VarRef
  | BlockStatement_Ref nat

section \<open>Blocks, functions and the parser state\<close>

record BlockStatement =
  parent :: "nat option"
  variables :: "(string \<times> Var) list"
  statements :: "Statement list"

record FunctionDefinition =
  fname :: string
  fparams :: "string list"
  fblock :: nat

type_synonym Program = "(string \<times> FunctionDefinition) list"

text \<open>
  The parser object: \<open>scr\<close> is what the scanner has still to deliver (its head is
  \<^verbatim>\<open>scr->getToken()\<close>), \<open>current\<close> the token consumed last, \<open>block\<close> the current-block
  cursor (\<open>None\<close> is \<^verbatim>\<open>nullptr\<close>), \<open>blocks\<close> the arena of every block created so far and
  \<open>program\<close> the function table. \<open>bracket_uninit\<close> is the indeterminate value that the
  uninitialised local \<^verbatim>\<open>bool bracket\<close> of \<^verbatim>\<open>parseAssignStatement\<close> holds when no index
  was parsed.
\<close>

record Parser =
  scr :: "Token list"
  current :: Token
  block :: "nat option"
  blocks :: "BlockStatement list"
  program :: Program
  bracket_uninit :: bool

text \<open>
  The faults of the parser. Every one is a \<^verbatim>\<open>std::runtime_error\<close> in the source, told apart
  by its message: "Wrong token" (\<open>SyntaxError\<close>), "Block parse invalid"
  (\<open>InvalidBlock\<close>), "Variable already initialized" (\<open>DuplicateVariable\<close>), "Variable not
  found" (\<open>UndefinedVariable\<close>), "Function not found" (\<open>UndefinedFunction\<close>), "Wrong number
  of parameters in functionCall" (\<open>ArityMismatch\<close>), "Unknown math expression"
  (\<open>UnrecognizedExpression\<close>). \<open>NullBlock\<close> stands for a dereference of the current-block
  cursor while it is \<^verbatim>\<open>nullptr\<close>.
\<close>

datatype error =
    SyntaxError
  | InvalidBlock
  | DuplicateVariable
  | UndefinedVariable string
  | UndefinedFunction string
  | ArityMismatch
  | UnrecognizedExpression
  | NullBlock

text \<open>
  A call either throws or returns, and leaves the parser object in some state either way.
  Recursive descent is modelled with fuel: \<open>None\<close> means that the fuel ran out before the
  call came back.
\<close>

type_synonym 'a result = "(error + 'a) \<times> Parser"

definition ret :: "'a \<Rightarrow> Parser \<Rightarrow> 'a result option" where
  "ret x p = Some (Inr x, p)"

definition throw :: "error \<Rightarrow> Parser \<Rightarrow> 'a result option" where
  "throw e p = Some (Inl e, p)"

definition bind :: "'a result option \<Rightarrow> ('a \<Rightarrow> Parser \<Rightarrow> 'b result option) \<Rightarrow> 'b result option" where
  "bind r k = (case r of
       None \<Rightarrow> None
     | Some (Inl e, p) \<Rightarrow> Some (Inl e, p)
     | Some (Inr x, p) \<Rightarrow> k x p)"

definition andThen :: "'a result \<Rightarrow> ('a \<Rightarrow> Parser \<Rightarrow> 'b result option) \<Rightarrow> 'b result option" where
  "andThen r k = (case r of
       (Inl e, p) \<Rightarrow> Some (Inl e, p)
     | (Inr x, p) \<Rightarrow> k x p)"

subsection \<open>Token source\<close>

text \<open>
  Modelled from the spec: the scanner and \<^verbatim>\<open>Parser::move\<close> are not in \<^verbatim>\<open>Parser.cpp\<close>. The
  token source has one token of lookahead: \<^verbatim>\<open>scr->getToken()\<close> and the member \<^verbatim>\<open>next\<close> are
  the token not yet consumed, \<^verbatim>\<open>move()\<close> makes it \<^verbatim>\<open>current\<close> and advances; at the end of the
  input the scanner keeps delivering end-of-input.
\<close>

definition getToken :: "Parser \<Rightarrow> Token" where
  "getToken p = (case scr p of [] \<Rightarrow> Token T_EOF [] 0 | t # ts \<Rightarrow> t)"

definition nextToken :: "Parser \<Rightarrow> Token" where
  "nextToken p = getToken p"

definition move :: "Parser \<Rightarrow> Parser" where
  "move p = p\<lparr>scr := (case scr p of [] \<Rightarrow> [] | t # ts \<Rightarrow> ts), current := getToken p\<rparr>"

definition THROW :: bool where
  "THROW = True"

definition NOTHROW :: bool where
  "NOTHROW = False"

definition accept :: "TokenType \<Rightarrow> bool \<Rightarrow> Parser \<Rightarrow> bool result" where
  "accept type doThrow p =
     (if getType (getToken p) = type then (Inr True, move p)
      else if doThrow then (Inl SyntaxError, p)
      else (Inr False, p))"

text \<open>
  Modelled from the spec: the default of \<^verbatim>\<open>doThrow\<close> is declared in \<^verbatim>\<open>Parser.hpp\<close>, which is
  not in \<^verbatim>\<open>Parser.cpp\<close>. The one-argument calls try the alternatives of a primary expression
  "in order of attempt", so a non-match is reported, not thrown.
\<close>

definition accept1 :: "TokenType \<Rightarrow> Parser \<Rightarrow> bool result" where
  "accept1 type p = accept type NOTHROW p"

subsection \<open>Blocks\<close>

text \<open>
  Modelled from the spec: \<^verbatim>\<open>BlockStatement\<close> is not in \<^verbatim>\<open>Parser.cpp\<close>. "\<^verbatim>\<open>existVariable\<close> /
  \<^verbatim>\<open>findVariable\<close> walk the current block's parent chain outward; the first block containing
  the name wins"; "declaration always writes into the current block only". A block is
  created after its parent, so the walk goes to smaller indices only.
\<close>

function BlockStatement_findVariable :: "BlockStatement list \<Rightarrow> nat \<Rightarrow> string \<Rightarrow> VarRef option" where
  "BlockStatement_findVariable bs b name =
     (if name \<in> fst ` set (variables (bs ! b)) then Some (VarRef b name)
      else case parent (bs ! b) of
             None \<Rightarrow> None
           | Some q \<Rightarrow> if q < b then BlockStatement_findVariable bs q name else None)"
  by pat_completeness auto
termination
  by (relation "measure (\<lambda>(bs, b, name). b)") auto

declare BlockStatement_findVariable.simps [simp del]

text \<open>
  Modelled from the spec: "the current block or any ancestor block", as the list of the
  blocks that the walk of \<^verbatim>\<open>findVariable\<close> visits from block \<open>b\<close>: \<open>b\<close> itself, its
  parent, the parent of that one, up to the block without a parent.
\<close>

function ancestors :: "BlockStatement list \<Rightarrow> nat \<Rightarrow> nat list" where
  "ancestors bs b =
     b # (case parent (bs ! b) of
            None \<Rightarrow> []
          | Some q \<Rightarrow> if q < b then ancestors bs q else [])"
  by pat_completeness auto
termination
  by (relation "measure (\<lambda>(bs, b). b)") auto

declare ancestors.simps [simp del]

definition BlockStatement_existVariable :: "BlockStatement list \<Rightarrow> nat \<Rightarrow> string \<Rightarrow> bool" where
  "BlockStatement_existVariable bs b name = (BlockStatement_findVariable bs b name \<noteq> None)"

definition BlockStatement_addVariable :: "nat \<Rightarrow> string \<Rightarrow> Var \<Rightarrow> BlockStatement list \<Rightarrow> BlockStatement list" where
  "BlockStatement_addVariable b name v bs =
     bs[b := (bs ! b)\<lparr>variables := variables (bs ! b) @ [(name, v)]\<rparr>]"

definition BlockStatement_addStatement :: "nat \<Rightarrow> Statement \<Rightarrow> BlockStatement list \<Rightarrow> BlockStatement list" where
  "BlockStatement_addStatement b s bs =
     bs[b := (bs ! b)\<lparr>statements := statements (bs ! b) @ [s]\<rparr>]"

text \<open>\<^verbatim>\<open>std::make_unique<BlockStatement>(parent)\<close>: a fresh block at the end of the arena.\<close>

definition new_BlockStatement :: "nat option \<Rightarrow> Parser \<Rightarrow> nat \<times> Parser" where
  "new_BlockStatement par p =
     (length (blocks p),
      p\<lparr>blocks := blocks p @ [\<lparr>parent = par, variables = [], statements = []\<rparr>]\<rparr>)"

text \<open>The calls through the cursor: \<^verbatim>\<open>block->existVariable(id)\<close> and the like.\<close>

definition block_existVariable :: "string \<Rightarrow> Parser \<Rightarrow> bool result" where
  "block_existVariable name p =
     (case block p of
        None \<Rightarrow> (Inl NullBlock, p)
      | Some b \<Rightarrow> (Inr (BlockStatement_existVariable (blocks p) b name), p))"

text \<open>
  Modelled from the spec: what \<^verbatim>\<open>findVariable\<close> does when the chain is exhausted is in the
  absent \<^verbatim>\<open>BlockStatement\<close>; "a reference to an identifier not found in the current block
  or any ancestor" is the fault \<open>UndefinedVariable\<close>.
\<close>

definition block_findVariable :: "string \<Rightarrow> Parser \<Rightarrow> VarRef result" where
  "block_findVariable name p =
     (case block p of
        None \<Rightarrow> (Inl NullBlock, p)
      | Some b \<Rightarrow> (case BlockStatement_findVariable (blocks p) b name of
                    None \<Rightarrow> (Inl (UndefinedVariable name), p)
                  | Some v \<Rightarrow> (Inr v, p)))"

definition block_addVariable :: "string \<Rightarrow> Var \<Rightarrow> Parser \<Rightarrow> unit result" where
  "block_addVariable name v p =
     (case block p of
        None \<Rightarrow> (Inl NullBlock, p)
      | Some b \<Rightarrow> (Inr (), p\<lparr>blocks := BlockStatement_addVariable b name v (blocks p)\<rparr>))"

definition block_addStatement :: "Statement \<Rightarrow> Parser \<Rightarrow> unit result option" where
  "block_addStatement s p =
     (case block p of
        None \<Rightarrow> Some (Inl NullBlock, p)
      | Some b \<Rightarrow> Some (Inr (), p\<lparr>blocks := BlockStatement_addStatement b s (blocks p)\<rparr>))"

definition existVariable :: "Parser \<Rightarrow> bool result" where
  "existVariable p =
     (case block_existVariable (getString (current p)) p of
        (Inl e, p1) \<Rightarrow> (Inl e, p1)
      | (Inr found, p1) \<Rightarrow>
          if \<not> found then (Inl (UndefinedVariable (getString (current p))), p1)
          else (Inr True, p1))"

subsection \<open>Functions and the function table\<close>

text \<open>
  Modelled from the spec: \<^verbatim>\<open>FunctionDefinition\<close> and the program class are not in
  \<^verbatim>\<open>Parser.cpp\<close>. A function owns a top-level block without parent; each parameter "becomes a
  scope-local variable in the function's top-level block"; the table maps names to
  definitions in insertion order and "duplicate names silently overwrite".
\<close>

definition new_FunctionDefinition :: "string \<Rightarrow> Parser \<Rightarrow> FunctionDefinition \<times> Parser" where
  "new_FunctionDefinition name p =
     (case new_BlockStatement None p of
        (b, p1) \<Rightarrow> (\<lparr>fname = name, fparams = [], fblock = b\<rparr>, p1))"

definition addParam :: "string \<Rightarrow> FunctionDefinition \<Rightarrow> Parser \<Rightarrow> FunctionDefinition \<times> Parser" where
  "addParam name f p =
     (f\<lparr>fparams := fparams f @ [name]\<rparr>,
      p\<lparr>blocks := BlockStatement_addVariable (fblock f) name Var_default (blocks p)\<rparr>)"

definition FunctionDefinition_size :: "FunctionDefinition \<Rightarrow> nat" where
  "FunctionDefinition_size f = length (fparams f)"

definition existFunction :: "Program \<Rightarrow> string \<Rightarrow> bool" where
  "existFunction prog name = (map_of prog name \<noteq> None)"

definition findFunction :: "Program \<Rightarrow> string \<Rightarrow> FunctionDefinition option" where
  "findFunction prog name = map_of prog name"

definition addFunction :: "FunctionDefinition \<Rightarrow> Parser \<Rightarrow> Parser" where
  "addFunction f p = p\<lparr>program := AList.update (fname f) f (program p)\<rparr>"

section \<open>The parser\<close>

subsection \<open>Loops over plain tokens\<close>

function parseVectorLiteral_while :: "int list \<Rightarrow> Parser \<Rightarrow> (int list) result" where
  "parseVectorLiteral_while vs p =
     (case accept T_Comma NOTHROW p of
        (Inl e, p1) \<Rightarrow> (Inl e, p1)
      | (Inr False, p1) \<Rightarrow> (Inr vs, p1)
      | (Inr True, p1) \<Rightarrow>
          (case accept L_Numeric THROW p1 of
             (Inl e, p2) \<Rightarrow> (Inl e, p2)
           | (Inr b, p2) \<Rightarrow> parseVectorLiteral_while (vs @ [getInteger (current p2)]) p2))"
  by pat_completeness auto
termination
  by (relation "measure (\<lambda>(vs, p). length (scr p))")
     (auto simp: accept_def move_def getToken_def split: if_splits list.splits)

declare parseVectorLiteral_while.simps [simp del]

definition parseVectorLiteral :: "Parser \<Rightarrow> Var result" where
  "parseVectorLiteral p =
     (case accept L_Numeric THROW p of
        (Inl e, p1) \<Rightarrow> (Inl e, p1)
      | (Inr b, p1) \<Rightarrow>
          (case parseVectorLiteral_while (if b then [getInteger (current p1)] else []) p1 of
             (Inl e, p2) \<Rightarrow> (Inl e, p2)
           | (Inr vs, p2) \<Rightarrow>
               (case accept T_CloseBracket THROW p2 of
                  (Inl e, p3) \<Rightarrow> (Inl e, p3)
                | (Inr c, p3) \<Rightarrow> (Inr (Var VarType_LIST vs), p3))))"

function parseArgs_while :: "FunctionDefinition \<Rightarrow> Parser \<Rightarrow> FunctionDefinition result" where
  "parseArgs_while f p =
     (case accept T_Comma NOTHROW p of
        (Inl e, p1) \<Rightarrow> (Inl e, p1)
      | (Inr False, p1) \<Rightarrow> (Inr f, p1)
      | (Inr True, p1) \<Rightarrow>
          (case accept I_Identifier THROW p1 of
             (Inl e, p2) \<Rightarrow> (Inl e, p2)
           | (Inr b, p2) \<Rightarrow>
               (case addParam (getString (current p2)) f p2 of
                  (f', p3) \<Rightarrow> parseArgs_while f' p3)))"
  by pat_completeness auto
termination
  by (relation "measure (\<lambda>(f, p). length (scr p))")
     (auto simp: accept_def move_def getToken_def addParam_def split: if_splits list.splits)

declare parseArgs_while.simps [simp del]

definition parseArgs :: "FunctionDefinition \<Rightarrow> Parser \<Rightarrow> FunctionDefinition result" where
  "parseArgs f p =
     (case accept I_Identifier NOTHROW p of
        (Inl e, p1) \<Rightarrow> (Inl e, p1)
      | (Inr b, p1) \<Rightarrow>
          (case (if b then (case addParam (getString (current p1)) f p1 of
                              (f', p2) \<Rightarrow> parseArgs_while f' p2)
                 else (Inr f, p1)) of
             (Inl e, p3) \<Rightarrow> (Inl e, p3)
           | (Inr f', p3) \<Rightarrow>
               (case accept T_CloseParen THROW p3 of
                  (Inl e, p4) \<Rightarrow> (Inl e, p4)
                | (Inr c, p4) \<Rightarrow> (Inr f', p4))))"

definition parseLenStatement :: "Parser \<Rightarrow> Statement result option" where
  "parseLenStatement p =
     andThen (accept T_OpenParen THROW p) (\<lambda>_ p1.
     andThen (accept I_Identifier THROW p1) (\<lambda>_ p2.
     andThen (block_findVariable (getString (current p2)) p2) (\<lambda>var p3.
     andThen (accept T_CloseParen THROW p3) (\<lambda>_ p4.
     ret (LenStatement var) p4))))"

subsection \<open>Expressions\<close>

text \<open>The \<^verbatim>\<open>switch\<close> of \<^verbatim>\<open>parseRelExpr\<close> and the tests of the additive and multiplicative loops.\<close>

definition relOp :: "TokenType \<Rightarrow> RelOp option" where
  "relOp t =
     (if t = T_Equal2 then Some Equal
      else if t = T_NotEqual then Some NotEqual
      else if t = T_LessThan then Some LessThan
      else if t = T_LeEqThan then Some LessEqual
      else if t = T_GreaterThan then Some GreaterThan
      else if t = T_GrEqThan then Some GreaterEqual
      else None)"

definition addOp :: "TokenType \<Rightarrow> AddOp option" where
  "addOp t = (if t = T_Plus then Some Plus else if t = T_Minus then Some Minus else None)"

definition mulOp :: "TokenType \<Rightarrow> MulOp option" where
  "mulOp t = (if t = T_Asterisk then Some Multiply else if t = T_Slash then Some Divide else None)"

text \<open>
  The expression parsers call each other in a cycle that closes at \<^verbatim>\<open>parseOrExpr\<close> (from a
  parenthesis, an index, a slice bound and a call argument). Each one is written over the
  parameter \<open>orExpr\<close>, which stands for that recursive call of \<^verbatim>\<open>parseOrExpr()\<close>, and over
  the fuel \<open>m\<close> of its loops; \<open>parseOrExpr\<close> below closes the cycle.
\<close>

fun parseFunCall_while_of ::
  "(Parser \<Rightarrow> Expression result option) \<Rightarrow> nat \<Rightarrow> Expression list \<Rightarrow> Parser
     \<Rightarrow> (Expression list) result option" where
  "parseFunCall_while_of orExpr 0 args p = None"
| "parseFunCall_while_of orExpr (Suc m) args p =
     andThen (accept T_CloseParen NOTHROW p) (\<lambda>closed p1.
       if \<not> closed then
         andThen (accept T_Comma THROW p1) (\<lambda>_ p2.
         bind (orExpr p2) (\<lambda>e p3. parseFunCall_while_of orExpr m (args @ [e]) p3))
       else ret args p1)"

definition parseFunCall_args_of ::
  "(Parser \<Rightarrow> Expression result option) \<Rightarrow> nat \<Rightarrow> Parser \<Rightarrow> (Expression list) result option" where
  "parseFunCall_args_of orExpr m p =
     andThen (accept T_CloseParen NOTHROW p) (\<lambda>closed p1.
       if \<not> closed then bind (orExpr p1) (\<lambda>e p2. parseFunCall_while_of orExpr m [e] p2)
       else ret [] p1)"

definition parseFunCall_of ::
  "(Parser \<Rightarrow> Expression result option) \<Rightarrow> nat \<Rightarrow> string \<Rightarrow> Parser \<Rightarrow> Statement result option" where
  "parseFunCall_of orExpr m name p =
     (if \<not> existFunction (program p) name then throw (UndefinedFunction name) p
      else case findFunction (program p) name of
        None \<Rightarrow> throw (UndefinedFunction name) p
      | Some functionDef \<Rightarrow>
          bind (parseFunCall_args_of orExpr m p) (\<lambda>args p1.
            if FunctionDefinition_size functionDef \<noteq> length args then throw ArityMismatch p1
            else ret (FunctionCall name args) p1))"

definition parseBaseMathExpr_of ::
  "(Parser \<Rightarrow> Expression result option) \<Rightarrow> nat \<Rightarrow> Parser \<Rightarrow> Expression result option" where
  "parseBaseMathExpr_of orExpr m p =
     andThen (accept T_Minus NOTHROW p) (\<lambda>unary p1.
     andThen (accept L_Numeric NOTHROW p1) (\<lambda>isNumeric p2.
     if isNumeric then
       ret (BaseMathExpr_Var (Var VarType_INT [getInteger (current p2)]) unary) p2
     else
     andThen (accept1 T_OpenBracket p2) (\<lambda>isBracket p3.
     if isBracket then
       andThen (parseVectorLiteral p3) (\<lambda>v p4. ret (BaseMathExpr_Var v unary) p4)
     else
     andThen (accept1 T_OpenParen p3) (\<lambda>isParen p4.
     if isParen then
       bind (orExpr p4) (\<lambda>e p5.
       andThen (accept T_CloseParen THROW p5) (\<lambda>_ p6.
       ret (BaseMathExpr_Expr e unary) p6))
     else
     andThen (accept1 K_Len p4) (\<lambda>isLen p5.
     if isLen then
       bind (parseLenStatement p5) (\<lambda>s p6. ret (BaseMathExpr_Stmt s unary) p6)
     else
     andThen (accept1 I_Identifier p5) (\<lambda>isIdentifier p6.
     if isIdentifier then
       (let tk = current p6 in
        andThen (accept1 T_OpenParen p6) (\<lambda>isCall p7.
        if isCall then
          bind (parseFunCall_of orExpr m (getString tk) p7) (\<lambda>s p8.
          ret (BaseMathExpr_Stmt s unary) p8)
        else
          andThen (existVariable p7) (\<lambda>_ p8.
          andThen (accept T_OpenBracket NOTHROW p8) (\<lambda>isIndex p9.
          if isIndex then
            bind (orExpr p9) (\<lambda>e1 p10.
            let indexExpr = OrExpr [e1] in
            andThen (accept T_Colon NOTHROW p10) (\<lambda>isSlice p11.
            if isSlice then
              bind (orExpr p11) (\<lambda>e2 p12.
              let indexExprSlice = OrExpr [e2] in
              andThen (block_findVariable (getString tk) p12) (\<lambda>v p13.
              andThen (accept T_CloseBracket THROW p13) (\<lambda>_ p14.
              ret (BaseMathExpr_Slice v indexExpr indexExprSlice unary) p14)))
            else
              andThen (block_findVariable (getString tk) p11) (\<lambda>v p12.
              andThen (accept T_CloseBracket THROW p12) (\<lambda>_ p13.
              ret (BaseMathExpr_Index v indexExpr unary) p13))))
          else
            andThen (block_findVariable (getString (current p9)) p9) (\<lambda>v p10.
            ret (BaseMathExpr_Ref v unary) p10)))))
     else throw UnrecognizedExpression p6))))))"

fun parseMultExpr_while_of ::
  "(Parser \<Rightarrow> Expression result option) \<Rightarrow> nat \<Rightarrow> Expression \<Rightarrow> (MulOp \<times> Expression) list
     \<Rightarrow> Parser \<Rightarrow> Expression result option" where
  "parseMultExpr_while_of orExpr 0 e0 es p = None"
| "parseMultExpr_while_of orExpr (Suc m) e0 es p =
     (case mulOp (getType (nextToken p)) of
        None \<Rightarrow> ret (MultiExpr e0 es) p
      | Some op \<Rightarrow>
          bind (parseBaseMathExpr_of orExpr m (move p)) (\<lambda>e p1.
          parseMultExpr_while_of orExpr m e0 (es @ [(op, e)]) p1))"

definition parseMultExpr_of ::
  "(Parser \<Rightarrow> Expression result option) \<Rightarrow> nat \<Rightarrow> Parser \<Rightarrow> Expression result option" where
  "parseMultExpr_of orExpr m p =
     bind (parseBaseMathExpr_of orExpr m p) (\<lambda>e p1. parseMultExpr_while_of orExpr m e [] p1)"

fun parseAddExpr_while_of ::
  "(Parser \<Rightarrow> Expression result option) \<Rightarrow> nat \<Rightarrow> Expression \<Rightarrow> (AddOp \<times> Expression) list
     \<Rightarrow> Parser \<Rightarrow> Expression result option" where
  "parseAddExpr_while_of orExpr 0 e0 es p = None"
| "parseAddExpr_while_of orExpr (Suc m) e0 es p =
     (case addOp (getType (nextToken p)) of
        None \<Rightarrow> ret (AddExpr e0 es) p
      | Some op \<Rightarrow>
          bind (parseMultExpr_of orExpr m (move p)) (\<lambda>e p1.
          parseAddExpr_while_of orExpr m e0 (es @ [(op, e)]) p1))"

definition parseAddExpr_of ::
  "(Parser \<Rightarrow> Expression result option) \<Rightarrow> nat \<Rightarrow> Parser \<Rightarrow> Expression result option" where
  "parseAddExpr_of orExpr m p =
     bind (parseMultExpr_of orExpr m p) (\<lambda>e p1. parseAddExpr_while_of orExpr m e [] p1)"

definition parseBaseLogicExpr_of ::
  "(Parser \<Rightarrow> Expression result option) \<Rightarrow> nat \<Rightarrow> Parser \<Rightarrow> Expression result option" where
  "parseBaseLogicExpr_of orExpr m p =
     andThen (accept1 T_Exclamation p) (\<lambda>negated p1.
       bind (parseAddExpr_of orExpr m p1) (\<lambda>e p2. ret (BaseLogicExpr e negated) p2))"

definition parseRelExpr_of ::
  "(Parser \<Rightarrow> Expression result option) \<Rightarrow> nat \<Rightarrow> Parser \<Rightarrow> Expression result option" where
  "parseRelExpr_of orExpr m p =
     bind (parseBaseLogicExpr_of orExpr m p) (\<lambda>l p1.
       case relOp (getType (nextToken p1)) of
         None \<Rightarrow> ret (RelationExpr l None) p1
       | Some op \<Rightarrow>
           bind (parseBaseLogicExpr_of orExpr m (move p1)) (\<lambda>r p2.
           ret (RelationExpr l (Some (op, r))) p2))"

fun parseAndExpr_while_of ::
  "(Parser \<Rightarrow> Expression result option) \<Rightarrow> nat \<Rightarrow> Expression list \<Rightarrow> Parser
     \<Rightarrow> Expression result option" where
  "parseAndExpr_while_of orExpr 0 es p = None"
| "parseAndExpr_while_of orExpr (Suc m) es p =
     andThen (accept T_Ampersand2 NOTHROW p) (\<lambda>more p1.
       if more then
         bind (parseRelExpr_of orExpr m p1) (\<lambda>e p2. parseAndExpr_while_of orExpr m (es @ [e]) p2)
       else ret (AndExpr es) p1)"

definition parseAndExpr_of ::
  "(Parser \<Rightarrow> Expression result option) \<Rightarrow> nat \<Rightarrow> Parser \<Rightarrow> Expression result option" where
  "parseAndExpr_of orExpr m p =
     bind (parseRelExpr_of orExpr m p) (\<lambda>e p1. parseAndExpr_while_of orExpr m [e] p1)"

fun parseOrExpr_while_of ::
  "(Parser \<Rightarrow> Expression result option) \<Rightarrow> nat \<Rightarrow> Expression list \<Rightarrow> Parser
     \<Rightarrow> Expression result option" where
  "parseOrExpr_while_of orExpr 0 es p = None"
| "parseOrExpr_while_of orExpr (Suc m) es p =
     andThen (accept T_Bar2 NOTHROW p) (\<lambda>more p1.
       if more then
         bind (parseAndExpr_of orExpr m p1) (\<lambda>e p2. parseOrExpr_while_of orExpr m (es @ [e]) p2)
       else ret (OrExpr es) p1)"

definition parseOrExpr_of ::
  "(Parser \<Rightarrow> Expression result option) \<Rightarrow> nat \<Rightarrow> Parser \<Rightarrow> Expression result option" where
  "parseOrExpr_of orExpr m p =
     bind (parseAndExpr_of orExpr m p) (\<lambda>e p1. parseOrExpr_while_of orExpr m [e] p1)"

text \<open>
  The cycle closed: with fuel \<open>Suc n\<close>, \<^verbatim>\<open>parseOrExpr\<close> runs its body with \<open>n\<close> for the loops
  and for every nested \<^verbatim>\<open>parseOrExpr()\<close>.
\<close>

fun parseOrExpr :: "nat \<Rightarrow> Parser \<Rightarrow> Expression result option" where
  "parseOrExpr 0 p = None"
| "parseOrExpr (Suc n) p = parseOrExpr_of (parseOrExpr n) n p"

definition parseAndExpr :: "nat \<Rightarrow> Parser \<Rightarrow> Expression result option" where
  "parseAndExpr n p = parseAndExpr_of (parseOrExpr n) n p"

definition parseRelExpr :: "nat \<Rightarrow> Parser \<Rightarrow> Expression result option" where
  "parseRelExpr n p = parseRelExpr_of (parseOrExpr n) n p"

definition parseBaseLogicExpr :: "nat \<Rightarrow> Parser \<Rightarrow> Expression result option" where
  "parseBaseLogicExpr n p = parseBaseLogicExpr_of (parseOrExpr n) n p"

definition parseAddExpr :: "nat \<Rightarrow> Parser \<Rightarrow> Expression result option" where
  "parseAddExpr n p = parseAddExpr_of (parseOrExpr n) n p"

definition parseMultExpr :: "nat \<Rightarrow> Parser \<Rightarrow> Expression result option" where
  "parseMultExpr n p = parseMultExpr_of (parseOrExpr n) n p"

definition parseBaseMathExpr :: "nat \<Rightarrow> Parser \<Rightarrow> Expression result option" where
  "parseBaseMathExpr n p = parseBaseMathExpr_of (parseOrExpr n) n p"

definition parseFunCall_args :: "nat \<Rightarrow> Parser \<Rightarrow> (Expression list) result option" where
  "parseFunCall_args n p = parseFunCall_args_of (parseOrExpr n) n p"

definition parseFunCall :: "nat \<Rightarrow> string \<Rightarrow> Parser \<Rightarrow> Statement result option" where
  "parseFunCall n name p = parseFunCall_of (parseOrExpr n) n name p"

subsection \<open>Statements\<close>

definition parseInitStatement :: "nat \<Rightarrow> Parser \<Rightarrow> Statement result option" where
  "parseInitStatement n p =
     andThen (accept I_Identifier THROW p) (\<lambda>_ p1.
     let id = getString (current p1) in
     andThen (block_existVariable id p1) (\<lambda>found p2.
     if found then throw DuplicateVariable p2
     else
     andThen (block_addVariable id Var_default p2) (\<lambda>_ p3.
     andThen (accept T_Equal NOTHROW p3) (\<lambda>hasInit p4.
     bind (if hasInit then parseOrExpr n p4
           else ret (BaseMathExpr_Var Var_default False) p4) (\<lambda>expr p5.
     andThen (accept T_Semicolon THROW p5) (\<lambda>_ p6.
     andThen (block_findVariable id p6) (\<lambda>v p7.
     ret (AssignStatement v expr) p7)))))))"

definition parseAssignStatement :: "nat \<Rightarrow> VarRef \<Rightarrow> Parser \<Rightarrow> Statement result option" where
  "parseAssignStatement n variable p =
     andThen (accept T_OpenBracket NOTHROW p) (\<lambda>isIndex p1.
     bind (if isIndex then
             bind (parseOrExpr n p1) (\<lambda>e p2.
             andThen (accept T_CloseBracket THROW p2) (\<lambda>_ p3.
             ret (True, Some (OrExpr [e])) p3))
           else ret (bracket_uninit p1, None) p1) (\<lambda>(bracket, indexExpr) p4.
     andThen (accept T_Equal THROW p4) (\<lambda>_ p5.
     bind (parseOrExpr n p5) (\<lambda>e p6.
     let logicExpr = OrExpr [e] in
     andThen (accept T_Semicolon THROW p6) (\<lambda>_ p7.
     if bracket then ret (AssignStatement_Index variable indexExpr logicExpr) p7
     else ret (AssignStatement variable logicExpr) p7)))))"

definition parseAssignOrFunCall :: "nat \<Rightarrow> Parser \<Rightarrow> Statement result option" where
  "parseAssignOrFunCall n p =
     (let tk = current p in
      andThen (accept T_OpenParen NOTHROW p) (\<lambda>isCall p1.
      if isCall then
        bind (parseFunCall n (getString tk) p1) (\<lambda>statement p2.
        andThen (accept T_Semicolon THROW p2) (\<lambda>_ p3.
        ret statement p3))
      else
        andThen (existVariable p1) (\<lambda>_ p2.
        andThen (block_findVariable (getString (current p2)) p2) (\<lambda>variable p3.
        parseAssignStatement n variable p3))))"

definition parseReturnStatement :: "nat \<Rightarrow> Parser \<Rightarrow> Statement result option" where
  "parseReturnStatement n p =
     bind (parseOrExpr n p) (\<lambda>e p1.
     andThen (accept T_Semicolon THROW p1) (\<lambda>_ p2.
     ret (ReturnStatement e) p2))"

definition parseAppendStatement :: "Parser \<Rightarrow> Statement result option" where
  "parseAppendStatement p =
     andThen (accept T_OpenParen THROW p) (\<lambda>_ p1.
     andThen (accept I_Identifier THROW p1) (\<lambda>_ p2.
     andThen (block_findVariable (getString (current p2)) p2) (\<lambda>fromVar p3.
     andThen (accept T_Comma THROW p3) (\<lambda>_ p4.
     andThen (accept I_Identifier THROW p4) (\<lambda>_ p5.
     andThen (block_findVariable (getString (current p5)) p5) (\<lambda>toVar p6.
     andThen (accept T_CloseParen THROW p6) (\<lambda>_ p7.
     andThen (accept T_Semicolon THROW p7) (\<lambda>_ p8.
     ret (AppendStatement fromVar toVar) p8))))))))"

text \<open>
  \<^verbatim>\<open>parseStmtBlock\<close>, \<^verbatim>\<open>parseIfStatement\<close> and \<^verbatim>\<open>parseWhileStatement\<close> call each other; as for
  the expressions, the parameter \<open>stmtBlock\<close> stands for the recursive call of
  \<^verbatim>\<open>parseStmtBlock()\<close>.
\<close>

definition parseIfStatement_of ::
  "(nat \<Rightarrow> Parser \<Rightarrow> unit result option) \<Rightarrow> nat \<Rightarrow> Parser \<Rightarrow> Statement result option" where
  "parseIfStatement_of stmtBlock m p =
     andThen (accept T_OpenParen THROW p) (\<lambda>_ p1.
     bind (parseOrExpr m p1) (\<lambda>expression p2.
     andThen (accept T_CloseParen THROW p2) (\<lambda>_ p3.
     andThen (accept T_OpenBrace THROW p3) (\<lambda>_ p4.
     case new_BlockStatement (block p4) p4 of (ifBlock, p5) \<Rightarrow>
     bind (stmtBlock ifBlock p5) (\<lambda>_ p6.
     andThen (accept K_Else NOTHROW p6) (\<lambda>hasElse p7.
     if hasElse then
       andThen (accept T_OpenBrace THROW p7) (\<lambda>_ p8.
       case new_BlockStatement (block p8) p8 of (elseBlock, p9) \<Rightarrow>
       bind (stmtBlock elseBlock p9) (\<lambda>_ p10.
       ret (IfStatement expression ifBlock (Some elseBlock)) p10))
     else ret (IfStatement expression ifBlock None) p7))))))"

definition parseWhileStatement_of ::
  "(nat \<Rightarrow> Parser \<Rightarrow> unit result option) \<Rightarrow> nat \<Rightarrow> Parser \<Rightarrow> Statement result option" where
  "parseWhileStatement_of stmtBlock m p =
     andThen (accept T_OpenParen THROW p) (\<lambda>_ p1.
     bind (parseOrExpr m p1) (\<lambda>expression p2.
     andThen (accept T_CloseParen THROW p2) (\<lambda>_ p3.
     andThen (accept T_OpenBrace THROW p3) (\<lambda>_ p4.
     case new_BlockStatement (block p4) p4 of (whileBlock, p5) \<Rightarrow>
     bind (stmtBlock whileBlock p5) (\<lambda>_ p6.
     ret (WhileStatement expression whileBlock) p6)))))"

text \<open>
  One statement of the loop of \<^verbatim>\<open>parseStmtBlock\<close>: the \<^verbatim>\<open>switch\<close> on the token just
  consumed, each case adding its statement to the block under the cursor.
\<close>

definition parseStmtBlock_switch ::
  "(nat \<Rightarrow> Parser \<Rightarrow> unit result option) \<Rightarrow> nat \<Rightarrow> TokenType \<Rightarrow> Parser \<Rightarrow> unit result option" where
  "parseStmtBlock_switch stmtBlock m tokenType p =
     (if tokenType = K_If then
        bind (parseIfStatement_of stmtBlock m p) block_addStatement
      else if tokenType = K_While then
        bind (parseWhileStatement_of stmtBlock m p) block_addStatement
      else if tokenType = I_Identifier then
        bind (parseAssignOrFunCall m p) block_addStatement
      else if tokenType = K_Var then
        bind (parseInitStatement m p) block_addStatement
      else if tokenType = K_Return then
        bind (parseReturnStatement m p) block_addStatement
      else if tokenType = K_Continue then
        bind (block_addStatement (ReturnStatement_Kind Continue) p) (\<lambda>_ p1.
        andThen (accept T_Semicolon THROW p1) (\<lambda>_ p2. ret () p2))
      else if tokenType = K_Break then
        bind (block_addStatement (ReturnStatement_Kind Break) p) (\<lambda>_ p1.
        andThen (accept T_Semicolon THROW p1) (\<lambda>_ p2. ret () p2))
      else if tokenType = K_Append then
        bind (parseAppendStatement p) block_addStatement
      else if tokenType = T_OpenBrace then
        (case new_BlockStatement (block p) p of (newNewBlock, p1) \<Rightarrow>
         bind (stmtBlock newNewBlock p1) (\<lambda>_ p2.
         block_addStatement (BlockStatement_Ref newNewBlock) p2))
      else throw InvalidBlock p)"

fun parseStmtBlock_while_of ::
  "(nat \<Rightarrow> Parser \<Rightarrow> unit result option) \<Rightarrow> nat \<Rightarrow> nat \<Rightarrow> Parser \<Rightarrow> unit result option" where
  "parseStmtBlock_while_of stmtBlock 0 newBlock p = None"
| "parseStmtBlock_while_of stmtBlock (Suc m) newBlock p =
     andThen (accept T_CloseBrace NOTHROW p) (\<lambda>closed p1.
       if \<not> closed then
         (let p2 = move p1; tokenType = getType (current p2) in
          bind (parseStmtBlock_switch stmtBlock m tokenType p2) (\<lambda>_ p3.
          parseStmtBlock_while_of stmtBlock m newBlock p3))
       else ret () (p1\<lparr>block := parent (blocks p1 ! newBlock)\<rparr>))"

fun parseStmtBlock :: "nat \<Rightarrow> nat \<Rightarrow> Parser \<Rightarrow> unit result option" where
  "parseStmtBlock 0 newBlock p = None"
| "parseStmtBlock (Suc n) newBlock p =
     parseStmtBlock_while_of (parseStmtBlock n) n newBlock (p\<lparr>block := Some newBlock\<rparr>)"

definition parseIfStatement :: "nat \<Rightarrow> Parser \<Rightarrow> Statement result option" where
  "parseIfStatement n p = parseIfStatement_of (parseStmtBlock n) n p"

definition parseWhileStatement :: "nat \<Rightarrow> Parser \<Rightarrow> Statement result option" where
  "parseWhileStatement n p = parseWhileStatement_of (parseStmtBlock n) n p"

subsection \<open>Functions and the program\<close>

definition parseFunction :: "nat \<Rightarrow> Parser \<Rightarrow> unit result option" where
  "parseFunction n p =
     andThen (accept I_Identifier THROW p) (\<lambda>_ p1.
     case new_FunctionDefinition (getString (current p1)) p1 of (fun0, p2) \<Rightarrow>
     andThen (accept T_OpenParen THROW p2) (\<lambda>_ p3.
     andThen (parseArgs fun0 p3) (\<lambda>func p4.
     let p5 = addFunction func p4 in
     andThen (accept T_OpenBrace THROW p5) (\<lambda>_ p6.
     parseStmtBlock n (fblock func) p6))))"

fun parseProgram :: "nat \<Rightarrow> Parser \<Rightarrow> unit result option" where
  "parseProgram 0 p = None"
| "parseProgram (Suc n) p =
     (if getType (getToken p) \<noteq> T_EOF then
        andThen (accept K_Fun NOTHROW p) (\<lambda>isFun p1.
          if isFun then bind (parseFunction n p1) (\<lambda>_ p2. parseProgram n p2)
          else parseProgram n p1)
      else ret () p)"

text \<open>A parser freshly given a token stream: no block, no function, nothing consumed.\<close>

definition Parser_init :: "Token list \<Rightarrow> bool \<Rightarrow> Parser" where
  "Parser_init ts g =
     \<lparr>scr = ts, current = Token T_EOF [] 0, block = None, blocks = [], program = [],
      bracket_uninit = g\<rparr>"

subsection \<open>Token streams and states of the examples\<close>

text \<open>Tokens as the examples write them: punctuation and keywords, identifiers, numbers.\<close>

definition tk :: "TokenType \<Rightarrow> Token" where
  "tk t = Token t [] 0"

definition ident :: "string \<Rightarrow> Token" where
  "ident s = Token I_Identifier s 0"

definition num :: "int \<Rightarrow> Token" where
  "num i = Token L_Numeric [] i"

text \<open>
  A parser in the middle of a nested block: block 1 is current, its parent is block 0, and
  \<^verbatim>\<open>x\<close> is declared in block 0 only. \<open>c\<close> is the token consumed last, \<open>ts\<close> what follows.
\<close>

definition in_nested :: "Token \<Rightarrow> Token list \<Rightarrow> Parser" where
  "in_nested c ts =
     \<lparr>scr = ts, current = c, block = Some 1,
      blocks = [\<lparr>parent = None, variables = [(''x'', Var_default)], statements = []\<rparr>,
                \<lparr>parent = Some 0, variables = [], statements = []\<rparr>],
      program = [], bracket_uninit = False\<rparr>"

text \<open>
  A parser inside the top-level block 0 of some function, where the names \<open>names\<close> are
  declared and the function table is \<open>prog\<close>; and two shorthands for syntax trees: a
  number, and the chain of nodes the parser wraps around a lone primary expression.
\<close>

definition in_scope :: "string list \<Rightarrow> Program \<Rightarrow> Token list \<Rightarrow> Parser" where
  "in_scope names prog ts =
     \<lparr>scr = ts, current = tk T_EOF, block = Some 0,
      blocks = [\<lparr>parent = None, variables = map (\<lambda>x. (x, Var_default)) names,
                 statements = []\<rparr>],
      program = prog, bracket_uninit = False\<rparr>"

definition lit :: "int \<Rightarrow> Expression" where
  "lit i = BaseMathExpr_Var (Var VarType_INT [i]) False"

definition OrExpr_of_primary :: "Expression \<Rightarrow> Expression" where
  "OrExpr_of_primary e =
     OrExpr [AndExpr [RelationExpr (BaseLogicExpr (AddExpr (MultiExpr e []) []) False) None]]"

text \<open>
  The tokens of a function header, \<^verbatim>\<open>f ( x , y ) {\<close>: what follows the keyword \<^verbatim>\<open>fun\<close> up
  to the brace that opens the body.
\<close>

definition param_tokens :: "string list \<Rightarrow> Token list" where
  "param_tokens xs =
     (case xs of [] \<Rightarrow> [] | x # ys \<Rightarrow> ident x # concat (map (\<lambda>y. [tk T_Comma, ident y]) ys))"

definition header_tokens :: "string \<Rightarrow> string list \<Rightarrow> Token list" where
  "header_tokens f xs =
     ident f # tk T_OpenParen # param_tokens xs @ [tk T_CloseParen, tk T_OpenBrace]"

text \<open>
  The tokens of an argument list of numbers, \<^verbatim>\<open>1 , 2 , 3\<close>: what stands between the
  parentheses of a call.
\<close>

definition arg_tokens :: "int list \<Rightarrow> Token list" where
  "arg_tokens ns =
     (case ns of [] \<Rightarrow> [] | i # js \<Rightarrow> num i # concat (map (\<lambda>j. [tk T_Comma, num j]) js))"

text \<open>
  What it means that the tokens at \<open>p\<close> supply the argument expressions \<open>es\<close> of a call, up
  to and including the closing parenthesis, and leave the parser in \<open>p'\<close>: \<^verbatim>\<open>parseOrExpr\<close>
  reads the first expression at \<open>p\<close>; a comma follows it when more arguments come, and the
  rest is supplied after the comma; the parenthesis follows the last one. Every argument is
  whatever expression \<^verbatim>\<open>parseOrExpr\<close> reads there, of any shape.
\<close>

fun supplies_arguments :: "nat \<Rightarrow> Parser \<Rightarrow> Expression list \<Rightarrow> Parser \<Rightarrow> bool" where
  "supplies_arguments n p [] p' = False"
| "supplies_arguments n p (e # es) p' =
     (case parseOrExpr n p of
        Some (Inr e', q) \<Rightarrow>
          e' = e \<and>
          (if es = [] then getType (getToken q) = T_CloseParen \<and> p' = move q
           else getType (getToken q) = T_Comma \<and> supplies_arguments n (move q) es p')
      | _ \<Rightarrow> False)"

section \<open>Invariants of a parse\<close>

text \<open>
  What a call leaves untouched, whatever its outcome. \<open>sc\<close> is everything of the parser
  but the token cursor. An expression parser satisfies \<open>good\<close>: it moves the token cursor
  only, and when it fails with \<open>UndefinedFunction h\<close> then \<open>h\<close> is not in the function
  table. A statement parser satisfies \<open>goodS\<close>: the arena only grows (\<open>ext\<close>: the table, the
  blocks there were and their parent links stay), and when it returns, the current-block
  cursor is where it was. \<open>goodB b\<close> is the same for \<^verbatim>\<open>parseStmtBlock\<close> on block \<open>b\<close>, which
  returns with the cursor on the parent of \<open>b\<close>.
\<close>

definition sc :: "Parser \<Rightarrow> nat option \<times> BlockStatement list \<times> Program \<times> bool" where
  "sc p = (block p, blocks p, program p, bracket_uninit p)"

definition inv_expr :: "Parser \<Rightarrow> (error + 'a) \<Rightarrow> Parser \<Rightarrow> bool" where
  "inv_expr p res p' \<longleftrightarrow>
     sc p' = sc p \<and> (\<forall>h. res = Inl (UndefinedFunction h) \<longrightarrow> \<not> existFunction (program p) h)"

definition good :: "Parser \<Rightarrow> 'a result option \<Rightarrow> bool" where
  "good p r \<longleftrightarrow> (\<forall>res p'. r = Some (res, p') \<longrightarrow> inv_expr p res p')"

definition tot :: "Parser \<Rightarrow> 'a result \<Rightarrow> bool" where
  "tot p r \<longleftrightarrow> sc (snd r) = sc p \<and> (\<forall>h. fst r \<noteq> Inl (UndefinedFunction h))"

definition ext :: "Parser \<Rightarrow> Parser \<Rightarrow> bool" where
  "ext p p' \<longleftrightarrow>
     program p' = program p \<and> bracket_uninit p' = bracket_uninit p \<and>
     length (blocks p) \<le> length (blocks p') \<and>
     (\<forall>i<length (blocks p). parent (blocks p' ! i) = parent (blocks p ! i))"

definition inv_stmt :: "Parser \<Rightarrow> (error + 'a) \<Rightarrow> Parser \<Rightarrow> bool" where
  "inv_stmt p res p' \<longleftrightarrow>
     ext p p' \<and> (\<forall>h. res = Inl (UndefinedFunction h) \<longrightarrow> \<not> existFunction (program p) h) \<and>
     ((\<exists>x. res = Inr x) \<longrightarrow> block p' = block p)"

definition goodS :: "Parser \<Rightarrow> 'a result option \<Rightarrow> bool" where
  "goodS p r \<longleftrightarrow> (\<forall>res p'. r = Some (res, p') \<longrightarrow> inv_stmt p res p')"

definition totS :: "Parser \<Rightarrow> 'a result \<Rightarrow> bool" where
  "totS p r \<longleftrightarrow>
     ext p (snd r) \<and> block (snd r) = block p \<and> (\<forall>h. fst r \<noteq> Inl (UndefinedFunction h))"

definition goodB :: "nat \<Rightarrow> Parser \<Rightarrow> 'a result option \<Rightarrow> bool" where
  "goodB b p r \<longleftrightarrow> (\<forall>res p'. r = Some (res, p') \<longrightarrow>
     ext p p' \<and> (\<forall>h. res = Inl (UndefinedFunction h) \<longrightarrow> \<not> existFunction (program p) h) \<and>
     ((\<exists>x. res = Inr x) \<and> b < length (blocks p) \<longrightarrow> block p' = parent (blocks p ! b)))"

lemma sc_move: "sc (move p) = sc p"
  by (simp add: sc_def move_def)

lemma tot_accept: "tot p (accept t d p)"
  by (simp add: tot_def accept_def sc_move)

lemma tot_accept1: "tot p (accept1 t p)"
  by (simp add: accept1_def tot_accept)

lemma tot_block_findVariable: "tot p (block_findVariable x p)"
  by (simp add: tot_def block_findVariable_def split: option.splits)

lemma tot_existVariable: "tot p (existVariable p)"
  by (simp add: tot_def existVariable_def block_existVariable_def split: option.splits)

lemma tot_case:
  assumes "tot p r" and "\<And>x p1. r = (Inr x, p1) \<Longrightarrow> sc p1 = sc p \<Longrightarrow> tot p1 (k x p1)"
  shows "tot p (case r of (Inl e, p1) \<Rightarrow> (Inl e, p1) | (Inr x, p1) \<Rightarrow> k x p1)"
proof (cases r)
  case (Pair r1 p1)
  with assms(1) have s: "sc p1 = sc p" and u: "\<And>h. r1 \<noteq> Inl (UndefinedFunction h)"
    by (auto simp: tot_def)
  show ?thesis
  proof (cases r1)
    case (Inl e)
    with Pair s u show ?thesis by (simp add: tot_def)
  next
    case (Inr x)
    with Pair assms(2)[OF _ s, of x] s show ?thesis by (simp add: tot_def)
  qed
qed

lemma tot_case_bool:
  "(b \<Longrightarrow> tot p x) \<Longrightarrow> (\<not> b \<Longrightarrow> tot p y) \<Longrightarrow> tot p (case b of True \<Rightarrow> x | False \<Rightarrow> y)"
  by (cases b) simp_all

lemma tot_Inr: "tot p (Inr x, p)"
  by (simp add: tot_def)

lemma tot_parseVectorLiteral_while: "tot p (parseVectorLiteral_while vs p)"
proof (induction vs p rule: parseVectorLiteral_while.induct)
  case (1 vs p)
  show ?case
    apply (subst parseVectorLiteral_while.simps)
    apply (rule tot_case[OF tot_accept])
    apply (rule tot_case_bool)
     apply (rule tot_case[OF tot_accept])
     apply (rule "1.IH"[OF sym refl _ sym refl])
       apply assumption
      apply blast
     apply assumption
    apply (rule tot_Inr)
    done
qed

lemma tot_parseVectorLiteral: "tot p (parseVectorLiteral p)"
  unfolding parseVectorLiteral_def
  by (intro tot_case tot_accept tot_parseVectorLiteral_while tot_Inr)

lemma good_ret: "good p (ret x p)"
  by (simp add: good_def ret_def inv_expr_def)

lemma good_throw:
  "(\<And>h. e = UndefinedFunction h \<Longrightarrow> \<not> existFunction (program p) h) \<Longrightarrow> good p (throw e p)"
  by (simp add: good_def throw_def inv_expr_def)

lemma good_None: "good p None"
  by (simp add: good_def)

lemma good_andThen:
  assumes "tot p r" and "\<And>x p1. r = (Inr x, p1) \<Longrightarrow> sc p1 = sc p \<Longrightarrow> good p1 (k x p1)"
  shows "good p (andThen r k)"
proof (cases r)
  case (Pair r1 p1)
  with assms(1) have s: "sc p1 = sc p" and u: "\<And>h. r1 \<noteq> Inl (UndefinedFunction h)"
    by (auto simp: tot_def)
  show ?thesis
  proof (cases r1)
    case (Inl e)
    with Pair s u show ?thesis by (auto simp: good_def andThen_def inv_expr_def)
  next
    case (Inr x)
    with Pair assms(2)[OF _ s, of x] s show ?thesis
      by (auto simp: good_def andThen_def inv_expr_def sc_def)
  qed
qed

lemma good_bind:
  assumes "good p r" and "\<And>x p1. r = Some (Inr x, p1) \<Longrightarrow> sc p1 = sc p \<Longrightarrow> good p1 (k x p1)"
  shows "good p (bind r k)"
proof (cases r)
  case None
  then show ?thesis by (simp add: good_def bind_def)
next
  case (Some a)
  obtain r1 p1 where a: "a = (r1, p1)" by (cases a)
  from assms(1) Some a have i: "inv_expr p r1 p1" by (simp add: good_def)
  then have s: "sc p1 = sc p" by (simp add: inv_expr_def)
  show ?thesis
  proof (cases r1)
    case (Inl e)
    with Some a i show ?thesis by (auto simp: good_def bind_def inv_expr_def)
  next
    case (Inr x)
    with Some a assms(2)[OF _ s, of x] s show ?thesis
      by (auto simp: good_def bind_def inv_expr_def sc_def)
  qed
qed

lemma good_if: "(c \<Longrightarrow> good p a) \<Longrightarrow> (\<not> c \<Longrightarrow> good p b) \<Longrightarrow> good p (if c then a else b)"
  by simp

lemma good_case_option:
  "(x = None \<Longrightarrow> good p a) \<Longrightarrow> (\<And>y. x = Some y \<Longrightarrow> good p (b y))
     \<Longrightarrow> good p (case x of None \<Rightarrow> a | Some y \<Rightarrow> b y)"
  by (cases x) simp_all

lemma good_parseLenStatement: "good p (parseLenStatement p)"
  unfolding parseLenStatement_def
  by (intro good_andThen good_ret tot_accept tot_block_findVariable)

lemma good_parseFunCall_while_of:
  "(\<And>q. good q (orExpr q)) \<Longrightarrow> good p (parseFunCall_while_of orExpr m args p)"
proof (induction m arbitrary: args p)
  case 0
  show ?case by (simp add: good_None)
next
  case (Suc m)
  show ?case
    unfolding parseFunCall_while_of.simps
    by (intro good_andThen good_bind good_if good_ret tot_accept Suc.prems Suc.IH)
qed

lemma good_parseFunCall_args_of:
  "(\<And>q. good q (orExpr q)) \<Longrightarrow> good p (parseFunCall_args_of orExpr m p)"
  unfolding parseFunCall_args_of_def
  by (intro good_andThen good_bind good_if good_ret tot_accept good_parseFunCall_while_of)

lemma good_parseFunCall_of:
  "(\<And>q. good q (orExpr q)) \<Longrightarrow> good p (parseFunCall_of orExpr m name p)"
  unfolding parseFunCall_of_def
  apply (intro good_if good_case_option good_bind good_ret good_parseFunCall_args_of)
     apply (rule good_throw, simp)
    apply (rule good_throw, simp add: existFunction_def findFunction_def)
   apply assumption
  apply (rule good_throw, simp)
  done

lemma good_throw_other:
  "(\<And>h. e \<noteq> UndefinedFunction h) \<Longrightarrow> good p (throw e p)"
  by (simp add: good_def throw_def inv_expr_def)

lemma good_move: "good (move p) r \<Longrightarrow> good p r"
  by (simp add: good_def inv_expr_def sc_def move_def)

lemma good_parseBaseMathExpr_of:
  "(\<And>q. good q (orExpr q)) \<Longrightarrow> good p (parseBaseMathExpr_of orExpr m p)"
  unfolding parseBaseMathExpr_of_def Let_def
  apply (intro good_andThen good_bind good_if good_ret tot_accept tot_accept1
      tot_parseVectorLiteral good_parseLenStatement good_parseFunCall_of
      tot_existVariable tot_block_findVariable)
      apply (assumption | (rule good_throw_other, simp only: error.distinct not_False_eq_True))+
  done

lemma good_parseMultExpr_while_of:
  "(\<And>q. good q (orExpr q)) \<Longrightarrow> good p (parseMultExpr_while_of orExpr m e0 es p)"
proof (induction m arbitrary: es p)
  case 0
  show ?case by (simp add: good_None)
next
  case (Suc m)
  show ?case
    unfolding parseMultExpr_while_of.simps
    apply (intro good_case_option good_bind good_ret Suc.prems Suc.IH)
    apply (rule good_move, rule good_parseBaseMathExpr_of, rule Suc.prems)
    done
qed

lemma good_parseMultExpr_of:
  "(\<And>q. good q (orExpr q)) \<Longrightarrow> good p (parseMultExpr_of orExpr m p)"
  unfolding parseMultExpr_of_def
  by (intro good_bind good_parseBaseMathExpr_of good_parseMultExpr_while_of)

lemma good_parseAddExpr_while_of:
  "(\<And>q. good q (orExpr q)) \<Longrightarrow> good p (parseAddExpr_while_of orExpr m e0 es p)"
proof (induction m arbitrary: es p)
  case 0
  show ?case by (simp add: good_None)
next
  case (Suc m)
  show ?case
    unfolding parseAddExpr_while_of.simps
    apply (intro good_case_option good_bind good_ret Suc.prems Suc.IH)
    apply (rule good_move, rule good_parseMultExpr_of, rule Suc.prems)
    done
qed

lemma good_parseAddExpr_of:
  "(\<And>q. good q (orExpr q)) \<Longrightarrow> good p (parseAddExpr_of orExpr m p)"
  unfolding parseAddExpr_of_def
  by (intro good_bind good_parseMultExpr_of good_parseAddExpr_while_of)

lemma good_parseBaseLogicExpr_of:
  "(\<And>q. good q (orExpr q)) \<Longrightarrow> good p (parseBaseLogicExpr_of orExpr m p)"
  unfolding parseBaseLogicExpr_of_def
  by (intro good_andThen good_bind good_ret tot_accept1 good_parseAddExpr_of)

lemma good_parseRelExpr_of:
  "(\<And>q. good q (orExpr q)) \<Longrightarrow> good p (parseRelExpr_of orExpr m p)"
  unfolding parseRelExpr_of_def
  apply (intro good_bind good_case_option good_ret good_parseBaseLogicExpr_of)
    apply assumption
   apply (rule good_move, rule good_parseBaseLogicExpr_of, assumption)
  done

lemma good_parseAndExpr_while_of:
  "(\<And>q. good q (orExpr q)) \<Longrightarrow> good p (parseAndExpr_while_of orExpr m es p)"
proof (induction m arbitrary: es p)
  case 0
  show ?case by (simp add: good_None)
next
  case (Suc m)
  show ?case
    unfolding parseAndExpr_while_of.simps
    by (intro good_andThen good_if good_bind good_ret tot_accept good_parseRelExpr_of
        Suc.prems Suc.IH)
qed

lemma good_parseAndExpr_of:
  "(\<And>q. good q (orExpr q)) \<Longrightarrow> good p (parseAndExpr_of orExpr m p)"
  unfolding parseAndExpr_of_def
  by (intro good_bind good_parseRelExpr_of good_parseAndExpr_while_of)

lemma good_parseOrExpr_while_of:
  "(\<And>q. good q (orExpr q)) \<Longrightarrow> good p (parseOrExpr_while_of orExpr m es p)"
proof (induction m arbitrary: es p)
  case 0
  show ?case by (simp add: good_None)
next
  case (Suc m)
  show ?case
    unfolding parseOrExpr_while_of.simps
    by (intro good_andThen good_if good_bind good_ret tot_accept good_parseAndExpr_of
        Suc.prems Suc.IH)
qed

lemma good_parseOrExpr_of:
  "(\<And>q. good q (orExpr q)) \<Longrightarrow> good p (parseOrExpr_of orExpr m p)"
  unfolding parseOrExpr_of_def
  by (intro good_bind good_parseAndExpr_of good_parseOrExpr_while_of)

lemma good_parseOrExpr: "good p (parseOrExpr n p)"
proof (induction n arbitrary: p)
  case 0
  show ?case by (simp add: good_None)
next
  case (Suc n)
  show ?case
    unfolding parseOrExpr.simps
    by (rule good_parseOrExpr_of) (rule Suc.IH)
qed

lemma good_parseFunCall: "good p (parseFunCall n name p)"
  unfolding parseFunCall_def by (rule good_parseFunCall_of) (rule good_parseOrExpr)

lemma ext_refl: "ext p p"
  by (simp add: ext_def)

lemma ext_trans: "ext p q \<Longrightarrow> ext q r \<Longrightarrow> ext p r"
  by (auto simp: ext_def)

lemma ext_sc: "sc p' = sc p \<Longrightarrow> ext p p'"
  by (simp add: ext_def sc_def)

lemma ext_program: "ext p p' \<Longrightarrow> program p' = program p"
  by (simp add: ext_def)

lemma totS_tot: "tot p r \<Longrightarrow> totS p r"
  by (simp add: tot_def totS_def ext_def sc_def)

lemma goodS_good: "good p r \<Longrightarrow> goodS p r"
  by (simp add: good_def goodS_def inv_expr_def inv_stmt_def ext_def sc_def)

lemma tot_block_existVariable: "tot p (block_existVariable x p)"
  by (simp add: tot_def block_existVariable_def split: option.splits)

lemma nth_update_parent:
  "parent y = parent (bs ! b) \<Longrightarrow> parent (bs[b := y] ! i) = parent (bs ! i)"
  by (cases "i = b"; cases "b < length bs"; simp add: list_update_beyond)

lemma ext_addVariable: "ext p (p\<lparr>blocks := BlockStatement_addVariable b x v (blocks p)\<rparr>)"
  by (simp add: ext_def BlockStatement_addVariable_def nth_update_parent)

lemma ext_addStatement: "ext p (p\<lparr>blocks := BlockStatement_addStatement b s (blocks p)\<rparr>)"
  by (simp add: ext_def BlockStatement_addStatement_def nth_update_parent)

lemma totS_block_addVariable: "totS p (block_addVariable x v p)"
  by (simp add: totS_def block_addVariable_def ext_refl ext_addVariable split: option.splits)

lemma goodS_block_addStatement: "goodS p (block_addStatement s p)"
  by (simp add: goodS_def inv_stmt_def block_addStatement_def ext_refl ext_addStatement
      split: option.splits)

lemma goodS_ret: "goodS p (ret x p)"
  by (simp add: goodS_def ret_def inv_stmt_def ext_refl)

lemma goodS_throw_other: "(\<And>h. e \<noteq> UndefinedFunction h) \<Longrightarrow> goodS p (throw e p)"
  by (simp add: goodS_def throw_def inv_stmt_def ext_refl)

lemma goodS_andThen:
  assumes "totS p r"
    and "\<And>x p1. r = (Inr x, p1) \<Longrightarrow> ext p p1 \<Longrightarrow> block p1 = block p \<Longrightarrow> goodS p1 (k x p1)"
  shows "goodS p (andThen r k)"
proof -
  obtain r1 p1 where r: "r = (r1, p1)" by (cases r)
  from assms(1) r have e: "ext p p1" and b: "block p1 = block p"
    and u: "\<And>h. r1 \<noteq> Inl (UndefinedFunction h)"
    by (simp_all add: totS_def)
  show ?thesis
  proof (cases r1)
    case (Inl err)
    with r e u show ?thesis by (auto simp: goodS_def andThen_def inv_stmt_def)
  next
    case (Inr x)
    have g: "goodS p1 (k x p1)" using assms(2) r Inr e b by blast
    have "andThen r k = k x p1" using r Inr by (simp add: andThen_def)
    moreover have "\<And>res p'. inv_stmt p1 res p' \<Longrightarrow> inv_stmt p res p'"
      using e b ext_trans[OF e] by (auto simp: inv_stmt_def ext_program[OF e])
    ultimately show ?thesis using g by (auto simp: goodS_def)
  qed
qed

lemma goodS_bind:
  assumes "goodS p r"
    and "\<And>x p1. r = Some (Inr x, p1) \<Longrightarrow> ext p p1 \<Longrightarrow> block p1 = block p \<Longrightarrow> goodS p1 (k x p1)"
  shows "goodS p (bind r k)"
proof (cases r)
  case None
  then show ?thesis by (simp add: goodS_def bind_def)
next
  case (Some a)
  obtain r1 p1 where a: "a = (r1, p1)" by (cases a)
  from assms(1) Some a have i: "inv_stmt p r1 p1" by (simp add: goodS_def)
  show ?thesis
  proof (cases r1)
    case (Inl err)
    with Some a i show ?thesis by (auto simp: goodS_def bind_def inv_stmt_def)
  next
    case (Inr x)
    from i Inr have e: "ext p p1" and b: "block p1 = block p" by (simp_all add: inv_stmt_def)
    have g: "goodS p1 (k x p1)" using assms(2) Some a Inr e b by blast
    have "bind r k = k x p1" using Some a Inr by (simp add: bind_def)
    moreover have "\<And>res p'. inv_stmt p1 res p' \<Longrightarrow> inv_stmt p res p'"
      using e b ext_trans[OF e] by (auto simp: inv_stmt_def ext_program[OF e])
    ultimately show ?thesis using g by (auto simp: goodS_def)
  qed
qed

lemma goodS_if: "(c \<Longrightarrow> goodS p a) \<Longrightarrow> (\<not> c \<Longrightarrow> goodS p b) \<Longrightarrow> goodS p (if c then a else b)"
  by simp

lemma goodS_case_prod:
  "(\<And>a b. x = (a, b) \<Longrightarrow> goodS p (f a b p)) \<Longrightarrow> goodS p ((case x of (a, b) \<Rightarrow> f a b) p)"
  by (cases x) simp

lemma goodS_parseOrExpr: "goodS p (parseOrExpr n p)"
  by (rule goodS_good) (rule good_parseOrExpr)

lemma goodS_parseFunCall: "goodS p (parseFunCall n name p)"
  by (rule goodS_good) (rule good_parseFunCall)

lemmas totS_basic = totS_tot[OF tot_accept] totS_tot[OF tot_block_findVariable]
  totS_tot[OF tot_existVariable] totS_tot[OF tot_block_existVariable] totS_block_addVariable

lemma goodS_parseInitStatement: "goodS p (parseInitStatement n p)"
  unfolding parseInitStatement_def Let_def
  apply (intro goodS_andThen goodS_bind goodS_if goodS_ret totS_basic goodS_parseOrExpr)
  apply (rule goodS_throw_other, simp only: error.distinct not_False_eq_True)
  done

lemma goodS_parseAssignStatement: "goodS p (parseAssignStatement n v p)"
  unfolding parseAssignStatement_def Let_def
  by (intro goodS_andThen goodS_bind goodS_if goodS_ret totS_basic goodS_parseOrExpr
      goodS_case_prod)

lemma goodS_parseAssignOrFunCall: "goodS p (parseAssignOrFunCall n p)"
  unfolding parseAssignOrFunCall_def Let_def
  by (intro goodS_andThen goodS_bind goodS_if goodS_ret totS_basic goodS_parseFunCall
      goodS_parseAssignStatement)

lemma goodS_parseReturnStatement: "goodS p (parseReturnStatement n p)"
  unfolding parseReturnStatement_def
  by (intro goodS_andThen goodS_bind goodS_ret totS_basic goodS_parseOrExpr)

lemma goodS_parseAppendStatement: "goodS p (parseAppendStatement p)"
  unfolding parseAppendStatement_def
  by (intro goodS_andThen goodS_ret totS_basic)

lemma goodS_move: "goodS (move p) r \<Longrightarrow> goodS p r"
  by (simp add: goodS_def inv_stmt_def ext_def move_def)

lemma goodS_nested:
  assumes sb: "\<And>b q. goodB b q (sb b q)"
    and k: "\<And>nb x p1. ext p p1 \<Longrightarrow> block p1 = block p \<Longrightarrow> goodS p1 (k nb x p1)"
  shows "goodS p (case new_BlockStatement (block p) p of (nb, p1) \<Rightarrow> bind (sb nb p1) (k nb))"
proof -
  define nb where "nb = length (blocks p)"
  define p1 where "p1 = p\<lparr>blocks := blocks p @ [\<lparr>parent = block p, variables = [], statements = []\<rparr>]\<rparr>"
  have new: "new_BlockStatement (block p) p = (nb, p1)"
    by (simp add: new_BlockStatement_def nb_def p1_def)
  have e1: "ext p p1" by (simp add: ext_def p1_def nth_append)
  have par: "parent (blocks p1 ! nb) = block p" and lt: "nb < length (blocks p1)"
    by (simp_all add: p1_def nb_def)
  have pr: "program p1 = program p" by (simp add: p1_def)
  have "inv_stmt p res p'" if a: "bind (sb nb p1) (k nb) = Some (res, p')" for res p'
  proof (cases "sb nb p1")
    case None
    with a show ?thesis by (simp add: bind_def)
  next
    case (Some y)
    obtain r1 p2 where y: "y = (r1, p2)" by (cases y)
    from sb[of nb p1] Some y have e2: "ext p1 p2"
      and u: "\<And>h. r1 = Inl (UndefinedFunction h) \<Longrightarrow> \<not> existFunction (program p1) h"
      and c: "(\<exists>x. r1 = Inr x) \<Longrightarrow> block p2 = parent (blocks p1 ! nb)"
      using lt by (auto simp: goodB_def)
    have e: "ext p p2" by (rule ext_trans[OF e1 e2])
    show ?thesis
    proof (cases r1)
      case (Inl err)
      with a Some y have "res = Inl err" "p' = p2" by (simp_all add: bind_def)
      with e u Inl pr show ?thesis by (auto simp: inv_stmt_def)
    next
      case (Inr x)
      with c par have b: "block p2 = block p" by simp
      from a Some y Inr have "k nb x p2 = Some (res, p')" by (simp add: bind_def)
      with k[OF e b, of nb x] have i: "inv_stmt p2 res p'" by (simp add: goodS_def)
      with e b ext_trans[OF e] show ?thesis by (auto simp: inv_stmt_def ext_program[OF e])
    qed
  qed
  then show ?thesis by (simp add: new goodS_def)
qed

lemma goodS_parseIfStatement_of:
  "(\<And>b q. goodB b q (sb b q)) \<Longrightarrow> goodS p (parseIfStatement_of sb m p)"
  unfolding parseIfStatement_of_def
  by (intro goodS_andThen goodS_bind goodS_nested goodS_if goodS_ret totS_basic goodS_parseOrExpr)

lemma goodS_parseWhileStatement_of:
  "(\<And>b q. goodB b q (sb b q)) \<Longrightarrow> goodS p (parseWhileStatement_of sb m p)"
  unfolding parseWhileStatement_of_def
  by (intro goodS_andThen goodS_bind goodS_nested goodS_if goodS_ret totS_basic goodS_parseOrExpr)

lemma goodS_parseStmtBlock_switch:
  "(\<And>b q. goodB b q (sb b q)) \<Longrightarrow> goodS p (parseStmtBlock_switch sb m t p)"
  unfolding parseStmtBlock_switch_def
  apply (intro goodS_if goodS_bind goodS_andThen goodS_nested goodS_ret totS_basic
      goodS_block_addStatement goodS_parseIfStatement_of goodS_parseWhileStatement_of
      goodS_parseAssignOrFunCall goodS_parseInitStatement goodS_parseReturnStatement
      goodS_parseAppendStatement)
  apply (assumption | (rule goodS_throw_other, simp only: error.distinct not_False_eq_True))+
  done

lemma goodB_None: "goodB b p None"
  by (simp add: goodB_def)

lemma goodB_parseStmtBlock_while_of:
  assumes sb: "\<And>b q. goodB b q (sb b q)"
  shows "goodB b p (parseStmtBlock_while_of sb m b p)"
proof (induction m arbitrary: p)
  case 0
  show ?case by (simp add: goodB_None)
next
  case (Suc m)
  obtain r1 p1 where acc: "accept T_CloseBrace NOTHROW p = (r1, p1)"
    by (cases "accept T_CloseBrace NOTHROW p")
  from tot_accept[of p T_CloseBrace NOTHROW] acc
  have s1: "sc p1 = sc p" and u1: "\<And>h. r1 \<noteq> Inl (UndefinedFunction h)"
    by (simp_all add: tot_def)
  have e1: "ext p p1" by (rule ext_sc[OF s1])
  have bl: "blocks p1 = blocks p" and pr: "program p1 = program p"
    using s1 by (simp_all add: sc_def)
  show ?case
  proof (cases r1)
    case (Inl err)
    with acc e1 u1 show ?thesis by (auto simp: goodB_def andThen_def)
  next
    case (Inr closed)
    show ?thesis
    proof (cases closed)
      case True
      have "ext p (p1\<lparr>block := parent (blocks p1 ! b)\<rparr>)"
        using e1 by (simp add: ext_def)
      with acc Inr True bl show ?thesis
        by (simp add: goodB_def andThen_def ret_def)
    next
      case False
      define p2 where "p2 = move p1"
      define r where "r = parseStmtBlock_switch sb m (getType (current p2)) p2"
      have unf: "parseStmtBlock_while_of sb (Suc m) b p
                  = bind r (\<lambda>_ p3. parseStmtBlock_while_of sb m b p3)"
        using acc Inr False by (simp add: andThen_def Let_def p2_def r_def)
      have g: "goodS p1 r"
        unfolding r_def p2_def by (rule goodS_move) (rule goodS_parseStmtBlock_switch[OF sb])
      have "ext p p' \<and> (\<forall>h. res = Inl (UndefinedFunction h) \<longrightarrow> \<not> existFunction (program p) h) \<and>
            ((\<exists>x. res = Inr x) \<and> b < length (blocks p) \<longrightarrow> block p' = parent (blocks p ! b))"
        if a: "bind r (\<lambda>_ p3. parseStmtBlock_while_of sb m b p3) = Some (res, p')" for res p'
      proof (cases r)
        case None
        with a show ?thesis by (simp add: bind_def)
      next
        case (Some y)
        obtain r3 p3 where y: "y = (r3, p3)" by (cases y)
        from g Some y have i: "inv_stmt p1 r3 p3" by (simp add: goodS_def)
        then have e3: "ext p1 p3" by (simp add: inv_stmt_def)
        have e: "ext p p3" by (rule ext_trans[OF e1 e3])
        show ?thesis
        proof (cases r3)
          case (Inl err)
          with a Some y have "res = Inl err" "p' = p3" by (simp_all add: bind_def)
          with i e Inl pr show ?thesis by (auto simp: inv_stmt_def)
        next
          case (Inr x)
          with a Some y have "parseStmtBlock_while_of sb m b p3 = Some (res, p')"
            by (simp add: bind_def)
          with Suc.IH[of p3] have
            e': "ext p3 p'"
            and u': "\<And>h. res = Inl (UndefinedFunction h) \<Longrightarrow> \<not> existFunction (program p3) h"
            and c': "(\<exists>x. res = Inr x) \<Longrightarrow> b < length (blocks p3) \<Longrightarrow> block p' = parent (blocks p3 ! b)"
            by (auto simp: goodB_def)
          have "ext p p'" by (rule ext_trans[OF e e'])
          moreover have "\<not> existFunction (program p) h" if "res = Inl (UndefinedFunction h)" for h
            using u'[OF that] ext_program[OF e] by simp
          moreover have "block p' = parent (blocks p ! b)"
            if "\<exists>x. res = Inr x" "b < length (blocks p)"
          proof -
            from e that(2) have "b < length (blocks p3)"
              and "parent (blocks p3 ! b) = parent (blocks p ! b)"
              by (auto simp: ext_def)
            with c'[OF that(1)] show ?thesis by simp
          qed
          ultimately show ?thesis by blast
        qed
      qed
      then show ?thesis unfolding unf goodB_def by blast
    qed
  qed
qed

lemma goodB_parseStmtBlock: "goodB b p (parseStmtBlock n b p)"
proof (induction n arbitrary: b p)
  case 0
  show ?case by (simp add: goodB_None)
next
  case (Suc n)
  have "goodB b (p\<lparr>block := Some b\<rparr>)
          (parseStmtBlock_while_of (parseStmtBlock n) n b (p\<lparr>block := Some b\<rparr>))"
    by (rule goodB_parseStmtBlock_while_of) (rule Suc.IH)
  then show ?case
    by (simp add: goodB_def ext_def)
qed

section \<open>Evaluating a parse step by step\<close>

lemma accept_hit:
  "scr p = t # ts \<Longrightarrow> getType t = ty \<Longrightarrow> accept ty d p = (Inr True, move p)"
  by (simp add: accept_def getToken_def)

lemma move_Cons: "scr p = t # ts \<Longrightarrow> move p = p\<lparr>scr := ts, current := t\<rparr>"
  by (simp add: move_def getToken_def)

lemma andThen_Inr: "andThen (Inr x, p) k = k x p"
  by (simp add: andThen_def)

lemma andThen_Inl: "andThen (Inl e, p) k = Some (Inl e, p)"
  by (simp add: andThen_def)

lemma bind_Inr: "bind (Some (Inr x, p)) k = k x p"
  by (simp add: bind_def)

lemma bind_Inl: "bind (Some (Inl e, p)) k = Some (Inl e, p)"
  by (simp add: bind_def)

lemma bind_None: "bind None k = None"
  by (simp add: bind_def)

lemmas monad_simps = andThen_Inr andThen_Inl bind_Inr bind_Inl bind_None ret_def throw_def

lemmas token_simps =
  accept_def accept1_def getToken_def nextToken_def move_def THROW_def NOTHROW_def

lemma existVariable_unfold:
  "BlockStatement_existVariable bs b x \<longleftrightarrow>
     x \<in> fst ` set (variables (bs ! b)) \<or>
     (\<exists>q. parent (bs ! b) = Some q \<and> q < b \<and> BlockStatement_existVariable bs q x)"
  unfolding BlockStatement_existVariable_def
  by (subst BlockStatement_findVariable.simps) (auto split: option.splits)

lemma findVariable_here:
  "x \<in> fst ` set (variables (bs ! b)) \<Longrightarrow>
     BlockStatement_findVariable bs b x = Some (VarRef b x)"
  by (subst BlockStatement_findVariable.simps) simp

lemma findVariable_parent:
  "x \<notin> fst ` set (variables (bs ! b)) \<Longrightarrow> parent (bs ! b) = Some q \<Longrightarrow> q < b \<Longrightarrow>
     BlockStatement_findVariable bs b x = BlockStatement_findVariable bs q x"
  by (subst BlockStatement_findVariable.simps) simp

section \<open>Declarations and references\<close>

text \<open>
  Claim C1, as the code has it. \<^verbatim>\<open>parseInitStatement\<close> rejects the name with the same
  \<^verbatim>\<open>block->existVariable(id)\<close> that resolves references, and that lookup walks the parent
  chain. So a \<^verbatim>\<open>var\<close> declaration fails with \<open>DuplicateVariable\<close> when its name is declared
  in the current block, and also when it is visible from the parent of the current block:
  a nested block cannot declare again (shadow) a name of an enclosing block. The fault is
  raised right after the identifier is consumed.
\<close>

theorem parseInitStatement_duplicate:
  assumes "scr p = t # ts" and "getType t = I_Identifier" and "block p = Some b"
    and "getString t \<in> fst ` set (variables (blocks p ! b)) \<or>
         (\<exists>q. parent (blocks p ! b) = Some q \<and> q < b \<and>
              BlockStatement_existVariable (blocks p) q (getString t))"
  shows "parseInitStatement n p = Some (Inl DuplicateVariable, move p)"
proof -
  have ex: "BlockStatement_existVariable (blocks p) b (getString t)"
    using assms(4) by (subst existVariable_unfold)
  have m: "move p = p\<lparr>scr := ts, current := t\<rparr>" by (rule move_Cons[OF assms(1)])
  have a: "accept I_Identifier THROW p = (Inr True, move p)"
    by (rule accept_hit[OF assms(1,2)])
  have b: "block_existVariable (getString t) (move p) = (Inr True, move p)"
    using ex assms(3) by (simp add: block_existVariable_def m)
  show ?thesis
    unfolding parseInitStatement_def
    by (simp add: a monad_simps Let_def m b[unfolded m])
qed

text \<open>
  The witness: inside the nested block 1, \<^verbatim>\<open>var x;\<close> where \<^verbatim>\<open>x\<close> is declared in the enclosing
  block 0 only.
\<close>

theorem parseInitStatement_duplicate_witness:
  "parseInitStatement 3 (in_nested (tk K_Var) [ident ''x'', tk T_Semicolon])
     = Some (Inl DuplicateVariable, in_nested (ident ''x'') [tk T_Semicolon])"
proof -
  let ?p = "in_nested (tk K_Var) [ident ''x'', tk T_Semicolon]"
  have 1: "scr ?p = ident ''x'' # [tk T_Semicolon]" by (simp add: in_nested_def)
  have 2: "getType (ident ''x'') = I_Identifier" by (simp add: ident_def)
  have 3: "block ?p = Some 1" by (simp add: in_nested_def)
  have 4: "getString (ident ''x'') \<in> fst ` set (variables (blocks ?p ! 1)) \<or>
         (\<exists>q. parent (blocks ?p ! 1) = Some q \<and> q < 1 \<and>
              BlockStatement_existVariable (blocks ?p) q (getString (ident ''x'')))"
    by (simp add: in_nested_def ident_def BlockStatement_existVariable_def
        BlockStatement_findVariable.simps)
  show ?thesis
    using parseInitStatement_duplicate[OF 1 2 3 4, of 3]
    by (simp add: in_nested_def move_def getToken_def)
qed

text \<open>
  The claim as the spec states it fails on the program
  \<^verbatim>\<open>fun f() { var x; { var x; } }\<close>: the declaration in the nested block is rejected.
\<close>

theorem shadowing_counterexample:
  "map_option fst (parseProgram 20 (Parser_init
     [tk K_Fun, ident ''f'', tk T_OpenParen, tk T_CloseParen, tk T_OpenBrace,
        tk K_Var, ident ''x'', tk T_Semicolon,
        tk T_OpenBrace, tk K_Var, ident ''x'', tk T_Semicolon, tk T_CloseBrace,
      tk T_CloseBrace] False))
   = Some (Inl DuplicateVariable)"
  by code_simp

text \<open>
  This does not hang on how the lookup walks: the declaration is rejected by the very
  lookup that \<^verbatim>\<open>Parser::existVariable\<close> uses for a reference. Whenever a reference to the
  identifier would pass that check in the current block, declaring the identifier there
  fails.
\<close>

lemma declaration_rejects_what_resolves:
  assumes "scr p = t # ts" and "getType t = I_Identifier"
    and "existVariable (move p) = (Inr True, q)"
  shows "parseInitStatement n p = Some (Inl DuplicateVariable, move p)"
proof -
  have m: "move p = p\<lparr>scr := ts, current := t\<rparr>" by (rule move_Cons[OF assms(1)])
  have a: "accept I_Identifier THROW p = (Inr True, move p)"
    by (rule accept_hit[OF assms(1,2)])
  have c: "current (move p) = t" by (simp add: m)
  have b: "block_existVariable (getString t) (move p) = (Inr True, move p)"
    using assms(3) unfolding existVariable_def c
    by (auto simp: block_existVariable_def split: option.splits if_splits)
  show ?thesis
    unfolding parseInitStatement_def
    by (simp add: a monad_simps Let_def c b)
qed

text \<open>
  The lookup along the parent chain finds nothing exactly when no block of the chain, the
  root included, declares the name; what it finds is the slot of a block of the chain that
  declares the name.
\<close>

lemma findVariable_root:
  "x \<notin> fst ` set (variables (bs ! b)) \<Longrightarrow> parent (bs ! b) = None \<Longrightarrow>
     BlockStatement_findVariable bs b x = None"
  by (subst BlockStatement_findVariable.simps) simp

lemma findVariable_None_iff:
  "BlockStatement_findVariable bs b x = None \<longleftrightarrow>
     (\<forall>c\<in>set (ancestors bs b). x \<notin> fst ` set (variables (bs ! c)))"
proof (induction b rule: less_induct)
  case (less b)
  show ?case
  proof (cases "x \<in> fst ` set (variables (bs ! b))")
    case True
    then have "BlockStatement_findVariable bs b x = Some (VarRef b x)" by (rule findVariable_here)
    moreover have "b \<in> set (ancestors bs b)" by (subst ancestors.simps) simp
    ultimately show ?thesis using True by auto
  next
    case False
    show ?thesis
    proof (cases "parent (bs ! b)")
      case None
      then have "ancestors bs b = [b]" by (subst ancestors.simps) simp
      with False findVariable_root[OF False None] show ?thesis by simp
    next
      case (Some q)
      show ?thesis
      proof (cases "q < b")
        case True
        have "ancestors bs b = b # ancestors bs q"
          using Some True by (subst ancestors.simps) simp
        with findVariable_parent[OF False Some True] less[OF True] False show ?thesis by simp
      next
        case no: False
        have "ancestors bs b = [b]" using Some no by (subst ancestors.simps) simp
        moreover have "BlockStatement_findVariable bs b x = None"
          using False Some no by (subst BlockStatement_findVariable.simps) simp
        ultimately show ?thesis using False by simp
      qed
    qed
  qed
qed

lemma findVariable_Some_ancestor:
  "BlockStatement_findVariable bs b x = Some v \<Longrightarrow>
     \<exists>c\<in>set (ancestors bs b). v = VarRef c x \<and> x \<in> fst ` set (variables (bs ! c))"
proof (induction b rule: less_induct)
  case (less b)
  have here: "b \<in> set (ancestors bs b)" by (subst ancestors.simps) simp
  show ?case
  proof (cases "x \<in> fst ` set (variables (bs ! b))")
    case True
    with findVariable_here[OF True] less.prems here show ?thesis by auto
  next
    case False
    show ?thesis
    proof (cases "parent (bs ! b)")
      case None
      with findVariable_root[OF False None] less.prems show ?thesis by simp
    next
      case (Some q)
      show ?thesis
      proof (cases "q < b")
        case True
        have a: "ancestors bs b = b # ancestors bs q"
          using Some True by (subst ancestors.simps) simp
        from findVariable_parent[OF False Some True] less.prems
        have "BlockStatement_findVariable bs q x = Some v" by simp
        from less.IH[OF True this] show ?thesis by (auto simp: a)
      next
        case no: False
        have "BlockStatement_findVariable bs b x = None"
          using False Some no by (subst BlockStatement_findVariable.simps) simp
        with less.prems show ?thesis by simp
      qed
    qed
  qed
qed

lemma undeclared_read:
  assumes "scr p = t # ts" and "getType t = I_Identifier"
    and "getType (getToken (move p)) \<noteq> T_OpenParen" and "block p = Some b"
    and "BlockStatement_findVariable (blocks p) b (getString t) = None"
  shows "parseBaseMathExpr_of orExpr m p = Some (Inl (UndefinedVariable (getString t)), move p)"
proof -
  have m: "move p = p\<lparr>scr := ts, current := t\<rparr>" by (rule move_Cons[OF assms(1)])
  have a1: "accept T_Minus NOTHROW p = (Inr False, p)"
    "accept L_Numeric NOTHROW p = (Inr False, p)"
    "accept1 T_OpenBracket p = (Inr False, p)"
    "accept1 T_OpenParen p = (Inr False, p)"
    "accept1 K_Len p = (Inr False, p)"
    "accept1 I_Identifier p = (Inr True, move p)"
    using assms(1,2) by (simp_all add: accept_def accept1_def getToken_def NOTHROW_def)
  have a2: "accept1 T_OpenParen (move p) = (Inr False, move p)"
    using assms(3) by (simp add: accept_def accept1_def NOTHROW_def)
  have c: "current (move p) = t" "block (move p) = Some b" "blocks (move p) = blocks p"
    using assms(4) by (simp_all add: m)
  have "existVariable (move p) = (Inl (UndefinedVariable (getString t)), move p)"
    using assms(5)
    by (simp add: existVariable_def block_existVariable_def BlockStatement_existVariable_def c)
  then show ?thesis
    by (simp add: parseBaseMathExpr_of_def a1 a2 c andThen_Inr andThen_Inl Let_def)
qed

lemma negated_read:
  assumes "scr p = tm # t # ts" and "getType tm = T_Minus" and "getType t = I_Identifier"
    and "getType (getToken (move (move p))) \<noteq> T_OpenParen" and "block p = Some b"
  shows "(BlockStatement_findVariable (blocks p) b (getString t) = None \<longrightarrow>
           parseBaseMathExpr_of orExpr m p
             = Some (Inl (UndefinedVariable (getString t)), move (move p)))
       \<and> (BlockStatement_findVariable (blocks p) b (getString t) = Some v \<longrightarrow>
           getType (getToken (move (move p))) \<noteq> T_OpenBracket \<longrightarrow>
           parseBaseMathExpr_of orExpr m p
             = Some (Inr (BaseMathExpr_Ref v True), move (move p)))"
proof -
  define p1 where "p1 = move p"
  have m1: "p1 = p\<lparr>scr := t # ts, current := tm\<rparr>"
    unfolding p1_def by (rule move_Cons[OF assms(1)])
  have s1: "scr p1 = t # ts" by (simp add: m1)
  have m2: "move p1 = p\<lparr>scr := ts, current := t\<rparr>"
    using move_Cons[OF s1] by (simp add: m1)
  have a0: "accept T_Minus NOTHROW p = (Inr True, p1)"
    using assms(1,2) by (simp add: accept_def getToken_def p1_def)
  have a1: "accept L_Numeric NOTHROW p1 = (Inr False, p1)"
    "accept1 T_OpenBracket p1 = (Inr False, p1)"
    "accept1 T_OpenParen p1 = (Inr False, p1)"
    "accept1 K_Len p1 = (Inr False, p1)"
    "accept1 I_Identifier p1 = (Inr True, move p1)"
    using s1 assms(3) by (simp_all add: accept_def accept1_def getToken_def NOTHROW_def)
  have a2: "accept1 T_OpenParen (move p1) = (Inr False, move p1)"
    using assms(4) by (simp add: accept_def accept1_def NOTHROW_def p1_def)
  have c: "current (move p1) = t" "block (move p1) = Some b" "blocks (move p1) = blocks p"
    using assms(5) by (simp_all add: m2)
  show ?thesis
  proof (intro conjI impI)
    assume "BlockStatement_findVariable (blocks p) b (getString t) = None"
    then have "existVariable (move p1) = (Inl (UndefinedVariable (getString t)), move p1)"
      by (simp add: existVariable_def block_existVariable_def BlockStatement_existVariable_def c)
    then show "parseBaseMathExpr_of orExpr m p
             = Some (Inl (UndefinedVariable (getString t)), move (move p))"
      by (simp add: parseBaseMathExpr_of_def a0 a1 a2 c andThen_Inr andThen_Inl Let_def
          p1_def[symmetric])
  next
    assume f: "BlockStatement_findVariable (blocks p) b (getString t) = Some v"
      and nb: "getType (getToken (move (move p))) \<noteq> T_OpenBracket"
    from f have ev: "existVariable (move p1) = (Inr True, move p1)"
      by (simp add: existVariable_def block_existVariable_def BlockStatement_existVariable_def c)
    have a3: "accept T_OpenBracket NOTHROW (move p1) = (Inr False, move p1)"
      using nb by (simp add: accept_def NOTHROW_def p1_def)
    have fv: "block_findVariable (getString t) (move p1) = (Inr v, move p1)"
      using f by (simp add: block_findVariable_def c)
    show "parseBaseMathExpr_of orExpr m p
             = Some (Inr (BaseMathExpr_Ref v True), move (move p))"
      by (simp add: parseBaseMathExpr_of_def a0 a1 a2 a3 ev c fv monad_simps Let_def
          p1_def[symmetric])
  qed
qed

lemma len_read:
  assumes "scr p = t1 # t2 # t # ts" and "getType t1 = K_Len" and "getType t2 = T_OpenParen"
    and "getType t = I_Identifier" and "block p = Some b"
    and "BlockStatement_findVariable (blocks p) b (getString t) = None"
  shows "parseBaseMathExpr_of orExpr m p
           = Some (Inl (UndefinedVariable (getString t)), p\<lparr>scr := ts, current := t\<rparr>)"
  using assms
  by (simp add: parseBaseMathExpr_of_def parseLenStatement_def token_simps monad_simps
      block_findVariable_def)

lemma first_primary_fails:
  assumes "parseBaseMathExpr n p = Some (Inl e, q)" and "getType (getToken p) \<noteq> T_Exclamation"
  shows "parseOrExpr (Suc n) p = Some (Inl e, q)"
proof -
  have "accept1 T_Exclamation p = (Inr False, p)"
    using assms(2) by (simp add: accept_def accept1_def NOTHROW_def)
  then show ?thesis
    using assms(1)
    by (simp add: parseBaseMathExpr_def parseOrExpr_of_def parseAndExpr_of_def
        parseRelExpr_of_def parseBaseLogicExpr_of_def parseAddExpr_of_def parseMultExpr_of_def
        monad_simps)
qed


lemma index_read_fails:
  assumes "scr p = t # tb # ts" and "getType t = I_Identifier" and "getType tb = T_OpenBracket"
    and "block p = Some b"
    and "BlockStatement_findVariable (blocks p) b (getString t) = Some v"
    and "orExpr (p\<lparr>scr := ts, current := tb\<rparr>) = Some (Inl e, q)"
  shows "parseBaseMathExpr_of orExpr m p = Some (Inl e, q)"
proof -
  define p1 where "p1 = p\<lparr>scr := tb # ts, current := t\<rparr>"
  have m1: "move p = p1" unfolding p1_def by (rule move_Cons[OF assms(1)])
  have s1: "scr p1 = tb # ts" by (simp add: p1_def)
  have m2: "move p1 = p\<lparr>scr := ts, current := tb\<rparr>"
    using move_Cons[OF s1] by (simp add: p1_def)
  have a1: "accept T_Minus NOTHROW p = (Inr False, p)"
    "accept L_Numeric NOTHROW p = (Inr False, p)"
    "accept1 T_OpenBracket p = (Inr False, p)"
    "accept1 T_OpenParen p = (Inr False, p)"
    "accept1 K_Len p = (Inr False, p)"
    "accept1 I_Identifier p = (Inr True, p1)"
    using assms(1,2) m1 by (simp_all add: accept_def accept1_def getToken_def NOTHROW_def)
  have a2: "accept1 T_OpenParen p1 = (Inr False, p1)"
    "accept T_OpenBracket NOTHROW p1 = (Inr True, move p1)"
    using assms(3) s1 by (simp_all add: accept_def accept1_def getToken_def NOTHROW_def)
  have c: "current p1 = t" "block p1 = Some b" "blocks p1 = blocks p"
    using assms(4) by (simp_all add: p1_def)
  have ev: "existVariable p1 = (Inr True, p1)"
    using assms(5)
    by (simp add: existVariable_def block_existVariable_def BlockStatement_existVariable_def c)
  show ?thesis
    by (simp add: parseBaseMathExpr_of_def a1 a2 ev c m2 assms(6) andThen_Inr andThen_Inl
        bind_Inl Let_def)
qed

text \<open>
  Claim C6. With \<open>b\<close> the current block and \<open>ancestors (blocks p) b\<close> the chain of \<open>b\<close>, its
  parent and so on up to the root, at any depth:
  \<^item> the lookup finds nothing if and only if no block of the chain declares the name, and
    what it finds is the slot of a block of the chain that declares it (first the current
    block, otherwise what the parent finds);
  \<^item> an identifier read in an expression and not followed by \<^verbatim>\<open>(\<close>, whatever else follows it
    (nothing, an index \<^verbatim>\<open>[i]\<close>, a slice \<^verbatim>\<open>[i:j]\<close>), with or without a minus before it, fails
    with \<open>UndefinedVariable\<close> of that name when no block of the chain declares it, and it
    fails right after the identifier, before any index is read; so does the argument of
    \<^verbatim>\<open>len( )\<close>, and so does an identifier that starts a statement (the target of an
    assignment, indexed or not);
  \<^item> the failure of a primary expression is the failure of the expression that starts with
    it, and the failure of an index expression is the failure of the indexed read;
  \<^item> when a block of the chain declares the name, the plain read succeeds with a reference
    to the slot of such a block (also after a minus), and the statement goes on as an
    assignment to that slot.
\<close>

theorem reference_resolution:
  assumes "block p = Some b"
  shows "(scr p = t # ts \<longrightarrow> getType t = I_Identifier \<longrightarrow>
            getType (getToken (move p)) \<noteq> T_OpenParen \<longrightarrow>
            getType (getToken (move p)) \<noteq> T_OpenBracket \<longrightarrow>
          parseBaseMathExpr n p =
            (case BlockStatement_findVariable (blocks p) b (getString t) of
               None \<Rightarrow> Some (Inl (UndefinedVariable (getString t)), move p)
             | Some v \<Rightarrow> Some (Inr (BaseMathExpr_Ref v False), move p)))
       \<and> (getType (getToken p) \<noteq> T_OpenParen \<longrightarrow>
          parseAssignOrFunCall n p =
            (case BlockStatement_findVariable (blocks p) b (getString (current p)) of
               None \<Rightarrow> Some (Inl (UndefinedVariable (getString (current p))), p)
             | Some v \<Rightarrow> parseAssignStatement n v p))
       \<and> (x \<in> fst ` set (variables (blocks p ! b)) \<longrightarrow>
            BlockStatement_findVariable (blocks p) b x = Some (VarRef b x))
       \<and> (x \<notin> fst ` set (variables (blocks p ! b)) \<longrightarrow>
            parent (blocks p ! b) = Some q \<longrightarrow> q < b \<longrightarrow>
            BlockStatement_findVariable (blocks p) b x
              = BlockStatement_findVariable (blocks p) q x)
       \<and> (BlockStatement_findVariable (blocks p) b x = None \<longleftrightarrow>
            (\<forall>c\<in>set (ancestors (blocks p) b). x \<notin> fst ` set (variables (blocks p ! c))))
       \<and> (BlockStatement_findVariable (blocks p) b x = Some v \<longrightarrow>
            (\<exists>c\<in>set (ancestors (blocks p) b).
                v = VarRef c x \<and> x \<in> fst ` set (variables (blocks p ! c))))
       \<and> (scr p = t # ts \<longrightarrow> getType t = I_Identifier \<longrightarrow>
            getType (getToken (move p)) \<noteq> T_OpenParen \<longrightarrow>
            (\<forall>c\<in>set (ancestors (blocks p) b).
                getString t \<notin> fst ` set (variables (blocks p ! c))) \<longrightarrow>
            parseBaseMathExpr n p = Some (Inl (UndefinedVariable (getString t)), move p))
       \<and> (scr p = tm # t # ts \<longrightarrow> getType tm = T_Minus \<longrightarrow> getType t = I_Identifier \<longrightarrow>
            getType (getToken (move (move p))) \<noteq> T_OpenParen \<longrightarrow>
            (\<forall>c\<in>set (ancestors (blocks p) b).
                getString t \<notin> fst ` set (variables (blocks p ! c))) \<longrightarrow>
            parseBaseMathExpr n p
              = Some (Inl (UndefinedVariable (getString t)), move (move p)))
       \<and> (scr p = tm # t # ts \<longrightarrow> getType tm = T_Minus \<longrightarrow> getType t = I_Identifier \<longrightarrow>
            getType (getToken (move (move p))) \<noteq> T_OpenParen \<longrightarrow>
            getType (getToken (move (move p))) \<noteq> T_OpenBracket \<longrightarrow>
            BlockStatement_findVariable (blocks p) b (getString t) = Some v \<longrightarrow>
            parseBaseMathExpr n p = Some (Inr (BaseMathExpr_Ref v True), move (move p)))
       \<and> (scr p = t1 # t2 # t # ts \<longrightarrow> getType t1 = K_Len \<longrightarrow> getType t2 = T_OpenParen \<longrightarrow>
            getType t = I_Identifier \<longrightarrow>
            (\<forall>c\<in>set (ancestors (blocks p) b).
                getString t \<notin> fst ` set (variables (blocks p ! c))) \<longrightarrow>
            parseBaseMathExpr n p
              = Some (Inl (UndefinedVariable (getString t)), p\<lparr>scr := ts, current := t\<rparr>))
       \<and> (getType (getToken p) \<noteq> T_OpenParen \<longrightarrow>
            (\<forall>c\<in>set (ancestors (blocks p) b).
                getString (current p) \<notin> fst ` set (variables (blocks p ! c))) \<longrightarrow>
            parseAssignOrFunCall n p
              = Some (Inl (UndefinedVariable (getString (current p))), p))
       \<and> (parseBaseMathExpr n p = Some (Inl e, p') \<longrightarrow>
            getType (getToken p) \<noteq> T_Exclamation \<longrightarrow>
            parseOrExpr (Suc n) p = Some (Inl e, p'))
       \<and> (scr p = t # t2 # ts \<longrightarrow> getType t = I_Identifier \<longrightarrow> getType t2 = T_OpenBracket \<longrightarrow>
            (\<exists>c\<in>set (ancestors (blocks p) b).
                getString t \<in> fst ` set (variables (blocks p ! c))) \<longrightarrow>
            parseOrExpr n (p\<lparr>scr := ts, current := t2\<rparr>) = Some (Inl e, p') \<longrightarrow>
            parseBaseMathExpr n p = Some (Inl e, p'))
       \<and> (scr p = t # ts \<longrightarrow> getType t = I_Identifier \<longrightarrow>
            getType (getToken (move p)) \<noteq> T_OpenParen \<longrightarrow>
            getType (getToken (move p)) \<noteq> T_OpenBracket \<longrightarrow>
            (\<exists>c\<in>set (ancestors (blocks p) b).
                getString t \<in> fst ` set (variables (blocks p ! c))) \<longrightarrow>
            (\<exists>c\<in>set (ancestors (blocks p) b).
                getString t \<in> fst ` set (variables (blocks p ! c)) \<and>
                parseBaseMathExpr n p
                  = Some (Inr (BaseMathExpr_Ref (VarRef c (getString t)) False), move p)))
       \<and> (getType (getToken p) \<noteq> T_OpenParen \<longrightarrow>
            (\<exists>c\<in>set (ancestors (blocks p) b).
                getString (current p) \<in> fst ` set (variables (blocks p ! c))) \<longrightarrow>
            (\<exists>c\<in>set (ancestors (blocks p) b).
                getString (current p) \<in> fst ` set (variables (blocks p ! c)) \<and>
                parseAssignOrFunCall n p
                  = parseAssignStatement n (VarRef c (getString (current p))) p))"
proof -
  note none = findVariable_None_iff[of "blocks p" b, THEN iffD2]
  have some: "\<exists>c\<in>set (ancestors (blocks p) b).
                 y \<in> fst ` set (variables (blocks p ! c)) \<and>
                 BlockStatement_findVariable (blocks p) b y = Some (VarRef c y)"
    if "\<exists>c\<in>set (ancestors (blocks p) b). y \<in> fst ` set (variables (blocks p ! c))" for y
  proof -
    from that findVariable_None_iff[of "blocks p" b y]
    obtain w where w: "BlockStatement_findVariable (blocks p) b y = Some w" by auto
    from findVariable_Some_ancestor[OF w] w show ?thesis by auto
  qed
  have A: "parseBaseMathExpr n p =
            (case BlockStatement_findVariable (blocks p) b (getString t) of
               None \<Rightarrow> Some (Inl (UndefinedVariable (getString t)), move p)
             | Some v \<Rightarrow> Some (Inr (BaseMathExpr_Ref v False), move p))"
    if s: "scr p = t # ts" and ty: "getType t = I_Identifier"
      and n1: "getType (getToken (move p)) \<noteq> T_OpenParen"
      and n2: "getType (getToken (move p)) \<noteq> T_OpenBracket"
  proof -
    have m: "move p = p\<lparr>scr := ts, current := t\<rparr>" by (rule move_Cons[OF s])
    have a1: "accept T_Minus NOTHROW p = (Inr False, p)"
      "accept L_Numeric NOTHROW p = (Inr False, p)"
      "accept1 T_OpenBracket p = (Inr False, p)"
      "accept1 T_OpenParen p = (Inr False, p)"
      "accept1 K_Len p = (Inr False, p)"
      "accept1 I_Identifier p = (Inr True, move p)"
      using s ty by (simp_all add: accept_def accept1_def getToken_def NOTHROW_def)
    have a2: "accept1 T_OpenParen (move p) = (Inr False, move p)"
      "accept T_OpenBracket NOTHROW (move p) = (Inr False, move p)"
      using n1 n2 by (simp_all add: accept_def accept1_def NOTHROW_def)
    have c: "current (move p) = t" "block (move p) = Some b" "blocks (move p) = blocks p"
      using assms by (simp_all add: m)
    show ?thesis
      unfolding parseBaseMathExpr_def parseBaseMathExpr_of_def
      by (simp add: a1 a2 c monad_simps Let_def existVariable_def block_existVariable_def
          block_findVariable_def BlockStatement_existVariable_def split: option.splits)
  qed
  have B: "parseAssignOrFunCall n p =
            (case BlockStatement_findVariable (blocks p) b (getString (current p)) of
               None \<Rightarrow> Some (Inl (UndefinedVariable (getString (current p))), p)
             | Some v \<Rightarrow> parseAssignStatement n v p)"
    if n1: "getType (getToken p) \<noteq> T_OpenParen"
  proof -
    have a: "accept T_OpenParen NOTHROW p = (Inr False, p)"
      using n1 by (simp add: accept_def NOTHROW_def)
    show ?thesis
      unfolding parseAssignOrFunCall_def
      by (simp add: a assms monad_simps Let_def existVariable_def block_existVariable_def
          block_findVariable_def BlockStatement_existVariable_def split: option.splits)
  qed
  have C: "BlockStatement_findVariable (blocks p) b x = Some (VarRef b x)"
    if "x \<in> fst ` set (variables (blocks p ! b))"
    using that by (rule findVariable_here)
  have D: "BlockStatement_findVariable (blocks p) b x = BlockStatement_findVariable (blocks p) q x"
    if "x \<notin> fst ` set (variables (blocks p ! b))" "parent (blocks p ! b) = Some q" "q < b"
    using that by (rule findVariable_parent)
  have E: "BlockStatement_findVariable (blocks p) b x = None \<longleftrightarrow>
            (\<forall>c\<in>set (ancestors (blocks p) b). x \<notin> fst ` set (variables (blocks p ! c)))"
    by (rule findVariable_None_iff)
  have F: "\<exists>c\<in>set (ancestors (blocks p) b).
                v = VarRef c x \<and> x \<in> fst ` set (variables (blocks p ! c))"
    if "BlockStatement_findVariable (blocks p) b x = Some v"
    using that by (rule findVariable_Some_ancestor)
  have G: "parseBaseMathExpr n p = Some (Inl (UndefinedVariable (getString t)), move p)"
    if "scr p = t # ts" "getType t = I_Identifier" "getType (getToken (move p)) \<noteq> T_OpenParen"
      "\<forall>c\<in>set (ancestors (blocks p) b). getString t \<notin> fst ` set (variables (blocks p ! c))"
    unfolding parseBaseMathExpr_def
    by (rule undeclared_read[OF that(1,2,3) assms none[OF that(4)]])
  have H: "parseBaseMathExpr n p = Some (Inl (UndefinedVariable (getString t)), move (move p))"
    if "scr p = tm # t # ts" "getType tm = T_Minus" "getType t = I_Identifier"
      "getType (getToken (move (move p))) \<noteq> T_OpenParen"
      "\<forall>c\<in>set (ancestors (blocks p) b). getString t \<notin> fst ` set (variables (blocks p ! c))"
    unfolding parseBaseMathExpr_def
    using negated_read[OF that(1,2,3,4) assms, THEN conjunct1] none[OF that(5)] by blast
  have H': "parseBaseMathExpr n p = Some (Inr (BaseMathExpr_Ref v True), move (move p))"
    if "scr p = tm # t # ts" "getType tm = T_Minus" "getType t = I_Identifier"
      "getType (getToken (move (move p))) \<noteq> T_OpenParen"
      "getType (getToken (move (move p))) \<noteq> T_OpenBracket"
      "BlockStatement_findVariable (blocks p) b (getString t) = Some v"
    unfolding parseBaseMathExpr_def
    using negated_read[OF that(1,2,3,4) assms, THEN conjunct2] that(5,6) by blast
  have I: "parseBaseMathExpr n p
              = Some (Inl (UndefinedVariable (getString t)), p\<lparr>scr := ts, current := t\<rparr>)"
    if "scr p = t1 # t2 # t # ts" "getType t1 = K_Len" "getType t2 = T_OpenParen"
      "getType t = I_Identifier"
      "\<forall>c\<in>set (ancestors (blocks p) b). getString t \<notin> fst ` set (variables (blocks p ! c))"
    unfolding parseBaseMathExpr_def
    by (rule len_read[OF that(1,2,3,4) assms none[OF that(5)]])
  have J: "parseAssignOrFunCall n p = Some (Inl (UndefinedVariable (getString (current p))), p)"
    if "getType (getToken p) \<noteq> T_OpenParen"
      "\<forall>c\<in>set (ancestors (blocks p) b).
          getString (current p) \<notin> fst ` set (variables (blocks p ! c))"
    using B[OF that(1)] none[OF that(2)] by simp
  have K: "parseOrExpr (Suc n) p = Some (Inl e, p')"
    if "parseBaseMathExpr n p = Some (Inl e, p')" "getType (getToken p) \<noteq> T_Exclamation"
    using that by (rule first_primary_fails)
  have M: "parseBaseMathExpr n p = Some (Inl e, p')"
    if "scr p = t # t2 # ts" "getType t = I_Identifier" "getType t2 = T_OpenBracket"
      "\<exists>c\<in>set (ancestors (blocks p) b). getString t \<in> fst ` set (variables (blocks p ! c))"
      "parseOrExpr n (p\<lparr>scr := ts, current := t2\<rparr>) = Some (Inl e, p')"
  proof -
    from some[OF that(4)] obtain w where
      w: "BlockStatement_findVariable (blocks p) b (getString t) = Some w" by blast
    show ?thesis
      unfolding parseBaseMathExpr_def
      by (rule index_read_fails[where orExpr = "parseOrExpr n", OF that(1,2,3) assms w that(5)])
  qed
  have L: "\<exists>c\<in>set (ancestors (blocks p) b).
                getString t \<in> fst ` set (variables (blocks p ! c)) \<and>
                parseBaseMathExpr n p
                  = Some (Inr (BaseMathExpr_Ref (VarRef c (getString t)) False), move p)"
    if "scr p = t # ts" "getType t = I_Identifier"
      "getType (getToken (move p)) \<noteq> T_OpenParen"
      "getType (getToken (move p)) \<noteq> T_OpenBracket"
      "\<exists>c\<in>set (ancestors (blocks p) b). getString t \<in> fst ` set (variables (blocks p ! c))"
  proof -
    from some[OF that(5)] obtain c where c: "c \<in> set (ancestors (blocks p) b)"
      "getString t \<in> fst ` set (variables (blocks p ! c))"
      "BlockStatement_findVariable (blocks p) b (getString t) = Some (VarRef c (getString t))"
      by blast
    from A[OF that(1,2,3,4)] c(3)
    have "parseBaseMathExpr n p
            = Some (Inr (BaseMathExpr_Ref (VarRef c (getString t)) False), move p)" by simp
    with c(1,2) show ?thesis by blast
  qed
  have N: "\<exists>c\<in>set (ancestors (blocks p) b).
                getString (current p) \<in> fst ` set (variables (blocks p ! c)) \<and>
                parseAssignOrFunCall n p
                  = parseAssignStatement n (VarRef c (getString (current p))) p"
    if "getType (getToken p) \<noteq> T_OpenParen"
      "\<exists>c\<in>set (ancestors (blocks p) b).
          getString (current p) \<in> fst ` set (variables (blocks p ! c))"
  proof -
    from some[OF that(2)] obtain c where c: "c \<in> set (ancestors (blocks p) b)"
      "getString (current p) \<in> fst ` set (variables (blocks p ! c))"
      "BlockStatement_findVariable (blocks p) b (getString (current p))
         = Some (VarRef c (getString (current p)))"
      by blast
    from B[OF that(1)] c(3)
    have "parseAssignOrFunCall n p
            = parseAssignStatement n (VarRef c (getString (current p))) p" by simp
    with c(1,2) show ?thesis by blast
  qed
  show ?thesis
    apply (intro conjI impI)
    subgoal by (rule A)
    subgoal by (rule B)
    subgoal by (rule C)
    subgoal by (rule D)
    subgoal by (rule E)
    subgoal by (rule F)
    subgoal by (rule G)
    subgoal by (rule H)
    subgoal by (rule H')
    subgoal by (rule I)
    subgoal by (rule J)
    subgoal by (rule K)
    subgoal by (rule M)
    subgoal by (rule L)
    subgoal by (rule N)
    done
qed

text \<open>
  The witness, inside the nested block 1 whose parent, block 0, declares \<^verbatim>\<open>x\<close>: the reads
  \<^verbatim>\<open>x\<close> and \<^verbatim>\<open>-x\<close> yield the slot of block 0; the reads \<^verbatim>\<open>y\<close>, \<^verbatim>\<open>y[z]\<close>, \<^verbatim>\<open>-y\<close>, \<^verbatim>\<open>len(y)\<close> and
  \<^verbatim>\<open>x[y]\<close> and the assignment \<^verbatim>\<open>y = 1;\<close> fail with \<open>UndefinedVariable\<close> of \<^verbatim>\<open>y\<close>; \<^verbatim>\<open>y[z]\<close> fails
  on \<^verbatim>\<open>y\<close>, before the index is looked at.
\<close>

theorem reference_resolution_witness:
  "parseBaseMathExpr 0 (in_nested (tk T_Equal) [ident ''x'', tk T_Semicolon])
     = Some (Inr (BaseMathExpr_Ref (VarRef 0 ''x'') False),
             in_nested (ident ''x'') [tk T_Semicolon])
   \<and> parseBaseMathExpr 0 (in_nested (tk T_Equal) [ident ''y'', tk T_Semicolon])
     = Some (Inl (UndefinedVariable ''y''), in_nested (ident ''y'') [tk T_Semicolon])
   \<and> parseBaseMathExpr 0 (in_nested (tk T_Equal)
         [ident ''y'', tk T_OpenBracket, ident ''z'', tk T_CloseBracket, tk T_Semicolon])
     = Some (Inl (UndefinedVariable ''y''),
             in_nested (ident ''y'') [tk T_OpenBracket, ident ''z'', tk T_CloseBracket, tk T_Semicolon])
   \<and> parseBaseMathExpr 0 (in_nested (tk T_Equal) [tk T_Minus, ident ''y'', tk T_Semicolon])
     = Some (Inl (UndefinedVariable ''y''), in_nested (ident ''y'') [tk T_Semicolon])
   \<and> parseBaseMathExpr 0 (in_nested (tk T_Equal) [tk T_Minus, ident ''x'', tk T_Semicolon])
     = Some (Inr (BaseMathExpr_Ref (VarRef 0 ''x'') True), in_nested (ident ''x'') [tk T_Semicolon])
   \<and> parseBaseMathExpr 0 (in_nested (tk T_Equal)
         [tk K_Len, tk T_OpenParen, ident ''y'', tk T_CloseParen, tk T_Semicolon])
     = Some (Inl (UndefinedVariable ''y''),
             in_nested (ident ''y'') [tk T_CloseParen, tk T_Semicolon])
   \<and> parseAssignOrFunCall 0 (in_nested (ident ''y'') [tk T_Equal, num 1, tk T_Semicolon])
     = Some (Inl (UndefinedVariable ''y''),
             in_nested (ident ''y'') [tk T_Equal, num 1, tk T_Semicolon])
   \<and> parseOrExpr 1 (in_nested (tk T_Equal) [ident ''y'', tk T_Semicolon])
     = Some (Inl (UndefinedVariable ''y''), in_nested (ident ''y'') [tk T_Semicolon])
   \<and> parseBaseMathExpr 2 (in_nested (tk T_Equal)
         [ident ''x'', tk T_OpenBracket, ident ''y'', tk T_CloseBracket, tk T_Semicolon])
     = Some (Inl (UndefinedVariable ''y''),
             in_nested (ident ''y'') [tk T_CloseBracket, tk T_Semicolon])
   \<and> ancestors (blocks (in_nested (tk T_Equal) [])) 1 = [1, 0]
   \<and> BlockStatement_findVariable (blocks (in_nested (tk T_Equal) [])) 1 ''y'' = None
   \<and> BlockStatement_findVariable (blocks (in_nested (tk T_Equal) [])) 1 ''x''
       = Some (VarRef 0 ''x'')"
proof -
  note ev = in_nested_def ident_def tk_def num_def move_def getToken_def
    BlockStatement_findVariable.simps ancestors.simps
  have w1: "parseBaseMathExpr 0 (in_nested (tk T_Equal) [ident ''x'', tk T_Semicolon])
     = Some (Inr (BaseMathExpr_Ref (VarRef 0 ''x'') False),
             in_nested (ident ''x'') [tk T_Semicolon])"
    using reference_resolution[where p = "in_nested (tk T_Equal) [ident ''x'', tk T_Semicolon]" and b = 1 and t = "ident ''x''" and ts = "[tk T_Semicolon]" and n = 0,
        THEN conjunct1]
    by (simp add: ev)
  have w2: "parseBaseMathExpr 0 (in_nested (tk T_Equal) [ident ''y'', tk T_Semicolon])
     = Some (Inl (UndefinedVariable ''y''), in_nested (ident ''y'') [tk T_Semicolon])"
    using reference_resolution[where p = "in_nested (tk T_Equal) [ident ''y'', tk T_Semicolon]" and b = 1 and t = "ident ''y''" and ts = "[tk T_Semicolon]" and n = 0,
        THEN conjunct2, THEN conjunct2, THEN conjunct2, THEN conjunct2, THEN conjunct2, THEN conjunct2, THEN conjunct1]
    by (simp add: ev)
  have w3: "parseBaseMathExpr 0 (in_nested (tk T_Equal)
         [ident ''y'', tk T_OpenBracket, ident ''z'', tk T_CloseBracket, tk T_Semicolon])
     = Some (Inl (UndefinedVariable ''y''),
             in_nested (ident ''y'') [tk T_OpenBracket, ident ''z'', tk T_CloseBracket, tk T_Semicolon])"
    using reference_resolution[where p = "in_nested (tk T_Equal) [ident ''y'', tk T_OpenBracket, ident ''z'', tk T_CloseBracket, tk T_Semicolon]" and b = 1 and t = "ident ''y''"
        and ts = "[tk T_OpenBracket, ident ''z'', tk T_CloseBracket, tk T_Semicolon]" and n = 0,
        THEN conjunct2, THEN conjunct2, THEN conjunct2, THEN conjunct2, THEN conjunct2, THEN conjunct2, THEN conjunct1]
    by (simp add: ev)
  have w4: "parseBaseMathExpr 0 (in_nested (tk T_Equal) [tk T_Minus, ident ''y'', tk T_Semicolon])
     = Some (Inl (UndefinedVariable ''y''), in_nested (ident ''y'') [tk T_Semicolon])"
    using reference_resolution[where p = "in_nested (tk T_Equal) [tk T_Minus, ident ''y'', tk T_Semicolon]" and b = 1 and tm = "tk T_Minus" and t = "ident ''y''"
        and ts = "[tk T_Semicolon]" and n = 0,
        THEN conjunct2, THEN conjunct2, THEN conjunct2, THEN conjunct2, THEN conjunct2, THEN conjunct2, THEN conjunct2, THEN conjunct1]
    by (simp add: ev)
  have w5: "parseBaseMathExpr 0 (in_nested (tk T_Equal) [tk T_Minus, ident ''x'', tk T_Semicolon])
     = Some (Inr (BaseMathExpr_Ref (VarRef 0 ''x'') True), in_nested (ident ''x'') [tk T_Semicolon])"
    using reference_resolution[where p = "in_nested (tk T_Equal) [tk T_Minus, ident ''x'', tk T_Semicolon]" and b = 1 and tm = "tk T_Minus" and t = "ident ''x''"
        and ts = "[tk T_Semicolon]" and v = "VarRef 0 ''x''" and n = 0,
        THEN conjunct2, THEN conjunct2, THEN conjunct2, THEN conjunct2, THEN conjunct2, THEN conjunct2, THEN conjunct2, THEN conjunct2, THEN conjunct1]
    by (simp add: ev)
  have w6: "parseBaseMathExpr 0 (in_nested (tk T_Equal)
         [tk K_Len, tk T_OpenParen, ident ''y'', tk T_CloseParen, tk T_Semicolon])
     = Some (Inl (UndefinedVariable ''y''),
             in_nested (ident ''y'') [tk T_CloseParen, tk T_Semicolon])"
    using reference_resolution[where p = "in_nested (tk T_Equal) [tk K_Len, tk T_OpenParen, ident ''y'', tk T_CloseParen, tk T_Semicolon]" and b = 1 and ?t1.0 = "tk K_Len"
        and ?t2.0 = "tk T_OpenParen" and t = "ident ''y''"
        and ts = "[tk T_CloseParen, tk T_Semicolon]" and n = 0,
        THEN conjunct2, THEN conjunct2, THEN conjunct2, THEN conjunct2, THEN conjunct2, THEN conjunct2, THEN conjunct2, THEN conjunct2, THEN conjunct2, THEN conjunct1]
    by (simp add: ev)
  have w7: "parseAssignOrFunCall 0 (in_nested (ident ''y'') [tk T_Equal, num 1, tk T_Semicolon])
     = Some (Inl (UndefinedVariable ''y''),
             in_nested (ident ''y'') [tk T_Equal, num 1, tk T_Semicolon])"
    using reference_resolution[where p = "in_nested (ident ''y'') [tk T_Equal, num 1, tk T_Semicolon]" and b = 1 and n = 0,
        THEN conjunct2, THEN conjunct2, THEN conjunct2, THEN conjunct2, THEN conjunct2, THEN conjunct2, THEN conjunct2, THEN conjunct2, THEN conjunct2, THEN conjunct2, THEN conjunct1]
    by (simp add: ev)
  have w8: "parseOrExpr 1 (in_nested (tk T_Equal) [ident ''y'', tk T_Semicolon])
     = Some (Inl (UndefinedVariable ''y''), in_nested (ident ''y'') [tk T_Semicolon])"
    using reference_resolution[where p = "in_nested (tk T_Equal) [ident ''y'', tk T_Semicolon]"
        and b = 1 and n = 0 and e = "UndefinedVariable ''y''"
        and p' = "in_nested (ident ''y'') [tk T_Semicolon]",
        THEN conjunct2, THEN conjunct2, THEN conjunct2, THEN conjunct2, THEN conjunct2, THEN conjunct2, THEN conjunct2, THEN conjunct2, THEN conjunct2, THEN conjunct2, THEN conjunct2, THEN conjunct1] w2
    by (simp add: ev)
  have inner: "parseOrExpr 2 (in_nested (tk T_OpenBracket)
         [ident ''y'', tk T_CloseBracket, tk T_Semicolon])
     = Some (Inl (UndefinedVariable ''y''),
             in_nested (ident ''y'') [tk T_CloseBracket, tk T_Semicolon])"
    by code_simp
  have w9: "parseBaseMathExpr 2 (in_nested (tk T_Equal)
         [ident ''x'', tk T_OpenBracket, ident ''y'', tk T_CloseBracket, tk T_Semicolon])
     = Some (Inl (UndefinedVariable ''y''),
             in_nested (ident ''y'') [tk T_CloseBracket, tk T_Semicolon])"
    using reference_resolution[where p = "in_nested (tk T_Equal)
         [ident ''x'', tk T_OpenBracket, ident ''y'', tk T_CloseBracket, tk T_Semicolon]"
        and b = 1 and n = 2 and t = "ident ''x''" and ?t2.0 = "tk T_OpenBracket"
        and ts = "[ident ''y'', tk T_CloseBracket, tk T_Semicolon]"
        and e = "UndefinedVariable ''y''"
        and p' = "in_nested (ident ''y'') [tk T_CloseBracket, tk T_Semicolon]",
        THEN conjunct2, THEN conjunct2, THEN conjunct2, THEN conjunct2, THEN conjunct2, THEN conjunct2, THEN conjunct2, THEN conjunct2, THEN conjunct2, THEN conjunct2, THEN conjunct2, THEN conjunct2, THEN conjunct1] inner
    by (simp add: ev)
  have w10: "ancestors (blocks (in_nested (tk T_Equal) [])) 1 = [1, 0]"
    by (simp add: ev)
  have w11: "BlockStatement_findVariable (blocks (in_nested (tk T_Equal) [])) 1 ''y'' = None"
    using reference_resolution[where p = "in_nested (tk T_Equal) []" and b = 1 and x = "''y''",
        THEN conjunct2, THEN conjunct2, THEN conjunct2, THEN conjunct2, THEN conjunct1]
    by (simp add: ev)
  have w12: "BlockStatement_findVariable (blocks (in_nested (tk T_Equal) [])) 1 ''x''
       = Some (VarRef 0 ''x'')"
    using reference_resolution[where p = "in_nested (tk T_Equal) []" and b = 1 and x = "''x''"
        and q = 0, THEN conjunct2, THEN conjunct2, THEN conjunct2, THEN conjunct1]
    by (simp add: ev)
  from w1 w2 w3 w4 w5 w6 w7 w8 w9 w10 w11 w12 show ?thesis by blast
qed

text \<open>
  Claim C4. In \<^verbatim>\<open>append(a, c);\<close> each identifier is looked up along the parent chain of the
  current block right after it is consumed: when the first is not declared the parse fails
  with \<open>UndefinedVariable\<close> of it, when the second is not declared with \<open>UndefinedVariable\<close>
  of the second, and when both are declared the statement is built on the two slots.
\<close>

theorem parseAppendStatement_resolves:
  assumes "scr p = t1 # ta # t2 # tc # t3 # t4 # rest"
    and "map getType [t1, ta, t2, tc, t3, t4] =
           [T_OpenParen, I_Identifier, T_Comma, I_Identifier, T_CloseParen, T_Semicolon]"
    and "block p = Some b"
  shows "parseAppendStatement p =
     (case BlockStatement_findVariable (blocks p) b (getString ta) of
        None \<Rightarrow> Some (Inl (UndefinedVariable (getString ta)),
                      p\<lparr>scr := t2 # tc # t3 # t4 # rest, current := ta\<rparr>)
      | Some fromVar \<Rightarrow>
          (case BlockStatement_findVariable (blocks p) b (getString tc) of
             None \<Rightarrow> Some (Inl (UndefinedVariable (getString tc)),
                           p\<lparr>scr := t3 # t4 # rest, current := tc\<rparr>)
           | Some toVar \<Rightarrow> Some (Inr (AppendStatement fromVar toVar),
                           p\<lparr>scr := rest, current := t4\<rparr>)))"
  using assms unfolding parseAppendStatement_def
  by (simp add: token_simps monad_simps block_findVariable_def split: option.splits)

text \<open>The witness: \<^verbatim>\<open>append(x, y);\<close> where \<^verbatim>\<open>x\<close> is declared and \<^verbatim>\<open>y\<close> is not.\<close>

theorem parseAppendStatement_resolves_witness:
  "parseAppendStatement (in_nested (tk K_Append)
       [tk T_OpenParen, ident ''x'', tk T_Comma, ident ''y'', tk T_CloseParen, tk T_Semicolon])
     = Some (Inl (UndefinedVariable ''y''),
             in_nested (ident ''y'') [tk T_CloseParen, tk T_Semicolon])"
proof -
  let ?p = "in_nested (tk K_Append)
       [tk T_OpenParen, ident ''x'', tk T_Comma, ident ''y'', tk T_CloseParen, tk T_Semicolon]"
  have 1: "scr ?p = tk T_OpenParen # ident ''x'' # tk T_Comma # ident ''y'' # tk T_CloseParen
             # tk T_Semicolon # []"
    by (simp add: in_nested_def)
  have 2: "map getType [tk T_OpenParen, ident ''x'', tk T_Comma, ident ''y'', tk T_CloseParen,
             tk T_Semicolon]
           = [T_OpenParen, I_Identifier, T_Comma, I_Identifier, T_CloseParen, T_Semicolon]"
    by (simp add: tk_def ident_def)
  have 3: "block ?p = Some 1" by (simp add: in_nested_def)
  show ?thesis
    using parseAppendStatement_resolves[OF 1 2 3]
    by (simp add: in_nested_def ident_def BlockStatement_findVariable.simps)
qed

section \<open>The top-level loop\<close>

lemma parseProgram_stuck:
  "getType (getToken p) \<noteq> T_EOF \<Longrightarrow> getType (getToken p) \<noteq> K_Fun \<Longrightarrow> parseProgram n p = None"
proof (induction n)
  case 0
  show ?case by simp
next
  case (Suc n)
  have "accept K_Fun NOTHROW p = (Inr False, p)"
    using Suc.prems(2) by (simp add: accept_def NOTHROW_def)
  then show ?case
    using Suc by (simp add: andThen_Inr)
qed

text \<open>
  Claim C2 fails on the code. \<^verbatim>\<open>accept(K_Fun, NOTHROW)\<close> consumes nothing when the token is
  not \<^verbatim>\<open>fun\<close>, and the loop of \<^verbatim>\<open>parseProgram\<close> has no other branch: on the token stream
  \<^verbatim>\<open>;\<close> the loop tests the same token again and again. No amount of fuel makes
  \<open>parseProgram\<close> return on it.
\<close>

theorem parseProgram_never_returns:
  "parseProgram n (Parser_init [tk T_Semicolon] False) = None"
  by (rule parseProgram_stuck) (simp_all add: Parser_init_def getToken_def tk_def)

section \<open>Nested blocks\<close>

text \<open>
  Claim C8, as the code has it. For the statement \<^verbatim>\<open>{\<close>, a new block is created whose parent
  is the current block, and the loop of \<^verbatim>\<open>parseStmtBlock\<close> runs with the cursor on the new
  block. When the nested parse returns, the cursor is back on the block that was current
  before, which is the parent recorded in the new block. (When the nested parse throws, the
  assignment at the end of \<^verbatim>\<open>parseStmtBlock\<close> is not reached: see the counterexample.)
\<close>

theorem nested_block_cursor:
  "parseStmtBlock_switch (parseStmtBlock (Suc n)) m T_OpenBrace p =
     bind (parseStmtBlock_while_of (parseStmtBlock n) n (length (blocks p))
             (p\<lparr>blocks := blocks p @ [\<lparr>parent = block p, variables = [], statements = []\<rparr>],
                block := Some (length (blocks p))\<rparr>))
          (\<lambda>_ p2. block_addStatement (BlockStatement_Ref (length (blocks p))) p2)
   \<and> (parseStmtBlock_switch (parseStmtBlock n) m T_OpenBrace p = Some (Inr u, p') \<longrightarrow>
        block p' = block p \<and> length (blocks p) < length (blocks p') \<and>
        parent (blocks p' ! length (blocks p)) = block p)"
proof (rule conjI)
  show "parseStmtBlock_switch (parseStmtBlock (Suc n)) m T_OpenBrace p =
     bind (parseStmtBlock_while_of (parseStmtBlock n) n (length (blocks p))
             (p\<lparr>blocks := blocks p @ [\<lparr>parent = block p, variables = [], statements = []\<rparr>],
                block := Some (length (blocks p))\<rparr>))
          (\<lambda>_ p2. block_addStatement (BlockStatement_Ref (length (blocks p))) p2)"
    by (simp add: parseStmtBlock_switch_def new_BlockStatement_def)
next
  show "parseStmtBlock_switch (parseStmtBlock n) m T_OpenBrace p = Some (Inr u, p') \<longrightarrow>
        block p' = block p \<and> length (blocks p) < length (blocks p') \<and>
        parent (blocks p' ! length (blocks p)) = block p"
  proof (rule impI)
  assume a: "parseStmtBlock_switch (parseStmtBlock n) m T_OpenBrace p = Some (Inr u, p')"
  define nb where "nb = length (blocks p)"
  define p1 where
    "p1 = p\<lparr>blocks := blocks p @ [\<lparr>parent = block p, variables = [], statements = []\<rparr>]\<rparr>"
  have par: "parent (blocks p1 ! nb) = block p" and lt: "nb < length (blocks p1)"
    by (simp_all add: p1_def nb_def)
  from a have b: "bind (parseStmtBlock n nb p1)
                    (\<lambda>_ p2. block_addStatement (BlockStatement_Ref nb) p2) = Some (Inr u, p')"
    by (simp add: parseStmtBlock_switch_def new_BlockStatement_def nb_def p1_def)
  then obtain x p2 where body: "parseStmtBlock n nb p1 = Some (Inr x, p2)"
    and add: "block_addStatement (BlockStatement_Ref nb) p2 = Some (Inr u, p')"
    by (auto simp: bind_def split: option.splits sum.splits)
  from goodB_parseStmtBlock[of nb p1 n] body lt
  have e: "ext p1 p2" and c: "block p2 = parent (blocks p1 ! nb)"
    by (auto simp: goodB_def)
  from e lt have lt2: "nb < length (blocks p2)"
    and par2: "parent (blocks p2 ! nb) = parent (blocks p1 ! nb)"
    by (auto simp: ext_def)
  from add obtain cb where cb: "block p2 = Some cb"
    and p': "p' = p2\<lparr>blocks := BlockStatement_addStatement cb (BlockStatement_Ref nb) (blocks p2)\<rparr>"
    by (auto simp: block_addStatement_def split: option.splits)
  have "block p' = block p" using p' c par by simp
  moreover have "length (blocks p) < length (blocks p')"
    using p' lt2 by (simp add: BlockStatement_addStatement_def nb_def)
  moreover have "parent (blocks p' ! length (blocks p)) = block p"
    using p' par2 par
    by (simp add: BlockStatement_addStatement_def nth_update_parent nb_def)
  ultimately show "block p' = block p \<and> length (blocks p) < length (blocks p') \<and>
        parent (blocks p' ! length (blocks p)) = block p"
    by blast
  qed
qed

text \<open>The witness: \<^verbatim>\<open>{ var z; }\<close> inside block 1; the new block is block 2.\<close>

theorem nested_block_cursor_witness:
  "parseStmtBlock_switch (parseStmtBlock 5) 5 T_OpenBrace
     (in_nested (tk T_OpenBrace) [tk K_Var, ident ''z'', tk T_Semicolon, tk T_CloseBrace])
   = Some (Inr (),
       \<lparr>scr = [], current = tk T_CloseBrace, block = Some 1,
        blocks = [\<lparr>parent = None, variables = [(''x'', Var_default)], statements = []\<rparr>,
                  \<lparr>parent = Some 0, variables = [], statements = [BlockStatement_Ref 2]\<rparr>,
                  \<lparr>parent = Some 1, variables = [(''z'', Var_default)],
                   statements = [AssignStatement (VarRef 2 ''z'')
                                   (BaseMathExpr_Var Var_default False)]\<rparr>],
        program = [], bracket_uninit = False\<rparr>)
   \<and> block (in_nested (tk T_OpenBrace) [tk K_Var, ident ''z'', tk T_Semicolon, tk T_CloseBrace])
       = Some 1"
proof -
  have e: "parseStmtBlock_switch (parseStmtBlock 5) 5 T_OpenBrace
     (in_nested (tk T_OpenBrace) [tk K_Var, ident ''z'', tk T_Semicolon, tk T_CloseBrace])
   = Some (Inr (),
       \<lparr>scr = [], current = tk T_CloseBrace, block = Some 1,
        blocks = [\<lparr>parent = None, variables = [(''x'', Var_default)], statements = []\<rparr>,
                  \<lparr>parent = Some 0, variables = [], statements = [BlockStatement_Ref 2]\<rparr>,
                  \<lparr>parent = Some 1, variables = [(''z'', Var_default)],
                   statements = [AssignStatement (VarRef 2 ''z'')
                                   (BaseMathExpr_Var Var_default False)]\<rparr>],
        program = [], bracket_uninit = False\<rparr>)"
    by code_simp
  from nested_block_cursor[where n = 5 and m = 5, THEN conjunct2, THEN mp, OF e] e
  show ?thesis by simp
qed

text \<open>
  The claim as the spec states it ("regardless of how the nested parse completed") fails on
  \<^verbatim>\<open>fun f() { { y = 1; } }\<close>: the nested parse throws \<open>UndefinedVariable\<close>, and the cursor
  stays on the nested block 1, whose parent is block 0.
\<close>

theorem cursor_counterexample:
  "map_option fst (parseProgram 20 (Parser_init
     [tk K_Fun, ident ''f'', tk T_OpenParen, tk T_CloseParen, tk T_OpenBrace,
        tk T_OpenBrace, ident ''y'', tk T_Equal, num 1, tk T_Semicolon, tk T_CloseBrace,
      tk T_CloseBrace] False))
   = Some (Inl (UndefinedVariable ''y''))
  \<and> map_option (block \<circ> snd) (parseProgram 20 (Parser_init
     [tk K_Fun, ident ''f'', tk T_OpenParen, tk T_CloseParen, tk T_OpenBrace,
        tk T_OpenBrace, ident ''y'', tk T_Equal, num 1, tk T_Semicolon, tk T_CloseBrace,
      tk T_CloseBrace] False))
   = Some (Some 1)
  \<and> map_option (map parent \<circ> blocks \<circ> snd) (parseProgram 20 (Parser_init
     [tk K_Fun, ident ''f'', tk T_OpenParen, tk T_CloseParen, tk T_OpenBrace,
        tk T_OpenBrace, ident ''y'', tk T_Equal, num 1, tk T_Semicolon, tk T_CloseBrace,
      tk T_CloseBrace] False))
   = Some [None, Some 0]"
  by code_simp

section \<open>Functions and calls\<close>

lemma tk_simps:
  "getType (tk t) = t" "getType (ident s) = I_Identifier" "getString (ident s) = s"
  "getType (num i) = L_Numeric" "getInteger (num i) = i"
  by (simp_all add: tk_def ident_def num_def)

lemma parseArgs_while_params:
  assumes "scr p = concat (map (\<lambda>y. [tk T_Comma, ident y]) ys) @ tk T_CloseParen # rest"
    and "fblock fd < length (blocks p)"
  shows "\<exists>q. parseArgs_while fd p = (Inr (fd\<lparr>fparams := fparams fd @ ys\<rparr>), q) \<and>
             scr q = tk T_CloseParen # rest \<and> program q = program p \<and> block q = block p \<and>
             bracket_uninit q = bracket_uninit p \<and>
             blocks q = (blocks p)[fblock fd := (blocks p ! fblock fd)
                \<lparr>variables := variables (blocks p ! fblock fd) @ map (\<lambda>y. (y, Var_default)) ys\<rparr>]"
  using assms
proof (induction ys arbitrary: fd p)
  case Nil
  then show ?case
    by (subst parseArgs_while.simps) (simp add: token_simps tk_simps)
next
  case (Cons y ys)
  define fd' where "fd' = fd\<lparr>fparams := fparams fd @ [y]\<rparr>"
  define p' where "p' = p\<lparr>scr := concat (map (\<lambda>y. [tk T_Comma, ident y]) ys) @ tk T_CloseParen # rest,
      current := ident y,
      blocks := BlockStatement_addVariable (fblock fd) y Var_default (blocks p)\<rparr>"
  have step: "parseArgs_while fd p = parseArgs_while fd' p'"
    using Cons.prems(1)
    by (subst parseArgs_while.simps)
       (simp add: token_simps tk_simps addParam_def fd'_def p'_def)
  have "scr p' = concat (map (\<lambda>y. [tk T_Comma, ident y]) ys) @ tk T_CloseParen # rest"
    and "fblock fd' < length (blocks p')"
    using Cons.prems(2) by (simp_all add: p'_def fd'_def BlockStatement_addVariable_def)
  from Cons.IH[OF this] obtain q where
    q: "parseArgs_while fd' p' = (Inr (fd'\<lparr>fparams := fparams fd' @ ys\<rparr>), q)"
      "scr q = tk T_CloseParen # rest" "program q = program p'" "block q = block p'"
      "bracket_uninit q = bracket_uninit p'"
      "blocks q = (blocks p')[fblock fd' := (blocks p' ! fblock fd')
                \<lparr>variables := variables (blocks p' ! fblock fd') @ map (\<lambda>y. (y, Var_default)) ys\<rparr>]"
    by blast
  show ?case
    apply (rule exI[of _ q])
    using q Cons.prems(2)
    by (simp add: step fd'_def p'_def BlockStatement_addVariable_def)
qed


lemma parseArgs_params:
  assumes "scr p = param_tokens xs @ tk T_CloseParen # rest"
    and "fblock fd < length (blocks p)"
  shows "\<exists>q. parseArgs fd p = (Inr (fd\<lparr>fparams := fparams fd @ xs\<rparr>), q) \<and>
             scr q = rest \<and> program q = program p \<and>
             blocks q = (blocks p)[fblock fd := (blocks p ! fblock fd)
                \<lparr>variables := variables (blocks p ! fblock fd) @ map (\<lambda>y. (y, Var_default)) xs\<rparr>]"
proof (cases xs)
  case Nil
  with assms show ?thesis
    unfolding parseArgs_def
    by (simp add: param_tokens_def token_simps tk_simps)
next
  case (Cons x ys)
  define fd' where "fd' = fd\<lparr>fparams := fparams fd @ [x]\<rparr>"
  define p' where "p' = p\<lparr>scr := concat (map (\<lambda>y. [tk T_Comma, ident y]) ys) @ tk T_CloseParen # rest,
      current := ident x,
      blocks := BlockStatement_addVariable (fblock fd) x Var_default (blocks p)\<rparr>"
  have first: "accept I_Identifier NOTHROW p = (Inr True, move p)"
    using assms(1) by (simp add: Cons param_tokens_def token_simps tk_simps)
  have add: "addParam (getString (current (move p))) fd (move p) = (fd', p')"
    using assms(1) by (simp add: Cons param_tokens_def token_simps tk_simps addParam_def fd'_def p'_def)
  have "scr p' = concat (map (\<lambda>y. [tk T_Comma, ident y]) ys) @ tk T_CloseParen # rest"
    and "fblock fd' < length (blocks p')"
    using assms(2) by (simp_all add: p'_def fd'_def BlockStatement_addVariable_def)
  from parseArgs_while_params[OF this] obtain q where
    q: "parseArgs_while fd' p' = (Inr (fd'\<lparr>fparams := fparams fd' @ ys\<rparr>), q)"
      "scr q = tk T_CloseParen # rest" "program q = program p'"
      "blocks q = (blocks p')[fblock fd' := (blocks p' ! fblock fd')
                \<lparr>variables := variables (blocks p' ! fblock fd') @ map (\<lambda>y. (y, Var_default)) ys\<rparr>]"
    by blast
  have close: "accept T_CloseParen THROW q = (Inr True, move q)"
    using q(2) by (simp add: token_simps tk_simps)
  have res: "parseArgs fd p = (Inr (fd'\<lparr>fparams := fparams fd' @ ys\<rparr>), move q)"
    unfolding parseArgs_def by (simp add: first add q(1) close)
  show ?thesis
    apply (rule exI[of _ "move q"])
    using res q(2,3,4) assms(2)
    by (simp add: Cons fd'_def p'_def move_def BlockStatement_addVariable_def)
qed

lemma parseFunction_header:
  assumes "scr p = header_tokens f xs @ rest"
  shows "\<exists>q. parseFunction n p = parseStmtBlock n (length (blocks p)) q \<and> scr q = rest \<and>
           program q = AList.update f \<lparr>fname = f, fparams = xs, fblock = length (blocks p)\<rparr>
                         (program p) \<and>
           blocks q = blocks p @ [\<lparr>parent = None, variables = map (\<lambda>x. (x, Var_default)) xs,
                                   statements = []\<rparr>]"
proof -
  define fd0 where "fd0 = \<lparr>fname = f, fparams = [], fblock = length (blocks p)\<rparr>"
  define p2 where "p2 = (move p)\<lparr>blocks := blocks p @ [\<lparr>parent = None, variables = [], statements = []\<rparr>]\<rparr>"
  have a1: "accept I_Identifier THROW p = (Inr True, move p)"
    using assms by (simp add: header_tokens_def token_simps tk_simps)
  have new: "new_FunctionDefinition (getString (current (move p))) (move p) = (fd0, p2)"
    using assms
    by (simp add: header_tokens_def new_FunctionDefinition_def new_BlockStatement_def
        move_def getToken_def tk_simps fd0_def p2_def)
  have a3: "accept T_OpenParen THROW p2 = (Inr True, move p2)"
    using assms by (simp add: header_tokens_def token_simps tk_simps p2_def)
  have "scr (move p2) = param_tokens xs @ tk T_CloseParen # (tk T_OpenBrace # rest)"
    and "fblock fd0 < length (blocks (move p2))"
    using assms by (simp_all add: header_tokens_def move_def getToken_def p2_def fd0_def)
  from parseArgs_params[OF this] obtain q4 where
    q4: "parseArgs fd0 (move p2) = (Inr (fd0\<lparr>fparams := fparams fd0 @ xs\<rparr>), q4)"
      "scr q4 = tk T_OpenBrace # rest" "program q4 = program (move p2)"
      "blocks q4 = (blocks (move p2))[fblock fd0 := (blocks (move p2) ! fblock fd0)
         \<lparr>variables := variables (blocks (move p2) ! fblock fd0) @ map (\<lambda>y. (y, Var_default)) xs\<rparr>]"
    by blast
  define fd where "fd = fd0\<lparr>fparams := fparams fd0 @ xs\<rparr>"
  have a5: "accept T_OpenBrace THROW (addFunction fd q4) = (Inr True, move (addFunction fd q4))"
    using q4(2) by (simp add: token_simps tk_simps addFunction_def)
  have res: "parseFunction n p = parseStmtBlock n (fblock fd) (move (addFunction fd q4))"
    unfolding parseFunction_def
    by (simp add: a1 new a3 q4(1) fd_def[symmetric] a5 monad_simps Let_def)
  show ?thesis
    apply (rule exI[of _ "move (addFunction fd q4)"])
    using res q4(2,3,4)
    by (simp add: fd_def fd0_def p2_def move_def addFunction_def)
qed

text \<open>
  Claim C3. After the header \<^verbatim>\<open>f ( xs ) {\<close>, \<^verbatim>\<open>parseFunction\<close> parses the body in a state
  whose function table already maps \<^verbatim>\<open>f\<close> to the definition with the parameters \<open>xs\<close> (and
  is otherwise the table from before). A fault \<open>UndefinedFunction h\<close> of the whole function
  never names \<^verbatim>\<open>f\<close> itself, only a function that was not in the table before. A call
  fails with \<open>UndefinedFunction\<close> of the called name exactly when the name is not in the
  table at the call, which is the case of a function defined later in the source.
\<close>

theorem function_registered_before_body:
  assumes "scr p = header_tokens f xs @ rest"
  shows "(\<exists>q. parseFunction n p = parseStmtBlock n (length (blocks p)) q \<and> scr q = rest \<and>
            findFunction (program q) f
              = Some \<lparr>fname = f, fparams = xs, fblock = length (blocks p)\<rparr> \<and>
            (\<forall>g. g \<noteq> f \<longrightarrow> findFunction (program q) g = findFunction (program p) g))
       \<and> (parseFunction n p = Some (Inl (UndefinedFunction h), p') \<longrightarrow>
            h \<noteq> f \<and> \<not> existFunction (program p) h)
       \<and> (\<not> existFunction (program p0) g \<longrightarrow>
            parseFunCall n g p0 = Some (Inl (UndefinedFunction g), p0))
       \<and> (existFunction (program p0) g \<longrightarrow>
            parseFunCall n g p0 \<noteq> Some (Inl (UndefinedFunction g), p1))"
proof -
  from parseFunction_header[OF assms, of n] obtain q where
    q: "parseFunction n p = parseStmtBlock n (length (blocks p)) q" "scr q = rest"
      "program q = AList.update f \<lparr>fname = f, fparams = xs, fblock = length (blocks p)\<rparr>
                         (program p)"
    by blast
  have f1: "findFunction (program q) f
              = Some \<lparr>fname = f, fparams = xs, fblock = length (blocks p)\<rparr>"
    and f2: "\<And>g. g \<noteq> f \<Longrightarrow> findFunction (program q) g = findFunction (program p) g"
    by (simp_all add: q(3) findFunction_def update_conv')
  have A: "\<exists>q. parseFunction n p = parseStmtBlock n (length (blocks p)) q \<and> scr q = rest \<and>
            findFunction (program q) f
              = Some \<lparr>fname = f, fparams = xs, fblock = length (blocks p)\<rparr> \<and>
            (\<forall>g. g \<noteq> f \<longrightarrow> findFunction (program q) g = findFunction (program p) g)"
    using q(1,2) f1 f2 by blast
  have B: "h \<noteq> f \<and> \<not> existFunction (program p) h"
    if "parseFunction n p = Some (Inl (UndefinedFunction h), p')"
  proof -
    from that q(1) goodB_parseStmtBlock[of "length (blocks p)" q n]
    have "\<not> existFunction (program q) h" by (simp add: goodB_def)
    then have n: "findFunction (program q) h = None" by (simp add: existFunction_def findFunction_def)
    with f1 have "h \<noteq> f" by auto
    with n f2[of h] show ?thesis by (simp add: existFunction_def findFunction_def)
  qed
  have C: "parseFunCall n g p0 = Some (Inl (UndefinedFunction g), p0)"
    if "\<not> existFunction (program p0) g"
    using that by (simp add: parseFunCall_def parseFunCall_of_def throw_def)
  have D: "parseFunCall n g p0 \<noteq> Some (Inl (UndefinedFunction g), p1)"
    if "existFunction (program p0) g"
    using that good_parseFunCall[of p0 n g] by (auto simp: good_def inv_expr_def)
  from A B C D show ?thesis by blast
qed

text \<open>
  The witness: the body of \<^verbatim>\<open>fun f() { g(); }\<close> fails on the call of the later \<^verbatim>\<open>g\<close>; the body
  of \<^verbatim>\<open>fun f() { f(); }\<close> parses.
\<close>

theorem function_registered_before_body_witness:
  "parseFunction 10 (Parser_init (header_tokens ''f'' [] @
       [ident ''g'', tk T_OpenParen, tk T_CloseParen, tk T_Semicolon, tk T_CloseBrace]) False)
     = Some (Inl (UndefinedFunction ''g''),
         \<lparr>scr = [tk T_CloseParen, tk T_Semicolon, tk T_CloseBrace], current = tk T_OpenParen,
          block = Some 0,
          blocks = [\<lparr>parent = None, variables = [], statements = []\<rparr>],
          program = [(''f'', \<lparr>fname = ''f'', fparams = [], fblock = 0\<rparr>)],
          bracket_uninit = False\<rparr>)
   \<and> ''g'' \<noteq> ''f'' \<and> \<not> existFunction [] ''g''
   \<and> map_option fst (parseFunction 10 (Parser_init (header_tokens ''f'' [] @
       [ident ''f'', tk T_OpenParen, tk T_CloseParen, tk T_Semicolon, tk T_CloseBrace]) False))
     = Some (Inr ())"
proof -
  let ?p = "Parser_init (header_tokens ''f'' [] @
       [ident ''g'', tk T_OpenParen, tk T_CloseParen, tk T_Semicolon, tk T_CloseBrace]) False"
  have h: "scr ?p = header_tokens ''f'' [] @
       [ident ''g'', tk T_OpenParen, tk T_CloseParen, tk T_Semicolon, tk T_CloseBrace]"
    by (simp add: Parser_init_def)
  have e: "parseFunction 10 ?p
     = Some (Inl (UndefinedFunction ''g''),
         \<lparr>scr = [tk T_CloseParen, tk T_Semicolon, tk T_CloseBrace], current = tk T_OpenParen,
          block = Some 0,
          blocks = [\<lparr>parent = None, variables = [], statements = []\<rparr>],
          program = [(''f'', \<lparr>fname = ''f'', fparams = [], fblock = 0\<rparr>)],
          bracket_uninit = False\<rparr>)"
    by code_simp
  have r: "map_option fst (parseFunction 10 (Parser_init (header_tokens ''f'' [] @
       [ident ''f'', tk T_OpenParen, tk T_CloseParen, tk T_Semicolon, tk T_CloseBrace]) False))
     = Some (Inr ())"
    by code_simp
  from function_registered_before_body[OF h, THEN conjunct2, THEN conjunct1, THEN mp, OF e] e r
  show ?thesis by (simp add: Parser_init_def)
qed

text \<open>
  The argument loop of \<^verbatim>\<open>parseFunCall\<close> returns exactly the expressions that the tokens
  supply, all of them and in order, given fuel for as many arguments; and a list of numbers
  between commas supplies one argument for each number.
\<close>

lemma supplies_arguments_Cons:
  "supplies_arguments n p (e # es) p' \<Longrightarrow>
     \<exists>q. parseOrExpr n p = Some (Inr e, q) \<and>
         (if es = [] then getType (getToken q) = T_CloseParen \<and> p' = move q
          else getType (getToken q) = T_Comma \<and> supplies_arguments n (move q) es p')"
proof (cases "parseOrExpr n p")
  case None
  assume "supplies_arguments n p (e # es) p'"
  with None show ?thesis by simp
next
  case (Some a)
  assume s: "supplies_arguments n p (e # es) p'"
  obtain r q where a: "a = (r, q)" by (cases a)
  show ?thesis
  proof (cases r)
    case (Inl err)
    with s Some a show ?thesis by simp
  next
    case (Inr e')
    with s Some a show ?thesis by (intro exI[of _ q]) simp
  qed
qed

lemma parseOrExpr_at_close:
  assumes "getType (getToken p) = T_CloseParen"
  shows "parseOrExpr n p \<noteq> Some (Inr e, q)"
proof (cases n)
  case 0
  then show ?thesis by simp
next
  case (Suc m)
  have "parseBaseMathExpr_of (parseOrExpr m) m p = Some (Inl UnrecognizedExpression, p)"
    using assms
    by (simp add: parseBaseMathExpr_of_def accept_def accept1_def NOTHROW_def monad_simps)
  moreover have "accept1 T_Exclamation p = (Inr False, p)"
    using assms by (simp add: accept_def accept1_def NOTHROW_def)
  ultimately show ?thesis
    by (simp add: Suc parseOrExpr_of_def parseAndExpr_of_def parseRelExpr_of_def
        parseBaseLogicExpr_of_def parseAddExpr_of_def parseMultExpr_of_def monad_simps)
qed

lemma parseFunCall_while_supplies:
  assumes "if es = [] then getType (getToken q) = T_CloseParen \<and> p' = move q
           else getType (getToken q) = T_Comma \<and> supplies_arguments n (move q) es p'"
    and "length es < m"
  shows "parseFunCall_while_of (parseOrExpr n) m acc q = Some (Inr (acc @ es), p')"
  using assms
proof (induction es arbitrary: q acc m)
  case Nil
  then obtain m' where m: "m = Suc m'" by (cases m) auto
  from Nil have "accept T_CloseParen NOTHROW q = (Inr True, move q)" "p' = move q"
    by (simp_all add: accept_def)
  then show ?case by (simp add: m monad_simps)
next
  case (Cons e es)
  then obtain m' where m: "m = Suc m'" and l: "length es < m'" by (cases m) auto
  from Cons.prems(1) have c: "getType (getToken q) = T_Comma"
    and s: "supplies_arguments n (move q) (e # es) p'" by simp_all
  from supplies_arguments_Cons[OF s] obtain q' where
    e: "parseOrExpr n (move q) = Some (Inr e, q')"
    and r: "if es = [] then getType (getToken q') = T_CloseParen \<and> p' = move q'
          else getType (getToken q') = T_Comma \<and> supplies_arguments n (move q') es p'"
    by blast
  have a: "accept T_CloseParen NOTHROW q = (Inr False, q)"
    "accept T_Comma THROW q = (Inr True, move q)"
    using c by (simp_all add: accept_def NOTHROW_def)
  show ?case
    using Cons.IH[OF r l, of "acc @ [e]"]
    by (simp add: m a e monad_simps)
qed

lemma parseFunCall_args_supplies:
  assumes "supplies_arguments n p es p'" and "length es \<le> n"
  shows "parseFunCall_args n p = Some (Inr es, p')"
proof (cases es)
  case Nil
  with assms show ?thesis by simp
next
  case (Cons e es')
  from supplies_arguments_Cons[OF assms(1)[unfolded Cons]] obtain q where
    e: "parseOrExpr n p = Some (Inr e, q)"
    and r: "if es' = [] then getType (getToken q) = T_CloseParen \<and> p' = move q
          else getType (getToken q) = T_Comma \<and> supplies_arguments n (move q) es' p'"
    by blast
  have "getType (getToken p) \<noteq> T_CloseParen"
    using parseOrExpr_at_close[of p n e q] e by blast
  then have a: "accept T_CloseParen NOTHROW p = (Inr False, p)"
    by (simp add: accept_def NOTHROW_def)
  have l: "length es' < n" using assms(2) Cons by simp
  show ?thesis
    using parseFunCall_while_supplies[OF r l, of "[e]"]
    by (simp add: parseFunCall_args_def parseFunCall_args_of_def a e monad_simps Cons)
qed

lemma parseOrExpr_numeral:
  assumes "scr p = t # t' # ts" and "getType t = L_Numeric"
    and "getType t' = T_Comma \<or> getType t' = T_CloseParen"
  shows "parseOrExpr (Suc (Suc m)) p
           = Some (Inr (OrExpr_of_primary (lit (getInteger t))), p\<lparr>scr := t' # ts, current := t\<rparr>)"
proof -
  have n: "relOp (getType t') = None" "addOp (getType t') = None" "mulOp (getType t') = None"
    "getType t' \<noteq> T_Bar2" "getType t' \<noteq> T_Ampersand2"
    using assms(3) by (auto simp: relOp_def addOp_def mulOp_def)
  define q where "q = p\<lparr>scr := t' # ts, current := t\<rparr>"
  have q: "getToken q = t'" "nextToken q = t'" by (simp_all add: q_def getToken_def nextToken_def)
  have b: "parseBaseMathExpr_of (parseOrExpr (Suc m)) (Suc m) p
             = Some (Inr (lit (getInteger t)), q)"
    using assms(1,2)
    by (simp add: parseBaseMathExpr_of_def token_simps monad_simps lit_def q_def)
  have mu: "parseMultExpr_of (parseOrExpr (Suc m)) (Suc m) p
             = Some (Inr (MultiExpr (lit (getInteger t)) []), q)"
    by (simp add: parseMultExpr_of_def b monad_simps q n)
  have ad: "parseAddExpr_of (parseOrExpr (Suc m)) (Suc m) p
             = Some (Inr (AddExpr (MultiExpr (lit (getInteger t)) []) []), q)"
    by (simp add: parseAddExpr_of_def mu monad_simps q n)
  have e: "accept1 T_Exclamation p = (Inr False, p)"
    using assms(1,2) by (simp add: accept1_def accept_def getToken_def NOTHROW_def)
  have bl: "parseBaseLogicExpr_of (parseOrExpr (Suc m)) (Suc m) p
             = Some (Inr (BaseLogicExpr (AddExpr (MultiExpr (lit (getInteger t)) []) []) False), q)"
    by (simp add: parseBaseLogicExpr_of_def e ad monad_simps)
  have re: "parseRelExpr_of (parseOrExpr (Suc m)) (Suc m) p
             = Some (Inr (RelationExpr (BaseLogicExpr (AddExpr (MultiExpr (lit (getInteger t)) []) []) False) None), q)"
    by (simp add: parseRelExpr_of_def bl monad_simps q n)
  have a1: "accept T_Ampersand2 NOTHROW q = (Inr False, q)" "accept T_Bar2 NOTHROW q = (Inr False, q)"
    using n by (simp_all add: accept_def q NOTHROW_def)
  have an: "parseAndExpr_of (parseOrExpr (Suc m)) (Suc m) p
             = Some (Inr (AndExpr [RelationExpr (BaseLogicExpr (AddExpr (MultiExpr (lit (getInteger t)) []) []) False) None]), q)"
    by (simp add: parseAndExpr_of_def re monad_simps a1)
  show ?thesis
    by (simp add: parseOrExpr_of_def an monad_simps a1 OrExpr_of_primary_def q_def[symmetric])
qed

lemma supplies_arguments_numerals:
  assumes "scr p = arg_tokens ns @ tk T_CloseParen # rest" and "ns \<noteq> []" and "2 \<le> n"
  shows "supplies_arguments n p (map (\<lambda>i. OrExpr_of_primary (lit i)) ns)
           (p\<lparr>scr := rest, current := tk T_CloseParen\<rparr>)"
  using assms(1,2)
proof (induction ns arbitrary: p)
  case Nil
  then show ?case by simp
next
  case (Cons i js)
  from assms(3) obtain m where n: "n = Suc (Suc m)" by (cases n; cases "n - 1") auto
  show ?case
  proof (cases js)
    case Nil
    with Cons.prems have s: "scr p = num i # tk T_CloseParen # rest"
      by (simp add: arg_tokens_def)
    have "parseOrExpr n p = Some (Inr (OrExpr_of_primary (lit i)),
             p\<lparr>scr := tk T_CloseParen # rest, current := num i\<rparr>)"
      using parseOrExpr_numeral[OF s, of m] by (simp add: n tk_simps)
    then show ?thesis
      by (simp add: Nil getToken_def move_def tk_simps)
  next
    case (Cons j ks)
    define q where "q = p\<lparr>scr := tk T_Comma # arg_tokens js @ tk T_CloseParen # rest, current := num i\<rparr>"
    from Cons Cons.prems have s: "scr p = num i # tk T_Comma # (arg_tokens js @ tk T_CloseParen # rest)"
      by (simp add: arg_tokens_def)
    have e: "parseOrExpr n p = Some (Inr (OrExpr_of_primary (lit i)), q)"
      using parseOrExpr_numeral[OF s, of m] by (simp add: n tk_simps q_def)
    have "scr (move q) = arg_tokens js @ tk T_CloseParen # rest" "js \<noteq> []"
      using Cons by (simp_all add: q_def move_def getToken_def)
    from Cons.IH[OF this]
    have "supplies_arguments n (move q) (map (\<lambda>i. OrExpr_of_primary (lit i)) js)
            ((move q)\<lparr>scr := rest, current := tk T_CloseParen\<rparr>)" .
    moreover have "(move q)\<lparr>scr := rest, current := tk T_CloseParen\<rparr>
                     = p\<lparr>scr := rest, current := tk T_CloseParen\<rparr>"
      by (simp add: q_def move_def)
    ultimately have tail: "supplies_arguments n (move q)
        (map (\<lambda>i. OrExpr_of_primary (lit i)) js) (p\<lparr>scr := rest, current := tk T_CloseParen\<rparr>)"
      by simp
    have gq: "getType (getToken q) = T_Comma" by (simp add: q_def getToken_def tk_simps)
    show ?thesis
      using \<open>js \<noteq> []\<close> by (simp add: e tail gq)
  qed
qed

text \<open>
  Claim C5. At a call of a function that is in the table, with \<open>p\<close> the parser after the
  opening parenthesis:
  \<^item> on \<^verbatim>\<open>)\<close> the call has no argument: it is returned when the function has no parameter
    and fails with \<open>ArityMismatch\<close> otherwise;
  \<^item> when the tokens supply the argument expressions \<open>es\<close>, whatever these expressions are,
    the parse returns (given fuel for \<open>length es\<close> arguments): the call on exactly \<open>es\<close> when
    \<open>length es\<close> is the number of parameters of the definition, the fault \<open>ArityMismatch\<close>
    when it is not;
  \<^item> in particular on the tokens \<^verbatim>\<open>n , n , ... )\<close> of any length, the call has one argument
    for each number, and fails with \<open>ArityMismatch\<close> unless there are as many numbers as
    parameters.
\<close>

theorem call_arity:
  assumes "findFunction (program p) f = Some fd"
  shows "(getType (getToken p) = T_CloseParen \<longrightarrow>
            parseFunCall n f p =
              Some (if fparams fd = [] then Inr (FunctionCall f []) else Inl ArityMismatch,
                    move p))
       \<and> (supplies_arguments n p es p' \<longrightarrow> length es \<le> n \<longrightarrow>
            parseFunCall n f p =
              Some (if length es = length (fparams fd) then Inr (FunctionCall f es)
                    else Inl ArityMismatch, p'))
       \<and> (scr p = arg_tokens ns @ tk T_CloseParen # rest \<longrightarrow> ns \<noteq> [] \<longrightarrow>
            2 \<le> n \<longrightarrow> length ns \<le> n \<longrightarrow>
            parseFunCall n f p =
              Some (if length ns = length (fparams fd)
                    then Inr (FunctionCall f (map (\<lambda>i. OrExpr_of_primary (lit i)) ns))
                    else Inl ArityMismatch,
                    p\<lparr>scr := rest, current := tk T_CloseParen\<rparr>))"
proof -
  have call: "parseFunCall n f p =
      bind (parseFunCall_args n p) (\<lambda>args p1.
            if FunctionDefinition_size fd \<noteq> length args then throw ArityMismatch p1
            else ret (FunctionCall f args) p1)"
    using assms
    by (simp add: parseFunCall_def parseFunCall_of_def parseFunCall_args_def existFunction_def
        findFunction_def)
  have A: "parseFunCall n f p =
              Some (if fparams fd = [] then Inr (FunctionCall f []) else Inl ArityMismatch,
                    move p)"
    if "getType (getToken p) = T_CloseParen"
  proof -
    from that have "accept T_CloseParen NOTHROW p = (Inr True, move p)"
      by (simp add: accept_def)
    then have "parseFunCall_args n p = Some (Inr [], move p)"
      by (simp add: parseFunCall_args_def parseFunCall_args_of_def monad_simps)
    then show ?thesis
      by (simp add: call monad_simps FunctionDefinition_size_def)
  qed
  have B: "parseFunCall n f p =
              Some (if length es = length (fparams fd) then Inr (FunctionCall f es)
                    else Inl ArityMismatch, p')"
    if "supplies_arguments n p es p'" "length es \<le> n" for es p'
    using parseFunCall_args_supplies[OF that]
    by (auto simp add: call monad_simps FunctionDefinition_size_def)
  have C: "parseFunCall n f p =
              Some (if length ns = length (fparams fd)
                    then Inr (FunctionCall f (map (\<lambda>i. OrExpr_of_primary (lit i)) ns))
                    else Inl ArityMismatch,
                    p\<lparr>scr := rest, current := tk T_CloseParen\<rparr>)"
    if "scr p = arg_tokens ns @ tk T_CloseParen # rest" "ns \<noteq> []" "2 \<le> n" "length ns \<le> n"
    using B[OF supplies_arguments_numerals[OF that(1,2,3)]] that(4) by simp
  from A B C show ?thesis by blast
qed

text \<open>
  The witness: \<^verbatim>\<open>f(1 + 2 * 3, (x))\<close> parses when \<^verbatim>\<open>f\<close> has two parameters and fails with
  \<open>ArityMismatch\<close> when it has one; \<^verbatim>\<open>f(1, 2, 3)\<close> fails with \<open>ArityMismatch\<close> when \<^verbatim>\<open>f\<close> has
  two parameters; \<^verbatim>\<open>f()\<close> parses when \<^verbatim>\<open>f\<close> has none.
\<close>

theorem call_arity_witness:
  "parseFunCall 10 ''f'' (in_scope [''x''] [(''f'', \<lparr>fname = ''f'', fparams = [''a'', ''b''], fblock = 1\<rparr>)]
       [num 1, tk T_Plus, num 2, tk T_Asterisk, num 3, tk T_Comma,
        tk T_OpenParen, ident ''x'', tk T_CloseParen, tk T_CloseParen, tk T_Semicolon])
     = Some (Inr (FunctionCall ''f'' [OrExpr [AndExpr [RelationExpr (BaseLogicExpr
             (AddExpr (MultiExpr (lit 1) []) [(Plus, MultiExpr (lit 2) [(Multiply, lit 3)])])
             False) None]],
           OrExpr_of_primary (BaseMathExpr_Expr
             (OrExpr_of_primary (BaseMathExpr_Ref (VarRef 0 ''x'') False)) False)]),
         (in_scope [''x''] [(''f'', \<lparr>fname = ''f'', fparams = [''a'', ''b''], fblock = 1\<rparr>)] [tk T_Semicolon])\<lparr>current := tk T_CloseParen\<rparr>)
   \<and> parseFunCall 10 ''f'' (in_scope [''x''] [(''f'', \<lparr>fname = ''f'', fparams = [''a''], fblock = 1\<rparr>)]
       [num 1, tk T_Plus, num 2, tk T_Asterisk, num 3, tk T_Comma,
        tk T_OpenParen, ident ''x'', tk T_CloseParen, tk T_CloseParen, tk T_Semicolon])
     = Some (Inl ArityMismatch,
         (in_scope [''x''] [(''f'', \<lparr>fname = ''f'', fparams = [''a''], fblock = 1\<rparr>)] [tk T_Semicolon])\<lparr>current := tk T_CloseParen\<rparr>)
   \<and> parseFunCall 3 ''f'' (in_scope [] [(''f'', \<lparr>fname = ''f'', fparams = [''a'', ''b''], fblock = 1\<rparr>)]
       [num 1, tk T_Comma, num 2, tk T_Comma, num 3, tk T_CloseParen, tk T_Semicolon])
     = Some (Inl ArityMismatch,
         (in_scope [] [(''f'', \<lparr>fname = ''f'', fparams = [''a'', ''b''], fblock = 1\<rparr>)] [tk T_Semicolon])\<lparr>current := tk T_CloseParen\<rparr>)
   \<and> parseFunCall 0 ''f'' (in_scope [] [(''f'', \<lparr>fname = ''f'', fparams = [], fblock = 1\<rparr>)]
       [tk T_CloseParen, tk T_Semicolon])
     = Some (Inr (FunctionCall ''f'' []),
         (in_scope [] [(''f'', \<lparr>fname = ''f'', fparams = [], fblock = 1\<rparr>)] [tk T_Semicolon])\<lparr>current := tk T_CloseParen\<rparr>)"
proof -
  have f2: "findFunction (program (in_scope [''x''] [(''f'', \<lparr>fname = ''f'', fparams = [''a'', ''b''], fblock = 1\<rparr>)]
       [num 1, tk T_Plus, num 2, tk T_Asterisk, num 3, tk T_Comma,
        tk T_OpenParen, ident ''x'', tk T_CloseParen, tk T_CloseParen, tk T_Semicolon])) ''f''
     = Some \<lparr>fname = ''f'', fparams = [''a'', ''b''], fblock = 1\<rparr>"
    by (simp add: in_scope_def findFunction_def)
  have s2: "supplies_arguments 10 (in_scope [''x''] [(''f'', \<lparr>fname = ''f'', fparams = [''a'', ''b''], fblock = 1\<rparr>)]
       [num 1, tk T_Plus, num 2, tk T_Asterisk, num 3, tk T_Comma,
        tk T_OpenParen, ident ''x'', tk T_CloseParen, tk T_CloseParen, tk T_Semicolon])
       [OrExpr [AndExpr [RelationExpr (BaseLogicExpr
             (AddExpr (MultiExpr (lit 1) []) [(Plus, MultiExpr (lit 2) [(Multiply, lit 3)])])
             False) None]],
           OrExpr_of_primary (BaseMathExpr_Expr
             (OrExpr_of_primary (BaseMathExpr_Ref (VarRef 0 ''x'') False)) False)]
       ((in_scope [''x''] [(''f'', \<lparr>fname = ''f'', fparams = [''a'', ''b''], fblock = 1\<rparr>)] [tk T_Semicolon])\<lparr>current := tk T_CloseParen\<rparr>)"
    by code_simp
  have f1: "findFunction (program (in_scope [''x''] [(''f'', \<lparr>fname = ''f'', fparams = [''a''], fblock = 1\<rparr>)]
       [num 1, tk T_Plus, num 2, tk T_Asterisk, num 3, tk T_Comma,
        tk T_OpenParen, ident ''x'', tk T_CloseParen, tk T_CloseParen, tk T_Semicolon])) ''f''
     = Some \<lparr>fname = ''f'', fparams = [''a''], fblock = 1\<rparr>"
    by (simp add: in_scope_def findFunction_def)
  have s1: "supplies_arguments 10 (in_scope [''x''] [(''f'', \<lparr>fname = ''f'', fparams = [''a''], fblock = 1\<rparr>)]
       [num 1, tk T_Plus, num 2, tk T_Asterisk, num 3, tk T_Comma,
        tk T_OpenParen, ident ''x'', tk T_CloseParen, tk T_CloseParen, tk T_Semicolon])
       [OrExpr [AndExpr [RelationExpr (BaseLogicExpr
             (AddExpr (MultiExpr (lit 1) []) [(Plus, MultiExpr (lit 2) [(Multiply, lit 3)])])
             False) None]],
           OrExpr_of_primary (BaseMathExpr_Expr
             (OrExpr_of_primary (BaseMathExpr_Ref (VarRef 0 ''x'') False)) False)]
       ((in_scope [''x''] [(''f'', \<lparr>fname = ''f'', fparams = [''a''], fblock = 1\<rparr>)] [tk T_Semicolon])\<lparr>current := tk T_CloseParen\<rparr>)"
    by code_simp
  have f3: "findFunction (program (in_scope [] [(''f'', \<lparr>fname = ''f'', fparams = [''a'', ''b''], fblock = 1\<rparr>)]
       [num 1, tk T_Comma, num 2, tk T_Comma, num 3, tk T_CloseParen, tk T_Semicolon])) ''f''
     = Some \<lparr>fname = ''f'', fparams = [''a'', ''b''], fblock = 1\<rparr>"
    by (simp add: in_scope_def findFunction_def)
  have t3: "scr (in_scope [] [(''f'', \<lparr>fname = ''f'', fparams = [''a'', ''b''], fblock = 1\<rparr>)]
       [num 1, tk T_Comma, num 2, tk T_Comma, num 3, tk T_CloseParen, tk T_Semicolon]) = arg_tokens [1, 2, 3] @ tk T_CloseParen # [tk T_Semicolon]"
    by (simp add: in_scope_def arg_tokens_def)
  have f0: "findFunction (program (in_scope [] [(''f'', \<lparr>fname = ''f'', fparams = [], fblock = 1\<rparr>)]
       [tk T_CloseParen, tk T_Semicolon])) ''f''
     = Some \<lparr>fname = ''f'', fparams = [], fblock = 1\<rparr>"
    by (simp add: in_scope_def findFunction_def)
  have t0: "getType (getToken (in_scope [] [(''f'', \<lparr>fname = ''f'', fparams = [], fblock = 1\<rparr>)]
       [tk T_CloseParen, tk T_Semicolon])) = T_CloseParen"
    by (simp add: in_scope_def getToken_def tk_def)
  have w2: "parseFunCall 10 ''f'' (in_scope [''x''] [(''f'', \<lparr>fname = ''f'', fparams = [''a'', ''b''], fblock = 1\<rparr>)]
       [num 1, tk T_Plus, num 2, tk T_Asterisk, num 3, tk T_Comma,
        tk T_OpenParen, ident ''x'', tk T_CloseParen, tk T_CloseParen, tk T_Semicolon])
     = Some (Inr (FunctionCall ''f'' [OrExpr [AndExpr [RelationExpr (BaseLogicExpr
             (AddExpr (MultiExpr (lit 1) []) [(Plus, MultiExpr (lit 2) [(Multiply, lit 3)])])
             False) None]],
           OrExpr_of_primary (BaseMathExpr_Expr
             (OrExpr_of_primary (BaseMathExpr_Ref (VarRef 0 ''x'') False)) False)]),
         (in_scope [''x''] [(''f'', \<lparr>fname = ''f'', fparams = [''a'', ''b''], fblock = 1\<rparr>)] [tk T_Semicolon])\<lparr>current := tk T_CloseParen\<rparr>)"
    using call_arity[OF f2, THEN conjunct2, THEN conjunct1, THEN mp, OF s2] by simp
  have w1: "parseFunCall 10 ''f'' (in_scope [''x''] [(''f'', \<lparr>fname = ''f'', fparams = [''a''], fblock = 1\<rparr>)]
       [num 1, tk T_Plus, num 2, tk T_Asterisk, num 3, tk T_Comma,
        tk T_OpenParen, ident ''x'', tk T_CloseParen, tk T_CloseParen, tk T_Semicolon])
     = Some (Inl ArityMismatch,
         (in_scope [''x''] [(''f'', \<lparr>fname = ''f'', fparams = [''a''], fblock = 1\<rparr>)] [tk T_Semicolon])\<lparr>current := tk T_CloseParen\<rparr>)"
    using call_arity[OF f1, THEN conjunct2, THEN conjunct1, THEN mp, OF s1] by simp
  have w3: "parseFunCall 3 ''f'' (in_scope [] [(''f'', \<lparr>fname = ''f'', fparams = [''a'', ''b''], fblock = 1\<rparr>)]
       [num 1, tk T_Comma, num 2, tk T_Comma, num 3, tk T_CloseParen, tk T_Semicolon])
     = Some (Inl ArityMismatch,
         (in_scope [] [(''f'', \<lparr>fname = ''f'', fparams = [''a'', ''b''], fblock = 1\<rparr>)] [tk T_Semicolon])\<lparr>current := tk T_CloseParen\<rparr>)"
    using call_arity[where n = 3, OF f3, THEN conjunct2, THEN conjunct2, THEN mp, OF t3]
    by (simp add: in_scope_def)
  have w0: "parseFunCall 0 ''f'' (in_scope [] [(''f'', \<lparr>fname = ''f'', fparams = [], fblock = 1\<rparr>)]
       [tk T_CloseParen, tk T_Semicolon])
     = Some (Inr (FunctionCall ''f'' []),
         (in_scope [] [(''f'', \<lparr>fname = ''f'', fparams = [], fblock = 1\<rparr>)] [tk T_Semicolon])\<lparr>current := tk T_CloseParen\<rparr>)"
    using call_arity[where n = 0, OF f0, THEN conjunct1, THEN mp, OF t0]
    by (simp add: in_scope_def move_def getToken_def)
  from w2 w1 w3 w0 show ?thesis by blast
qed

text \<open>Both forms of a call, the statement and the primary expression, go through it.\<close>

lemma call_sites:
  "(getType (getToken p) = T_OpenParen \<longrightarrow>
      parseAssignOrFunCall n p =
        bind (parseFunCall n (getString (current p)) (move p)) (\<lambda>statement p2.
        andThen (accept T_Semicolon THROW p2) (\<lambda>_ p3. ret statement p3)))
   \<and> (scr p = t # t2 # ts \<longrightarrow> getType t = I_Identifier \<longrightarrow> getType t2 = T_OpenParen \<longrightarrow>
      parseBaseMathExpr n p =
        bind (parseFunCall n (getString t) (p\<lparr>scr := ts, current := t2\<rparr>)) (\<lambda>s p8.
        ret (BaseMathExpr_Stmt s False) p8))"
  by (auto simp add: parseAssignOrFunCall_def parseBaseMathExpr_def parseBaseMathExpr_of_def
      parseFunCall_def token_simps andThen_Inr andThen_Inl Let_def)

section \<open>Expressions\<close>

lemma good_frame:
  "good p r \<Longrightarrow> r = Some (res, p') \<Longrightarrow> block p' = block p \<and> blocks p' = blocks p \<and> program p' = program p"
  by (simp add: good_def inv_expr_def sc_def)

lemmas expr_defs =
  parseOrExpr_of_def parseAndExpr_of_def parseRelExpr_of_def parseBaseLogicExpr_of_def
  parseAddExpr_of_def parseMultExpr_of_def parseBaseMathExpr_of_def relOp_def addOp_def mulOp_def

text \<open>
  Claim C7. Wherever the parser stands, and whatever follows the \<^verbatim>\<open>;\<close>: \<^verbatim>\<open>1 + 2 * 3\<close> is the
  sum of 1 and the product of 2 and 3; \<^verbatim>\<open>a || b && c\<close>, for declared \<^verbatim>\<open>a\<close>, \<^verbatim>\<open>b\<close>, \<^verbatim>\<open>c\<close>, is the
  disjunction of \<^verbatim>\<open>a\<close> and the conjunction of \<^verbatim>\<open>b\<close> and \<^verbatim>\<open>c\<close>; in \<^verbatim>\<open>!1 + 2\<close> the negation
  flag sits on the node that holds the whole sum.
\<close>

theorem precedence:
  assumes "block p = Some b"
    and "BlockStatement_findVariable (blocks p) b ''a'' = Some va"
    and "BlockStatement_findVariable (blocks p) b ''b'' = Some vb"
    and "BlockStatement_findVariable (blocks p) b ''c'' = Some vc"
  shows "map_option fst (parseOrExpr 4
           (p\<lparr>scr := [num 1, tk T_Plus, num 2, tk T_Asterisk, num 3, tk T_Semicolon] @ rest\<rparr>))
         = Some (Inr (OrExpr [AndExpr [RelationExpr (BaseLogicExpr
             (AddExpr (MultiExpr (lit 1) [])
                      [(Plus, MultiExpr (lit 2) [(Multiply, lit 3)])])
             False) None]]))
       \<and> map_option fst (parseOrExpr 4
           (p\<lparr>scr := [ident ''a'', tk T_Bar2, ident ''b'', tk T_Ampersand2, ident ''c'',
                       tk T_Semicolon] @ rest\<rparr>))
         = Some (Inr (OrExpr
             [AndExpr [RelationExpr (BaseLogicExpr
                 (AddExpr (MultiExpr (BaseMathExpr_Ref va False) []) []) False) None],
              AndExpr [RelationExpr (BaseLogicExpr
                 (AddExpr (MultiExpr (BaseMathExpr_Ref vb False) []) []) False) None,
                       RelationExpr (BaseLogicExpr
                 (AddExpr (MultiExpr (BaseMathExpr_Ref vc False) []) []) False) None]]))
       \<and> map_option fst (parseOrExpr 4
           (p\<lparr>scr := [tk T_Exclamation, num 1, tk T_Plus, num 2, tk T_Semicolon] @ rest\<rparr>))
         = Some (Inr (OrExpr [AndExpr [RelationExpr (BaseLogicExpr
             (AddExpr (MultiExpr (lit 1) []) [(Plus, MultiExpr (lit 2) [])])
             True) None]]))"
proof (intro conjI)
  show "map_option fst (parseOrExpr 4
           (p\<lparr>scr := [num 1, tk T_Plus, num 2, tk T_Asterisk, num 3, tk T_Semicolon] @ rest\<rparr>))
         = Some (Inr (OrExpr [AndExpr [RelationExpr (BaseLogicExpr
             (AddExpr (MultiExpr (lit 1) [])
                      [(Plus, MultiExpr (lit 2) [(Multiply, lit 3)])])
             False) None]]))"
    by (simp add: eval_nat_numeral expr_defs token_simps tk_simps monad_simps lit_def)
next
  show "map_option fst (parseOrExpr 4
           (p\<lparr>scr := [tk T_Exclamation, num 1, tk T_Plus, num 2, tk T_Semicolon] @ rest\<rparr>))
         = Some (Inr (OrExpr [AndExpr [RelationExpr (BaseLogicExpr
             (AddExpr (MultiExpr (lit 1) []) [(Plus, MultiExpr (lit 2) [])])
             True) None]]))"
    by (simp add: eval_nat_numeral expr_defs token_simps tk_simps monad_simps lit_def)
next
  show "map_option fst (parseOrExpr 4
           (p\<lparr>scr := [ident ''a'', tk T_Bar2, ident ''b'', tk T_Ampersand2, ident ''c'',
                       tk T_Semicolon] @ rest\<rparr>))
         = Some (Inr (OrExpr
             [AndExpr [RelationExpr (BaseLogicExpr
                 (AddExpr (MultiExpr (BaseMathExpr_Ref va False) []) []) False) None],
              AndExpr [RelationExpr (BaseLogicExpr
                 (AddExpr (MultiExpr (BaseMathExpr_Ref vb False) []) []) False) None,
                       RelationExpr (BaseLogicExpr
                 (AddExpr (MultiExpr (BaseMathExpr_Ref vc False) []) []) False) None]]))"
    using assms
    by (simp add: eval_nat_numeral expr_defs token_simps tk_simps monad_simps Let_def
        existVariable_def block_existVariable_def BlockStatement_existVariable_def
        block_findVariable_def)
qed

text \<open>The witness: the three expressions in a block that declares \<^verbatim>\<open>a\<close>, \<^verbatim>\<open>b\<close>, \<^verbatim>\<open>c\<close>.\<close>

theorem precedence_witness:
  "map_option fst (parseOrExpr 4 (in_scope [''a'', ''b'', ''c''] []
       [num 1, tk T_Plus, num 2, tk T_Asterisk, num 3, tk T_Semicolon]))
     = Some (Inr (OrExpr [AndExpr [RelationExpr (BaseLogicExpr
         (AddExpr (MultiExpr (lit 1) []) [(Plus, MultiExpr (lit 2) [(Multiply, lit 3)])])
         False) None]]))
   \<and> map_option fst (parseOrExpr 4 (in_scope [''a'', ''b'', ''c''] []
       [ident ''a'', tk T_Bar2, ident ''b'', tk T_Ampersand2, ident ''c'', tk T_Semicolon]))
     = Some (Inr (OrExpr
         [AndExpr [RelationExpr (BaseLogicExpr
             (AddExpr (MultiExpr (BaseMathExpr_Ref (VarRef 0 ''a'') False) []) []) False) None],
          AndExpr [RelationExpr (BaseLogicExpr
             (AddExpr (MultiExpr (BaseMathExpr_Ref (VarRef 0 ''b'') False) []) []) False) None,
                   RelationExpr (BaseLogicExpr
             (AddExpr (MultiExpr (BaseMathExpr_Ref (VarRef 0 ''c'') False) []) []) False) None]]))
   \<and> map_option fst (parseOrExpr 4 (in_scope [''a'', ''b'', ''c''] []
       [tk T_Exclamation, num 1, tk T_Plus, num 2, tk T_Semicolon]))
     = Some (Inr (OrExpr [AndExpr [RelationExpr (BaseLogicExpr
         (AddExpr (MultiExpr (lit 1) []) [(Plus, MultiExpr (lit 2) [])])
         True) None]]))"
proof -
  let ?p = "in_scope [''a'', ''b'', ''c''] [] []"
  have b: "block ?p = Some 0" by (simp add: in_scope_def)
  have va: "BlockStatement_findVariable (blocks ?p) 0 ''a'' = Some (VarRef 0 ''a'')"
    and vb: "BlockStatement_findVariable (blocks ?p) 0 ''b'' = Some (VarRef 0 ''b'')"
    and vc: "BlockStatement_findVariable (blocks ?p) 0 ''c'' = Some (VarRef 0 ''c'')"
    by (simp_all add: in_scope_def BlockStatement_findVariable.simps)
  from precedence[OF b va vb vc, of "[]"] show ?thesis
    by (simp add: in_scope_def)
qed

text \<open>
  Claim C9. For a declared variable followed by \<^verbatim>\<open>[\<close>, the lower bound is whatever
  \<^verbatim>\<open>parseOrExpr\<close> parses there, a full expression. When \<^verbatim>\<open>]\<close> follows it, the primary is the
  reference to the variable with that one index expression; when \<^verbatim>\<open>:\<close> follows it, the upper
  bound is again whatever \<^verbatim>\<open>parseOrExpr\<close> parses, and with \<^verbatim>\<open>]\<close> after it the primary is the
  slice reference carrying both bound expressions.
\<close>

theorem index_and_slice:
  assumes "scr p = t # tb # ts" and "getType t = I_Identifier" and "getType tb = T_OpenBracket"
    and "block p = Some b"
    and "BlockStatement_findVariable (blocks p) b (getString t) = Some v"
    and "parseOrExpr n (p\<lparr>scr := ts, current := tb\<rparr>) = Some (Inr e1, p1)"
  shows "(getType (getToken p1) = T_CloseBracket \<longrightarrow>
            parseBaseMathExpr n p
              = Some (Inr (BaseMathExpr_Index v (OrExpr [e1]) False), move p1))
       \<and> (getType (getToken p1) = T_Colon \<longrightarrow>
            parseOrExpr n (move p1) = Some (Inr e2, p2) \<longrightarrow>
            getType (getToken p2) = T_CloseBracket \<longrightarrow>
            parseBaseMathExpr n p
              = Some (Inr (BaseMathExpr_Slice v (OrExpr [e1]) (OrExpr [e2]) False), move p2))"
proof -
  define p9 where "p9 = p\<lparr>scr := ts, current := tb\<rparr>"
  have a1: "accept T_Minus NOTHROW p = (Inr False, p)"
    "accept L_Numeric NOTHROW p = (Inr False, p)"
    "accept1 T_OpenBracket p = (Inr False, p)"
    "accept1 T_OpenParen p = (Inr False, p)"
    "accept1 K_Len p = (Inr False, p)"
    "accept1 I_Identifier p = (Inr True, move p)"
    using assms(1,2) by (simp_all add: accept_def accept1_def getToken_def NOTHROW_def)
  have m: "move p = p\<lparr>scr := tb # ts, current := t\<rparr>" by (rule move_Cons[OF assms(1)])
  have a2: "accept1 T_OpenParen (move p) = (Inr False, move p)"
    "accept T_OpenBracket NOTHROW (move p) = (Inr True, p9)"
    using assms(3) unfolding m by (simp_all add: token_simps p9_def)
  have c: "current (move p) = t" by (simp add: m)
  have ev: "existVariable (move p) = (Inr True, move p)"
    using assms(4,5)
    by (simp add: m existVariable_def block_existVariable_def BlockStatement_existVariable_def)
  have f1: "block p1 = Some b" "blocks p1 = blocks p"
    using good_frame[OF good_parseOrExpr assms(6)] assms(4) by simp_all
  have fv1: "block_findVariable (getString t) p1 = (Inr v, p1)"
    using f1 assms(5) by (simp add: block_findVariable_def)
  have start: "parseBaseMathExpr n p =
      bind (parseOrExpr n p9) (\<lambda>e1 p10.
            let indexExpr = OrExpr [e1] in
            andThen (accept T_Colon NOTHROW p10) (\<lambda>isSlice p11.
            if isSlice then
              bind (parseOrExpr n p11) (\<lambda>e2 p12.
              let indexExprSlice = OrExpr [e2] in
              andThen (block_findVariable (getString t) p12) (\<lambda>v p13.
              andThen (accept T_CloseBracket THROW p13) (\<lambda>_ p14.
              ret (BaseMathExpr_Slice v indexExpr indexExprSlice False) p14)))
            else
              andThen (block_findVariable (getString t) p11) (\<lambda>v p12.
              andThen (accept T_CloseBracket THROW p12) (\<lambda>_ p13.
              ret (BaseMathExpr_Index v indexExpr False) p13))))"
    unfolding parseBaseMathExpr_def parseBaseMathExpr_of_def
    by (simp add: a1 a2 ev c andThen_Inr andThen_Inl Let_def cong: if_cong)
  show ?thesis
  proof (intro conjI impI)
    assume c: "getType (getToken p1) = T_CloseBracket"
    then have "accept T_Colon NOTHROW p1 = (Inr False, p1)"
      "accept T_CloseBracket THROW p1 = (Inr True, move p1)"
      by (simp_all add: accept_def NOTHROW_def)
    then show "parseBaseMathExpr n p
              = Some (Inr (BaseMathExpr_Index v (OrExpr [e1]) False), move p1)"
      using assms(6) fv1 by (simp add: start p9_def monad_simps Let_def)
  next
    assume c: "getType (getToken p1) = T_Colon"
      and u: "parseOrExpr n (move p1) = Some (Inr e2, p2)"
      and d: "getType (getToken p2) = T_CloseBracket"
    have f2: "block p2 = Some b" "blocks p2 = blocks p"
      using good_frame[OF good_parseOrExpr u] f1 by (simp_all add: move_def)
    have fv2: "block_findVariable (getString t) p2 = (Inr v, p2)"
      using f2 assms(5) by (simp add: block_findVariable_def)
    from c d have "accept T_Colon NOTHROW p1 = (Inr True, move p1)"
      "accept T_CloseBracket THROW p2 = (Inr True, move p2)"
      by (simp_all add: accept_def)
    then show "parseBaseMathExpr n p
              = Some (Inr (BaseMathExpr_Slice v (OrExpr [e1]) (OrExpr [e2]) False), move p2)"
      using assms(6) u fv2 by (simp add: start p9_def monad_simps Let_def)
  qed
qed

text \<open>The witness: \<^verbatim>\<open>v[0]\<close> and \<^verbatim>\<open>v[0:2]\<close> for a declared \<^verbatim>\<open>v\<close>.\<close>

theorem index_and_slice_witness:
  "parseBaseMathExpr 10 (in_scope [''v''] []
       [ident ''v'', tk T_OpenBracket, num 0, tk T_CloseBracket, tk T_Semicolon])
     = Some (Inr (BaseMathExpr_Index (VarRef 0 ''v'') (OrExpr [OrExpr_of_primary (lit 0)]) False),
         (in_scope [''v''] [] [tk T_Semicolon])\<lparr>current := tk T_CloseBracket\<rparr>)
   \<and> parseBaseMathExpr 10 (in_scope [''v''] []
       [ident ''v'', tk T_OpenBracket, num 0, tk T_Colon, num 2, tk T_CloseBracket,
        tk T_Semicolon])
     = Some (Inr (BaseMathExpr_Slice (VarRef 0 ''v'') (OrExpr [OrExpr_of_primary (lit 0)])
                    (OrExpr [OrExpr_of_primary (lit 2)]) False),
         (in_scope [''v''] [] [tk T_Semicolon])\<lparr>current := tk T_CloseBracket\<rparr>)"
proof -
  let ?p = "in_scope [''v''] [] [ident ''v'', tk T_OpenBracket, num 0, tk T_CloseBracket,
              tk T_Semicolon]"
  let ?p1 = "(in_scope [''v''] [] [tk T_CloseBracket, tk T_Semicolon])\<lparr>current := num 0\<rparr>"
  let ?q = "in_scope [''v''] [] [ident ''v'', tk T_OpenBracket, num 0, tk T_Colon, num 2,
              tk T_CloseBracket, tk T_Semicolon]"
  let ?q1 = "(in_scope [''v''] [] [tk T_Colon, num 2, tk T_CloseBracket, tk T_Semicolon])
               \<lparr>current := num 0\<rparr>"
  let ?q2 = "(in_scope [''v''] [] [tk T_CloseBracket, tk T_Semicolon])\<lparr>current := num 2\<rparr>"
  have ty: "getType (ident ''v'') = I_Identifier" "getType (tk T_OpenBracket) = T_OpenBracket"
    by (simp_all add: tk_simps)
  have p1: "scr ?p = ident ''v'' # tk T_OpenBracket # [num 0, tk T_CloseBracket, tk T_Semicolon]"
    and p2: "block ?p = Some 0"
    and p3: "BlockStatement_findVariable (blocks ?p) 0 (getString (ident ''v''))
               = Some (VarRef 0 ''v'')"
    by (simp_all add: in_scope_def tk_simps BlockStatement_findVariable.simps)
  have p4: "parseOrExpr 10 (?p\<lparr>scr := [num 0, tk T_CloseBracket, tk T_Semicolon],
                               current := tk T_OpenBracket\<rparr>)
              = Some (Inr (OrExpr_of_primary (lit 0)), ?p1)"
    by code_simp
  have p5: "getType (getToken ?p1) = T_CloseBracket"
    by (simp add: in_scope_def getToken_def tk_simps)
  have q1: "scr ?q = ident ''v'' # tk T_OpenBracket
              # [num 0, tk T_Colon, num 2, tk T_CloseBracket, tk T_Semicolon]"
    and q2: "block ?q = Some 0"
    and q3: "BlockStatement_findVariable (blocks ?q) 0 (getString (ident ''v''))
               = Some (VarRef 0 ''v'')"
    by (simp_all add: in_scope_def tk_simps BlockStatement_findVariable.simps)
  have q4: "parseOrExpr 10 (?q\<lparr>scr := [num 0, tk T_Colon, num 2, tk T_CloseBracket,
                                       tk T_Semicolon],
                               current := tk T_OpenBracket\<rparr>)
              = Some (Inr (OrExpr_of_primary (lit 0)), ?q1)"
    by code_simp
  have q5: "getType (getToken ?q1) = T_Colon"
    by (simp add: in_scope_def getToken_def tk_simps)
  have q6: "parseOrExpr 10 (move ?q1) = Some (Inr (OrExpr_of_primary (lit 2)), ?q2)"
    by code_simp
  have q7: "getType (getToken ?q2) = T_CloseBracket"
    by (simp add: in_scope_def getToken_def tk_simps)
  from index_and_slice[OF p1 ty p2 p3 p4, THEN conjunct1, THEN mp, OF p5]
    index_and_slice[OF q1 ty q2 q3 q4, THEN conjunct2, THEN mp, THEN mp, THEN mp, OF q5 q6 q7]
  show ?thesis
    by (simp add: in_scope_def move_def getToken_def)
qed

text \<open>
  The scenario of the spec as a whole program,
  \<^verbatim>\<open>fun main() { var v = [1,2,3]; var w = v[0]; var s = v[0:2]; }\<close>: the three statements of
  the body.
\<close>

lemma list_scenario:
  "map_option (statements \<circ> hd \<circ> blocks \<circ> snd) (parseProgram 20 (Parser_init
     [tk K_Fun, ident ''main'', tk T_OpenParen, tk T_CloseParen, tk T_OpenBrace,
        tk K_Var, ident ''v'', tk T_Equal, tk T_OpenBracket, num 1, tk T_Comma, num 2, tk T_Comma,
          num 3, tk T_CloseBracket, tk T_Semicolon,
        tk K_Var, ident ''w'', tk T_Equal, ident ''v'', tk T_OpenBracket, num 0, tk T_CloseBracket,
          tk T_Semicolon,
        tk K_Var, ident ''s'', tk T_Equal, ident ''v'', tk T_OpenBracket, num 0, tk T_Colon, num 2,
          tk T_CloseBracket, tk T_Semicolon,
      tk T_CloseBrace] False))
   = Some
      [AssignStatement (VarRef 0 ''v'')
         (OrExpr_of_primary (BaseMathExpr_Var (Var VarType_LIST [1, 2, 3]) False)),
       AssignStatement (VarRef 0 ''w'')
         (OrExpr_of_primary (BaseMathExpr_Index (VarRef 0 ''v'')
            (OrExpr [OrExpr_of_primary (lit 0)]) False)),
       AssignStatement (VarRef 0 ''s'')
         (OrExpr_of_primary (BaseMathExpr_Slice (VarRef 0 ''v'')
            (OrExpr [OrExpr_of_primary (lit 0)]) (OrExpr [OrExpr_of_primary (lit 2)]) False))]"
  by code_simp

lemma getToken_Cons:
  "getType (getToken p) = ty \<Longrightarrow> ty \<noteq> T_EOF \<Longrightarrow> \<exists>t ts. scr p = t # ts \<and> getType t = ty"
  by (cases "scr p") (auto simp: getToken_def)

lemma parseVectorLiteral_while_unfold:
  "parseVectorLiteral_while vs p =
     (if getType (getToken p) = T_Comma then
        (if getType (getToken (move p)) = L_Numeric
         then parseVectorLiteral_while (vs @ [getInteger (getToken (move p))]) (move (move p))
         else (Inl SyntaxError, move p))
      else (Inr vs, p))"
  by (subst parseVectorLiteral_while.simps)
     (simp add: accept_def THROW_def NOTHROW_def move_def)

lemma parseVectorLiteral_while_shape:
  "(parseVectorLiteral_while vs p = (Inr ws, p') \<longrightarrow>
      (\<exists>ts k. scr p = ts @ scr p' \<and>
         map getType ts = concat (replicate k [T_Comma, L_Numeric]) \<and>
         ws = vs @ map getInteger (filter (\<lambda>t. getType t = L_Numeric) ts)))
   \<and> (parseVectorLiteral_while vs p = (Inl e, p') \<longrightarrow> e = SyntaxError)"
proof (induction "length (scr p)" arbitrary: vs p rule: less_induct)
  case less
  show ?case
  proof (cases "getType (getToken p) = T_Comma")
    case False
    then have "parseVectorLiteral_while vs p = (Inr vs, p)"
      by (subst parseVectorLiteral_while_unfold) simp
    then show ?thesis
      by (auto intro!: exI[of _ "[]"] exI[of _ 0])
  next
    case True
    then obtain tc ts1 where s1: "scr p = tc # ts1" "getType tc = T_Comma"
      using getToken_Cons[of p T_Comma] by auto
    show ?thesis
    proof (cases "getType (getToken (move p)) = L_Numeric")
      case False
      with True have "parseVectorLiteral_while vs p = (Inl SyntaxError, move p)"
        by (subst parseVectorLiteral_while_unfold) simp
      then show ?thesis by simp
    next
      case num: True
      then obtain tn ts2 where s2: "scr (move p) = tn # ts2" "getType tn = L_Numeric"
        using getToken_Cons[of "move p" L_Numeric] by auto
      define q where "q = move (move p)"
      have sq: "scr p = [tc, tn] @ scr q"
        using s1 s2 by (simp add: q_def move_def getToken_def)
      have tok: "getToken (move p) = tn" using s2 by (simp add: getToken_def)
      have unf: "parseVectorLiteral_while vs p
                   = parseVectorLiteral_while (vs @ [getInteger tn]) q"
        using True num by (subst parseVectorLiteral_while_unfold) (simp add: q_def tok)
      have "length (scr q) < length (scr p)" using sq by simp
      from less[OF this, of "vs @ [getInteger tn]"]
      have IH1: "parseVectorLiteral_while (vs @ [getInteger tn]) q = (Inr ws, p') \<Longrightarrow>
           \<exists>ts k. scr q = ts @ scr p' \<and>
             map getType ts = concat (replicate k [T_Comma, L_Numeric]) \<and>
             ws = (vs @ [getInteger tn]) @ map getInteger (filter (\<lambda>t. getType t = L_Numeric) ts)"
        and IH2: "parseVectorLiteral_while (vs @ [getInteger tn]) q = (Inl e, p') \<Longrightarrow> e = SyntaxError"
        by blast+
      show ?thesis
      proof (intro conjI impI)
        assume "parseVectorLiteral_while vs p = (Inr ws, p')"
        with unf IH1 obtain ts k where
          t: "scr q = ts @ scr p'" "map getType ts = concat (replicate k [T_Comma, L_Numeric])"
            "ws = (vs @ [getInteger tn]) @ map getInteger (filter (\<lambda>t. getType t = L_Numeric) ts)"
          by auto
        show "\<exists>ts k. scr p = ts @ scr p' \<and>
           map getType ts = concat (replicate k [T_Comma, L_Numeric]) \<and>
           ws = vs @ map getInteger (filter (\<lambda>t. getType t = L_Numeric) ts)"
          apply (rule exI[of _ "[tc, tn] @ ts"], rule exI[of _ "Suc k"])
          using t sq s1(2) s2(2) by simp
      next
        assume "parseVectorLiteral_while vs p = (Inl e, p')"
        with unf IH2 show "e = SyntaxError" by simp
      qed
    qed
  qed
qed

text \<open>
  Claim C10. \<^verbatim>\<open>parseVectorLiteral\<close> returns only on tokens of the shape
  \<^verbatim>\<open>n , n , ... , n ]\<close>, every element a numeric token, and the list it returns holds their
  values; every failure is a \<open>SyntaxError\<close>. A first element that is not a numeric token
  fails at once, and so does an element after a comma. A minus sign is accepted before the
  \<^verbatim>\<open>[\<close> of the whole literal, and recorded on the node.
\<close>

theorem list_literal_elements:
  "(parseVectorLiteral p = (Inr v, p') \<longrightarrow>
      (\<exists>ts k. scr p = ts @ scr p' \<and>
         map getType ts = L_Numeric # concat (replicate k [T_Comma, L_Numeric]) @ [T_CloseBracket] \<and>
         v = Var VarType_LIST (map getInteger (filter (\<lambda>t. getType t = L_Numeric) ts))))
   \<and> (parseVectorLiteral p = (Inl e, p') \<longrightarrow> e = SyntaxError)
   \<and> (getType (getToken p) \<noteq> L_Numeric \<longrightarrow> parseVectorLiteral p = (Inl SyntaxError, p))
   \<and> (getType (getToken p) = T_Comma \<longrightarrow> getType (getToken (move p)) \<noteq> L_Numeric \<longrightarrow>
        parseVectorLiteral_while vs p = (Inl SyntaxError, move p))
   \<and> (scr p = tm # tb # rest \<longrightarrow> getType tm = T_Minus \<longrightarrow> getType tb = T_OpenBracket \<longrightarrow>
        parseBaseMathExpr n p =
          (case parseVectorLiteral (p\<lparr>scr := rest, current := tb\<rparr>) of
             (Inl e, q) \<Rightarrow> Some (Inl e, q)
           | (Inr v, q) \<Rightarrow> Some (Inr (BaseMathExpr_Var v True), q)))"
proof (intro conjI impI)
  assume a: "parseVectorLiteral p = (Inr v, p')"
  then have n: "getType (getToken p) = L_Numeric"
    by (auto simp: parseVectorLiteral_def accept_def THROW_def split: if_splits)
  then obtain t0 ts0 where s0: "scr p = t0 # ts0" "getType t0 = L_Numeric"
    using getToken_Cons[of p L_Numeric] by auto
  have m: "move p = p\<lparr>scr := ts0, current := t0\<rparr>" by (rule move_Cons[OF s0(1)])
  from a n obtain ws q where
    w: "parseVectorLiteral_while [getInteger t0] (move p) = (Inr ws, q)"
    and c: "accept T_CloseBracket THROW q = (Inr True, p')" and v: "v = Var VarType_LIST ws"
    by (auto simp: parseVectorLiteral_def accept_def THROW_def m
        split: if_splits prod.splits sum.splits)
  from c have cb: "getType (getToken q) = T_CloseBracket" and p': "p' = move q"
    by (auto simp: accept_def split: if_splits)
  then obtain t9 ts9 where s9: "scr q = t9 # ts9" "getType t9 = T_CloseBracket"
    using getToken_Cons[of q T_CloseBracket] by auto
  from parseVectorLiteral_while_shape[of "[getInteger t0]" "move p" ws q] w
  obtain ts k where t: "scr (move p) = ts @ scr q"
    "map getType ts = concat (replicate k [T_Comma, L_Numeric])"
    "ws = [getInteger t0] @ map getInteger (filter (\<lambda>t. getType t = L_Numeric) ts)"
    by auto
  show "\<exists>ts k. scr p = ts @ scr p' \<and>
         map getType ts = L_Numeric # concat (replicate k [T_Comma, L_Numeric]) @ [T_CloseBracket] \<and>
         v = Var VarType_LIST (map getInteger (filter (\<lambda>t. getType t = L_Numeric) ts))"
    apply (rule exI[of _ "t0 # ts @ [t9]"], rule exI[of _ k])
    using t s0 s9 p' v by (simp add: m move_def getToken_def)
next
  assume a: "parseVectorLiteral p = (Inl e, p')"
  show "e = SyntaxError"
  proof (cases "getType (getToken p) = L_Numeric")
    case False
    with a show ?thesis by (simp add: parseVectorLiteral_def accept_def THROW_def)
  next
    case True
    define vs0 where "vs0 = [getInteger (current (move p))]"
    obtain r q where w: "parseVectorLiteral_while vs0 (move p) = (r, q)"
      by (cases "parseVectorLiteral_while vs0 (move p)")
    show ?thesis
    proof (cases r)
      case (Inl e')
      with parseVectorLiteral_while_shape[of vs0 "move p" _ q e'] w have "e' = SyntaxError" by simp
      with a True w Inl show ?thesis
        by (simp add: parseVectorLiteral_def accept_def THROW_def vs0_def)
    next
      case (Inr ws)
      with a True w show ?thesis
        by (auto simp: parseVectorLiteral_def accept_def THROW_def vs0_def split: if_splits)
    qed
  qed
next
  assume "getType (getToken p) \<noteq> L_Numeric"
  then show "parseVectorLiteral p = (Inl SyntaxError, p)"
    by (simp add: parseVectorLiteral_def accept_def THROW_def)
next
  assume "getType (getToken p) = T_Comma" "getType (getToken (move p)) \<noteq> L_Numeric"
  then show "parseVectorLiteral_while vs p = (Inl SyntaxError, move p)"
    by (subst parseVectorLiteral_while_unfold) simp
next
  assume "scr p = tm # tb # rest" "getType tm = T_Minus" "getType tb = T_OpenBracket"
  then show "parseBaseMathExpr n p =
          (case parseVectorLiteral (p\<lparr>scr := rest, current := tb\<rparr>) of
             (Inl e, q) \<Rightarrow> Some (Inl e, q)
           | (Inr v, q) \<Rightarrow> Some (Inr (BaseMathExpr_Var v True), q))"
    unfolding parseBaseMathExpr_def parseBaseMathExpr_of_def
    by (simp add: token_simps monad_simps andThen_def split: prod.splits sum.splits)
qed

text \<open>The witness: the elements of \<^verbatim>\<open>[-1]\<close> are refused; \<^verbatim>\<open>-[1, 2]\<close> is accepted.\<close>

theorem list_literal_elements_witness:
  "parseVectorLiteral (in_scope [] [] [tk T_Minus, num 1, tk T_CloseBracket])
     = (Inl SyntaxError, in_scope [] [] [tk T_Minus, num 1, tk T_CloseBracket])
   \<and> parseBaseMathExpr 0 (in_scope [] []
        [tk T_Minus, tk T_OpenBracket, num 1, tk T_Comma, num 2, tk T_CloseBracket])
     = Some (Inr (BaseMathExpr_Var (Var VarType_LIST [1, 2]) True),
         (in_scope [] [] [])\<lparr>current := tk T_CloseBracket\<rparr>)"
proof -
  let ?p = "in_scope [] [] [tk T_Minus, num 1, tk T_CloseBracket]"
  let ?q = "in_scope [] [] [tk T_Minus, tk T_OpenBracket, num 1, tk T_Comma, num 2,
              tk T_CloseBracket]"
  have 1: "getType (getToken ?p) \<noteq> L_Numeric"
    by (simp add: in_scope_def getToken_def tk_simps)
  have 2: "scr ?q = tk T_Minus # tk T_OpenBracket # [num 1, tk T_Comma, num 2, tk T_CloseBracket]"
    by (simp add: in_scope_def)
  have 3: "getType (tk T_Minus) = T_Minus" "getType (tk T_OpenBracket) = T_OpenBracket"
    by (simp_all add: tk_simps)
  have 4: "parseVectorLiteral (?q\<lparr>scr := [num 1, tk T_Comma, num 2, tk T_CloseBracket],
                                   current := tk T_OpenBracket\<rparr>)
             = (Inr (Var VarType_LIST [1, 2]), (in_scope [] [] [])\<lparr>current := tk T_CloseBracket\<rparr>)"
    by code_simp
  from list_literal_elements[where p = ?p, THEN conjunct2, THEN conjunct2, THEN conjunct1,
      THEN mp, OF 1]
    list_literal_elements[where p = ?q and n = 0, THEN conjunct2, THEN conjunct2, THEN conjunct2,
      THEN conjunct2, THEN mp, THEN mp, THEN mp, OF 2 3]
    4
  show ?thesis by simp
qed

end
